(* ===== verification/Py_Base.thy ===== *)
theory Py_Base
  imports Complex_Main "HOL-Library.Sublist"
begin

text \<open>
  The Python that the components share: dynamic values and their truth value, dictionaries, the
  string operations the sources use, integers read from text, UUIDs read from text, date-times with
  and without a time zone, and the table operations behind the ORM sessions.

  Conventions. A Python \<open>str\<close> is a HOL \<open>string\<close>: a list of characters with code points
  below 256, so the model covers the Latin-1 fragment of Unicode; case mapping is the one of the
  ASCII letters. A Python \<open>int\<close> is an \<open>int\<close>, a Python \<open>float\<close> is a \<open>rat\<close> (no rounding).
  A \<open>dict\<close> is an association list in insertion order. A primary key is the \<open>nat\<close> value of its
  UUID. A time stamp counts microseconds.
\<close>

section \<open>Automation\<close>

named_theorems table_simps \<open>lookup-after-update laws of the database tables\<close>
named_theorems frame_simps \<open>what an operation leaves unchanged\<close>

section \<open>Values\<close>

type_synonym uuid = nat
type_synonym time = int

datatype pyval =
    PNone
  | PBool bool
  | PInt int
  | PFloat rat
  | PStr string
  | PList "pyval list"
  | PDict "(string \<times> pyval) list"

type_synonym pydict = "(string \<times> pyval) list"

text \<open>Python truth values (\<open>if x\<close>, \<open>x or y\<close>).\<close>

fun truthy :: "pyval \<Rightarrow> bool" where
  "truthy PNone = False"
| "truthy (PBool b) = b"
| "truthy (PInt i) = (i \<noteq> 0)"
| "truthy (PFloat r) = (r \<noteq> 0)"
| "truthy (PStr s) = (s \<noteq> [])"
| "truthy (PList xs) = (xs \<noteq> [])"
| "truthy (PDict d) = (d \<noteq> [])"

definition py_or :: "pyval \<Rightarrow> pyval \<Rightarrow> pyval" where
  "py_or a b = (if truthy a then a else b)"

text \<open>\<open>d.get(k, v)\<close> and \<open>d[k] = v\<close>.\<close>

definition dget :: "pydict \<Rightarrow> string \<Rightarrow> pyval \<Rightarrow> pyval" where
  "dget d k v = (case map_of d k of None \<Rightarrow> v | Some x \<Rightarrow> x)"

fun dset :: "string \<Rightarrow> 'v \<Rightarrow> (string \<times> 'v) list \<Rightarrow> (string \<times> 'v) list" where
  "dset k v [] = [(k, v)]"
| "dset k v ((k', v') # d) = (if k = k' then (k, v) # d else (k', v') # dset k v d)"

lemma map_of_dset [simp]: "map_of (dset k v d) = (map_of d)(k \<mapsto> v)"
  by (induction d) auto

lemma dget_present [simp]: "map_of d k = Some v \<Longrightarrow> dget d k w = v"
  by (simp add: dget_def)

lemma dget_absent [simp]: "map_of d k = None \<Longrightarrow> dget d k w = w"
  by (simp add: dget_def)

fun as_str :: "pyval \<Rightarrow> string option" where
  "as_str (PStr s) = Some s"
| "as_str _ = None"

section \<open>Strings\<close>

definition cp :: "char \<Rightarrow> nat" where
  "cp c = of_char c"

text \<open>\<open>str.isspace\<close> below code point 256.\<close>

definition is_space :: "char \<Rightarrow> bool" where
  "is_space c \<longleftrightarrow> cp c \<in> {9, 10, 11, 12, 13, 28, 29, 30, 31, 32, 133, 160}"

text \<open>The regular expression \<open>[0-9]\<close>, and \<open>str.isdigit\<close>, which also takes superscript digits.\<close>

definition is_digit :: "char \<Rightarrow> bool" where
  "is_digit c \<longleftrightarrow> 48 \<le> cp c \<and> cp c \<le> 57"

definition is_digit_like :: "char \<Rightarrow> bool" where
  "is_digit_like c \<longleftrightarrow> is_digit c \<or> cp c \<in> {178, 179, 185}"

text \<open>
  \<open>str.lower\<close> and \<open>str.upper\<close> below code point 256 (the upper case of three letters there, with code
  points 181, 223 and 255, is not a letter below 256 and is left as it is).
\<close>

definition to_lower :: "char \<Rightarrow> char" where
  "to_lower c =
     (if (65 \<le> cp c \<and> cp c \<le> 90) \<or> (192 \<le> cp c \<and> cp c \<le> 222 \<and> cp c \<noteq> 215)
      then char_of (cp c + 32) else c)"

definition to_upper :: "char \<Rightarrow> char" where
  "to_upper c =
     (if (97 \<le> cp c \<and> cp c \<le> 122) \<or> (224 \<le> cp c \<and> cp c \<le> 254 \<and> cp c \<noteq> 247)
      then char_of (cp c - 32) else c)"

definition lower :: "string \<Rightarrow> string" where "lower s = map to_lower s"
definition upper :: "string \<Rightarrow> string" where "upper s = map to_upper s"

definition lstrip_by :: "(char \<Rightarrow> bool) \<Rightarrow> string \<Rightarrow> string" where
  "lstrip_by p s = dropWhile p s"

definition rstrip_by :: "(char \<Rightarrow> bool) \<Rightarrow> string \<Rightarrow> string" where
  "rstrip_by p s = rev (dropWhile p (rev s))"

definition strip :: "string \<Rightarrow> string" where
  "strip s = rstrip_by is_space (lstrip_by is_space s)"

text \<open>\<open>sub in s\<close>, \<open>s.startswith\<close>, \<open>s.endswith\<close>, \<open>s.split(c)\<close>, \<open>c.join\<close>.\<close>

fun contains :: "string \<Rightarrow> string \<Rightarrow> bool" where
  "contains sub [] \<longleftrightarrow> sub = []"
| "contains sub (c # s) \<longleftrightarrow> prefix sub (c # s) \<or> contains sub s"

definition startswith :: "string \<Rightarrow> string \<Rightarrow> bool" where
  "startswith s p \<longleftrightarrow> prefix p s"

definition endswith :: "string \<Rightarrow> string \<Rightarrow> bool" where
  "endswith s p \<longleftrightarrow> suffix p s"

fun split_on :: "char \<Rightarrow> string \<Rightarrow> string list" where
  "split_on c [] = [[]]"
| "split_on c (x # s) =
     (if x = c then [] # split_on c s
      else (case split_on c s of [] \<Rightarrow> [[x]] | p # ps \<Rightarrow> (x # p) # ps))"

fun join_with :: "string \<Rightarrow> string list \<Rightarrow> string" where
  "join_with sep [] = []"
| "join_with sep [s] = s"
| "join_with sep (s # ss) = s @ sep @ join_with sep ss"

lemma contains_sublist: "contains sub s \<longleftrightarrow> sublist sub s"
proof (induction s)
  case Nil
  then show ?case by simp
next
  case (Cons c s)
  then show ?case by (simp add: sublist_Cons_right)
qed

lemma split_on_not_Nil [simp]: "split_on c s \<noteq> []"
  by (induction s) (auto split: list.splits)

lemma join_split_on: "join_with [c] (split_on c s) = s"
proof (induction s)
  case Nil
  then show ?case by simp
next
  case (Cons x s)
  obtain p ps where p: "split_on c s = p # ps"
    using split_on_not_Nil by (meson list.exhaust)
  with Cons show ?case by (cases ps) auto
qed

lemma split_on_no_sep: "p \<in> set (split_on c s) \<Longrightarrow> c \<notin> set p"
proof (induction s arbitrary: p)
  case Nil
  then show ?case by simp
next
  case (Cons x s)
  obtain q qs where q: "split_on c s = q # qs"
    using split_on_not_Nil by (meson list.exhaust)
  with Cons show ?case by (fastforce split: if_splits)
qed


lemma split_on_Cons_ex: "\<exists>p ps. split_on c s = p # ps"
  using split_on_not_Nil [of c s] by (cases "split_on c s") auto

text \<open>\<open>s.replace(old, new)\<close> for a non-empty \<open>old\<close>: leftmost, non-overlapping.\<close>

function replace_all :: "string \<Rightarrow> string \<Rightarrow> string \<Rightarrow> string" where
  "replace_all old new s =
     (if old = [] \<or> s = [] then s
      else if prefix old s then new @ replace_all old new (drop (length old) s)
      else hd s # replace_all old new (tl s))"
  by pat_completeness auto
termination
  by (relation "measure (\<lambda>(old, new, s). length s)") (auto simp: prefix_def)

declare replace_all.simps [simp del]

lemma replace_all_absent: "old \<noteq> [] \<Longrightarrow> hd old \<notin> set s \<Longrightarrow> replace_all old new s = s"
proof (induction s)
  case Nil
  then show ?case by (simp add: replace_all.simps)
next
  case (Cons c s)
  then have "\<not> prefix old (c # s)"
    by (cases old) auto
  with Cons show ?case by (simp add: replace_all.simps [of old new "c # s"])
qed

section \<open>Integers and UUIDs from text\<close>

definition digit_val :: "nat \<Rightarrow> char \<Rightarrow> int option" where
  "digit_val b c =
     (let v = (if 48 \<le> cp c \<and> cp c \<le> 57 then int (cp c) - 48
               else if 97 \<le> cp c \<and> cp c \<le> 122 then int (cp c) - 87
               else if 65 \<le> cp c \<and> cp c \<le> 90 then int (cp c) - 55 else 99)
      in if v < int b then Some v else None)"

text \<open>Digits with single underscores between them.\<close>

fun parse_digits :: "nat \<Rightarrow> bool \<Rightarrow> int \<Rightarrow> string \<Rightarrow> int option" where
  "parse_digits b prev acc [] = (if prev then Some acc else None)"
| "parse_digits b prev acc (c # s) =
     (if c = CHR ''_'' then (if prev then parse_digits b False acc s else None)
      else (case digit_val b c of
              None \<Rightarrow> None
            | Some d \<Rightarrow> parse_digits b True (acc * int b + d) s))"

definition unsigned_int :: "nat \<Rightarrow> string \<Rightarrow> int option" where
  "unsigned_int b s =
     (if b = 16 \<and> (startswith s ''0x'' \<or> startswith s ''0X'')
      then (let r = drop 2 s in
            parse_digits b False 0 (if startswith r ''_'' then drop 1 r else r))
      else parse_digits b False 0 s)"

text \<open>\<open>int(s, b)\<close> for \<open>b\<close> 10 or 16; \<open>None\<close> stands for \<open>ValueError\<close>.\<close>

definition py_int :: "nat \<Rightarrow> string \<Rightarrow> int option" where
  "py_int b s =
     (case strip s of
        [] \<Rightarrow> None
      | c # r \<Rightarrow>
          if c = CHR ''-'' then map_option uminus (unsigned_int b r)
          else if c = CHR ''+'' then unsigned_int b r
          else unsigned_int b (c # r))"

definition str_isdigit :: "string \<Rightarrow> bool" where
  "str_isdigit s \<longleftrightarrow> s \<noteq> [] \<and> list_all is_digit_like s"

text \<open>\<open>uuid.UUID(s)\<close>; \<open>None\<close> stands for \<open>ValueError\<close>.\<close>

definition uuid_of_string :: "string \<Rightarrow> uuid option" where
  "uuid_of_string s =
     (let h0 = replace_all ''uuid:'' [] (replace_all ''urn:'' [] s);
          br = (\<lambda>c. c = CHR ''{'' \<or> c = CHR ''}'');
          h = filter (\<lambda>c. c \<noteq> CHR ''-'') (rstrip_by br (lstrip_by br h0))
      in if length h \<noteq> 32 then None
         else (case py_int 16 h of
                 None \<Rightarrow> None
               | Some i \<Rightarrow> if 0 \<le> i \<and> i < 2 ^ 128 then Some (nat i) else None))"

text \<open>\<open>str(uuid)\<close>: 32 lower-case hexadecimal digits in groups of 8-4-4-4-12.\<close>

definition hexdig :: "nat \<Rightarrow> char" where
  "hexdig d = char_of (if d < 10 then 48 + d else 87 + d)"

fun hexn :: "nat \<Rightarrow> nat \<Rightarrow> string" where
  "hexn 0 n = []"
| "hexn (Suc k) n = hexn k (n div 16) @ [hexdig (n mod 16)]"

definition uuid_str :: "uuid \<Rightarrow> string" where
  "uuid_str u =
     (let h = hexn 32 u
      in take 8 h @ ''-'' @ take 4 (drop 8 h) @ ''-'' @ take 4 (drop 12 h) @ ''-''
         @ take 4 (drop 16 h) @ ''-'' @ drop 20 h)"

lemma cp_hexdig: "d < 16 \<Longrightarrow> cp (hexdig d) = (if d < 10 then 48 + d else 87 + d)"
  by (simp add: cp_def hexdig_def)

lemma cp_inject: "cp c = cp d \<longleftrightarrow> c = d"
  by (simp add: cp_def)

lemma cp_lits [simp]:
  "cp (CHR ''-'') = 45" "cp (CHR ''_'') = 95" "cp (CHR ''{'') = 123" "cp (CHR ''}'') = 125"
  "cp (CHR ''u'') = 117" "cp (CHR ''+'') = 43" "cp (CHR ''x'') = 120" "cp (CHR ''X'') = 88"
  by (simp_all add: cp_def)

lemma hexdig_neq:
  assumes "d < 16" and "cp c \<notin> {48..57}" and "cp c \<notin> {97..102}"
  shows "hexdig d \<noteq> c"
  using assms cp_hexdig [of d] by (auto split: if_splits)

lemma digit_val_hexdig: "d < 16 \<Longrightarrow> digit_val 16 (hexdig d) = Some (int d)"
  by (simp add: digit_val_def cp_hexdig Let_def)

lemma length_hexn [simp]: "length (hexn k n) = k"
  by (induction k arbitrary: n) auto

lemma hexn_chars: "c \<in> set (hexn k n) \<Longrightarrow> \<exists>d < 16. c = hexdig d"
  by (induction k arbitrary: n) (auto intro: exI [of _ "n mod 16" for n])

lemma hexn_notin:
  assumes "cp c \<notin> {48..57}" and "cp c \<notin> {97..102}"
  shows "c \<notin> set (hexn k n)"
  using assms hexn_chars [of c k n] hexdig_neq by metis

lemma parse_digits_append:
  "list_all (\<lambda>c. \<exists>d < 16. c = hexdig d) s \<Longrightarrow> s \<noteq> [] \<Longrightarrow>
   parse_digits 16 p a (s @ t) =
     parse_digits 16 True (fold (\<lambda>c acc. acc * 16 + the (digit_val 16 c)) s a) t"
proof (induction s arbitrary: p a)
  case Nil
  then show ?case by simp
next
  case (Cons c s)
  then obtain d where d: "d < 16" "c = hexdig d" by auto
  then have "c \<noteq> CHR ''_''" using hexdig_neq [of d "CHR ''_''"] by simp
  with Cons d show ?case by (cases "s = []") (auto simp: digit_val_hexdig)
qed

lemma fold_hexn:
  "fold (\<lambda>c acc. acc * 16 + the (digit_val 16 c)) (hexn k n) a = a * 16 ^ k + int (n mod 16 ^ k)"
proof (induction k arbitrary: n)
  case 0
  then show ?case by simp
next
  case (Suc k)
  have "n mod 16 ^ Suc k = 16 * (n div 16 mod 16 ^ k) + n mod 16"
    by (simp add: mod_mult2_eq)
  with Suc show ?case by (simp add: digit_val_hexdig algebra_simps)
qed

lemma parse_hexn:
  assumes "0 < k"
  shows "parse_digits 16 False 0 (hexn k n) = Some (int (n mod 16 ^ k))"
proof -
  have "hexn k n \<noteq> []" using assms by (cases k) auto
  moreover have "list_all (\<lambda>c. \<exists>d < 16. c = hexdig d) (hexn k n)"
    using hexn_chars by (auto simp: list_all_iff)
  ultimately show ?thesis
    using parse_digits_append [of "hexn k n" False 0 "[]"] fold_hexn [of k n 0] by simp
qed

lemma dropWhile_notin: "(\<And>c. c \<in> set s \<Longrightarrow> \<not> p c) \<Longrightarrow> dropWhile p s = s"
  by (cases s) auto

lemma strip_by_notin:
  assumes "\<And>c. c \<in> set s \<Longrightarrow> \<not> p c"
  shows "rstrip_by p (lstrip_by p s) = s"
proof -
  have "dropWhile p s = s" and "dropWhile p (rev s) = rev s"
    using assms by (auto intro: dropWhile_notin)
  then show ?thesis by (simp add: rstrip_by_def lstrip_by_def)
qed

lemma is_space_code: "is_space c \<Longrightarrow> cp c \<notin> {48..57} \<and> cp c \<notin> {97..102} \<and> cp c \<noteq> 45"
  by (auto simp: is_space_def)

lemma py_int_hexn:
  assumes "0 < k"
  shows "py_int 16 (hexn k n) = Some (int (n mod 16 ^ k))"
proof -
  have "strip (hexn k n) = hexn k n"
    unfolding strip_def using hexn_notin is_space_code by (intro strip_by_notin) blast
  moreover obtain c r where h: "hexn k n = c # r"
    using assms length_hexn [of k n] by (cases "hexn k n") auto
  moreover have "c \<noteq> CHR ''-''" "c \<noteq> CHR ''+''"
    using hexn_notin [of "CHR ''-''" k n] hexn_notin [of "CHR ''+''" k n] h by auto
  moreover have "\<not> startswith (hexn k n) ''0x''" "\<not> startswith (hexn k n) ''0X''"
    using hexn_notin [of "CHR ''x''" k n] hexn_notin [of "CHR ''X''" k n]
    by (auto simp: startswith_def prefix_def)
  ultimately show ?thesis
    using parse_hexn [OF assms, of n] by (simp add: py_int_def unsigned_int_def)
qed

lemma set_uuid_str: "set (uuid_str u) \<subseteq> set (hexn 32 u) \<union> {CHR ''-''}"
  unfolding uuid_str_def Let_def by (auto dest: in_set_takeD in_set_dropD)

lemma uuid_str_dehyphen: "filter (\<lambda>c. c \<noteq> CHR ''-'') (uuid_str u) = hexn 32 u"
proof -
  let ?h = "hexn 32 u" and ?P = "\<lambda>c. c \<noteq> CHR ''-''"
  have nd: "filter ?P s = s" if "set s \<subseteq> set ?h" for s
    using that hexn_notin [of "CHR ''-''" 32 u] by (auto intro!: filter_True)
  have cut: "drop n ?h = take m (drop n ?h) @ drop (n + m) ?h" for n m
    using append_take_drop_id [of m "drop n ?h"] by (simp add: add.commute)
  have "?h = take 8 ?h @ take 4 (drop 8 ?h) @ take 4 (drop 12 ?h) @ take 4 (drop 16 ?h) @ drop 20 ?h"
    using cut [of 0 8] cut [of 8 4] cut [of 12 4] cut [of 16 4] by simp
  then show ?thesis
    by (simp add: uuid_str_def Let_def nd set_take_subset set_drop_subset
        subset_trans [OF set_take_subset set_drop_subset])
qed

theorem uuid_roundtrip: "u < 2 ^ 128 \<Longrightarrow> uuid_of_string (uuid_str u) = Some u"
proof -
  assume u: "u < 2 ^ 128"
  have nu: "CHR ''u'' \<notin> set (uuid_str u)"
    using set_uuid_str [of u] hexn_notin [of "CHR ''u''" 32 u] by auto
  have br: "\<not> (c = CHR ''{'' \<or> c = CHR ''}'')" if "c \<in> set (uuid_str u)" for c
    using that set_uuid_str [of u] hexn_notin [of "CHR ''{''" 32 u] hexn_notin [of "CHR ''}''" 32 u]
    by auto
  have "py_int 16 (hexn 32 u) = Some (int u)"
    using py_int_hexn [of 32 u] u by simp
  with u show ?thesis
    by (simp add: uuid_of_string_def Let_def replace_all_absent nu strip_by_notin br uuid_str_dehyphen)
qed

section \<open>Date-times\<close>

text \<open>
  A stored date-time comes back without a time zone from SQLite and with one from PostgreSQL; the
  sources give a naive one the UTC zone before they compare it.
\<close>

datatype pydt = Naive time | Aware time

primrec utc_of :: "pydt \<Rightarrow> time" where
  "utc_of (Naive t) = t"
| "utc_of (Aware t) = t"

definition fits_int64 :: "int \<Rightarrow> bool" where
  "fits_int64 n \<longleftrightarrow> - (2 ^ 63) \<le> n \<and> n < 2 ^ 63"

definition seconds :: "int \<Rightarrow> time" where
  "seconds n = n * 1000000"

section \<open>Tables\<close>

text \<open>A table is the list of its rows in the order of their insertion.\<close>

definition tget :: "('r \<Rightarrow> 'i) \<Rightarrow> 'i \<Rightarrow> 'r list \<Rightarrow> 'r option" where
  "tget key i rs = find (\<lambda>r. key r = i) rs"

definition tupd :: "('r \<Rightarrow> 'i) \<Rightarrow> 'i \<Rightarrow> ('r \<Rightarrow> 'r) \<Rightarrow> 'r list \<Rightarrow> 'r list" where
  "tupd key i f rs = map (\<lambda>r. if key r = i then f r else r) rs"

text \<open>An insertion under a unique constraint on \<open>key\<close>: \<open>None\<close> is \<open>IntegrityError\<close>.\<close>

definition tadd :: "('r \<Rightarrow> 'i) \<Rightarrow> 'r \<Rightarrow> 'r list \<Rightarrow> 'r list option" where
  "tadd key r rs = (if key r \<in> set (map key rs) then None else Some (rs @ [r]))"

lemma find_append: "find P (xs @ ys) = (case find P xs of None \<Rightarrow> find P ys | Some x \<Rightarrow> Some x)"
  by (induction xs) simp_all

lemma tget_Some_key: "tget key i rs = Some r \<Longrightarrow> key r = i"
  by (auto simp: tget_def find_Some_iff)

lemma tget_Some_set: "tget key i rs = Some r \<Longrightarrow> r \<in> set rs"
  by (auto simp: tget_def find_Some_iff)

lemma tget_None_iff: "tget key i rs = None \<longleftrightarrow> i \<notin> key ` set rs"
  by (auto simp: tget_def find_None_iff)

lemma tget_tupd:
  "(\<And>r. key (f r) = key r) \<Longrightarrow>
   tget key j (tupd key i f rs) = (if i = j then map_option f (tget key j rs) else tget key j rs)"
  by (induction rs) (auto simp: tget_def tupd_def)

lemma tget_append:
  "tget key j (rs @ [r]) =
     (case tget key j rs of Some x \<Rightarrow> Some x | None \<Rightarrow> if key r = j then Some r else None)"
  by (induction rs) (auto simp: tget_def)

lemma keys_tupd [table_simps]:
  "(\<And>r. key (f r) = key r) \<Longrightarrow> map key (tupd key i f rs) = map key rs"
  by (induction rs) (auto simp: tupd_def)

lemma tget_in_set: "distinct (map key rs) \<Longrightarrow> r \<in> set rs \<Longrightarrow> tget key (key r) rs = Some r"
  by (induction rs) (auto simp: tget_def)

lemma tadd_Some:
  "tadd key r rs = Some rs' \<longleftrightarrow> rs' = rs @ [r] \<and> key r \<notin> key ` set rs"
  by (auto simp: tadd_def)

section \<open>The interface of a table\<close>

text \<open>
  What the components rely on: a primary-key lookup, an update of one row that keeps its key, and
  an insertion that fails on a duplicate key. Every table of the data model is an instance.
\<close>

locale row_store =
  fixes key :: "'r \<Rightarrow> 'i"
    and get :: "'i \<Rightarrow> 's \<Rightarrow> 'r option"
    and upd :: "'i \<Rightarrow> ('r \<Rightarrow> 'r) \<Rightarrow> 's \<Rightarrow> 's"
    and add :: "'r \<Rightarrow> 's \<Rightarrow> 's option"
  assumes get_key: "get i s = Some r \<Longrightarrow> key r = i"
    and get_upd: "(\<And>r. key (f r) = key r) \<Longrightarrow>
          get j (upd i f s) = (if i = j then map_option f (get j s) else get j s)"
    and add_dup: "get (key r) s \<noteq> None \<Longrightarrow> add r s = None"
    and get_add: "add r s = Some s' \<Longrightarrow> get j s' = (if j = key r then Some r else get j s)"
begin

lemma get_upd_same: "(\<And>r. key (f r) = key r) \<Longrightarrow> get i s = Some r \<Longrightarrow> get i (upd i f s) = Some (f r)"
  by (simp add: get_upd)

lemma get_upd_other: "(\<And>r. key (f r) = key r) \<Longrightarrow> i \<noteq> j \<Longrightarrow> get j (upd i f s) = get j s"
  by (simp add: get_upd)

text \<open>A key is used once: what the idempotency keys rely on.\<close>

lemma add_once: "add r s = Some s' \<Longrightarrow> key r' = key r \<Longrightarrow> add r' s' = None"
  by (rule add_dup) (simp add: get_add)

lemma add_keeps: "add r s = Some s' \<Longrightarrow> get j s = Some x \<Longrightarrow> get j s' = Some x"
  using add_dup [of r s] by (auto simp: get_add)

text \<open>An update keeps a row property that the updated row has.\<close>

lemma upd_preserves:
  assumes "\<And>r. key (f r) = key r" and "\<And>j r. get j s = Some r \<Longrightarrow> P r"
    and "\<And>r. get i s = Some r \<Longrightarrow> P (f r)" and "get j (upd i f s) = Some r'"
  shows "P r'"
  using assms by (auto simp: get_upd split: if_splits)

end

interpretation list_table:
  row_store key "tget key" "tupd key" "tadd key" for key :: "'r \<Rightarrow> 'i"
proof unfold_locales
  show "tget key i s = Some r \<Longrightarrow> key r = i" for i s r
    by (rule tget_Some_key)
  show "tget key j (tupd key i f s) = (if i = j then map_option f (tget key j s) else tget key j s)"
    if "\<And>r. key (f r) = key r" for f j i s
    using that by (rule tget_tupd)
  show "tget key (key r) s \<noteq> None \<Longrightarrow> tadd key r s = None" for r s
    by (auto simp: tadd_def tget_None_iff)
  show "tget key j s' = (if j = key r then Some r else tget key j s)"
    if "tadd key r s = Some s'" for r s s' j
  proof -
    from that have s': "s' = s @ [r]" and "tget key (key r) s = None"
      by (simp_all add: tadd_Some tget_None_iff)
    then show ?thesis
      by (cases "j = key r") (auto simp: tget_append split: option.splits)
  qed
qed

end
