(* ===== verification/Models.thy ===== *)
theory Models
  imports Py_Base
begin

text \<open>
  The data model: \<open>packages/observability/models.py\<close>. Enumerations are datatypes, a table row is a
  record with the columns the code reads or writes (the \<open>schema_version\<close> column and the ORM
  relationships are left out), the database is a record of tables, and the unique constraints are
  the failing insertions. Foreign keys are not modelled. Tables nothing in the sources reads or
  writes (profiles, snapshots, evidence, prompt and policy versions, audit events) are left out.
\<close>

section \<open>Enumerations\<close>

datatype run_status =
    QUEUED | CONTEXT_BUILDING | PLANNING | POLICY_CHECK | WAITING_APPROVAL | EXECUTING
  | VERIFYING | PERSISTING | COMPLETED | FAILED | CANCELLED | PAUSED

datatype memory_status =
    M_CANDIDATE | M_APPROVED | M_AUTO_APPROVED | M_ACTIVE | M_SUPERSEDED | M_EXPIRED
  | M_REJECTED | M_DELETED

datatype approval_status = A_PENDING | A_APPROVED | A_REJECTED | A_EXPIRED | A_CONSUMED

datatype action_class = READ_ONLY | SAFE_WRITE | PUBLIC_WRITE | PRIVILEGED_HOST | DESTRUCTIVE

datatype source_type = TECHNOCORE_ROOM | GITHUB_REPO | HTTP_JSON | INTERNAL_HEALTH

primrec action_class_value :: "action_class \<Rightarrow> string" where
  "action_class_value READ_ONLY = ''READ_ONLY''"
| "action_class_value SAFE_WRITE = ''SAFE_WRITE''"
| "action_class_value PUBLIC_WRITE = ''PUBLIC_WRITE''"
| "action_class_value PRIVILEGED_HOST = ''PRIVILEGED_HOST''"
| "action_class_value DESTRUCTIVE = ''DESTRUCTIVE''"

primrec memory_status_value :: "memory_status \<Rightarrow> string" where
  "memory_status_value M_CANDIDATE = ''CANDIDATE''"
| "memory_status_value M_APPROVED = ''APPROVED''"
| "memory_status_value M_AUTO_APPROVED = ''AUTO_APPROVED''"
| "memory_status_value M_ACTIVE = ''ACTIVE''"
| "memory_status_value M_SUPERSEDED = ''SUPERSEDED''"
| "memory_status_value M_EXPIRED = ''EXPIRED''"
| "memory_status_value M_REJECTED = ''REJECTED''"
| "memory_status_value M_DELETED = ''DELETED''"

primrec run_status_value :: "run_status \<Rightarrow> string" where
  "run_status_value QUEUED = ''QUEUED''"
| "run_status_value CONTEXT_BUILDING = ''CONTEXT_BUILDING''"
| "run_status_value PLANNING = ''PLANNING''"
| "run_status_value POLICY_CHECK = ''POLICY_CHECK''"
| "run_status_value WAITING_APPROVAL = ''WAITING_APPROVAL''"
| "run_status_value EXECUTING = ''EXECUTING''"
| "run_status_value VERIFYING = ''VERIFYING''"
| "run_status_value PERSISTING = ''PERSISTING''"
| "run_status_value COMPLETED = ''COMPLETED''"
| "run_status_value FAILED = ''FAILED''"
| "run_status_value CANCELLED = ''CANCELLED''"
| "run_status_value PAUSED = ''PAUSED''"

definition terminal :: "run_status \<Rightarrow> bool" where
  "terminal st \<longleftrightarrow> st \<in> {COMPLETED, FAILED, CANCELLED}"

section \<open>Rows\<close>

record user =
  us_id :: uuid
  us_username :: string
  us_display :: string
  us_role :: string
  us_active :: bool
  us_password_hash :: string

record telegram_identity =
  ti_user :: int
  ti_owner :: "uuid option"
  ti_allowed :: bool

record task =
  t_id :: uuid
  t_title :: string
  t_prompt :: string
  t_scope :: pydict
  t_budget :: pydict
  t_key :: "string option"

record run =
  r_id :: uuid
  r_task :: uuid
  r_source_run :: "uuid option"
  r_retry_key :: "string option"
  r_status :: run_status
  r_iteration :: int
  r_token_budget :: int
  r_cost_budget :: rat
  r_token_used :: int
  r_cost_used :: rat
  r_started :: "pydt option"
  r_finished :: "pydt option"
  r_error :: "string option"
  r_heartbeat :: "pydt option"
  r_lease :: "pydt option"
  r_worker :: "string option"
  r_control :: "string option"
  r_retry_count :: int
  r_created :: time
  r_updated :: pydt

record run_event =
  e_run :: uuid
  e_seq :: int
  e_gseq :: int
  e_type :: string
  e_payload :: pydict

record plan_row =
  p_run :: uuid
  p_plan :: pyval
  p_status :: string

record tool_call =
  tc_run :: uuid
  tc_tool :: string
  tc_input :: string
  tc_redacted :: string
  tc_result :: string
  tc_class :: string
  tc_decision :: string

record approval =
  a_id :: uuid
  a_class :: string
  a_hash :: string
  a_target :: string
  a_impact :: string
  a_payload :: pydict
  a_status :: approval_status
  a_decided_by :: "uuid option"
  a_decision :: "string option"
  a_expires :: "pydt option"
  a_run :: "uuid option"
  a_created :: time

record memory_item =
  m_id :: uuid
  m_content :: string
  m_source :: string
  m_observed :: "time option"
  m_confidence :: rat
  m_ttl :: "int option"
  m_status :: memory_status
  m_verification :: string
  m_category :: "string option"
  m_expires :: "time option"
  m_created :: time

record memory_relation =
  mr_from :: uuid
  mr_to :: uuid
  mr_type :: string

record source =
  s_id :: uuid
  s_name :: string
  s_type :: string
  s_enabled :: bool
  s_last_accessed :: "pydt option"
  s_backoff :: "pydt option"

record technocore_cursor =
  cu_room :: string
  cu_last :: int

record technocore_nonce =
  no_room :: string
  no_did :: string
  no_last :: int

record telegram_update =
  tu_id :: int
  tu_processed_at :: time
  tu_hash :: string
  tu_status :: string
  tu_attempts :: int

record execution =
  x_approval :: uuid
  x_run :: uuid
  x_action_id :: string
  x_tool :: string
  x_status :: string
  x_result :: pydict

record outbox_message =
  o_topic :: string
  o_payload :: pydict
  o_key :: string
  o_processed :: bool
  o_processed_at :: "time option"
  o_attempts :: int
  o_last_error :: "string option"
  o_stream_id :: "string option"
  o_created :: time
  o_not_before :: "pydt option"

record agent_evaluation =
  av_room :: string
  av_seq :: int
  av_gseq :: int
  av_nick :: string
  av_did :: "string option"
  av_text :: string
  av_score :: int
  av_tier :: string
  av_reason :: string
  av_dims :: "(string \<times> int) list"
  av_model :: string

record db =
  users :: "user list"
  identities :: "telegram_identity list"
  tasks :: "task list"
  runs :: "run list"
  events :: "run_event list"
  next_gseq :: int
  plans :: "plan_row list"
  tool_calls :: "tool_call list"
  approvals :: "approval list"
  executions :: "execution list"
  outbox :: "outbox_message list"
  memories :: "memory_item list"
  relations :: "memory_relation list"
  sources :: "source list"
  cursors :: "technocore_cursor list"
  nonces :: "technocore_nonce list"
  updates :: "telegram_update list"
  evaluations :: "agent_evaluation list"

definition empty_db :: db where
  "empty_db =
     \<lparr>users = [], identities = [], tasks = [], runs = [], events = [], next_gseq = 1, plans = [],
      tool_calls = [], approvals = [], executions = [], outbox = [], memories = [], relations = [],
      sources = [], cursors = [], nonces = [], updates = [], evaluations = []\<rparr>"

section \<open>Rows with their column defaults\<close>

definition new_run :: "uuid \<Rightarrow> uuid \<Rightarrow> int \<Rightarrow> rat \<Rightarrow> time \<Rightarrow> run" where
  "new_run i t tokens cost now =
     \<lparr>r_id = i, r_task = t, r_source_run = None, r_retry_key = None, r_status = QUEUED,
      r_iteration = 0, r_token_budget = tokens, r_cost_budget = cost, r_token_used = 0,
      r_cost_used = 0, r_started = None, r_finished = None, r_error = None, r_heartbeat = None,
      r_lease = None, r_worker = None, r_control = None, r_retry_count = 0, r_created = now,
      r_updated = Aware now\<rparr>"

definition new_outbox :: "string \<Rightarrow> pydict \<Rightarrow> string \<Rightarrow> time \<Rightarrow> outbox_message" where
  "new_outbox topic payload key now =
     \<lparr>o_topic = topic, o_payload = payload, o_key = key, o_processed = False, o_processed_at = None,
      o_attempts = 0, o_last_error = None, o_stream_id = None, o_created = now, o_not_before = None\<rparr>"

section \<open>Row access\<close>

text \<open>
  \<open>session.get\<close>, an ORM attribute update, \<open>session.add\<close> followed by a flush. An ORM update of a
  run also refreshes \<open>updated_at\<close> (\<open>onupdate=utcnow\<close> of the time stamp mixin); raw SQL does not.
\<close>

definition get_task :: "uuid \<Rightarrow> db \<Rightarrow> task option" where
  "get_task i s = tget t_id i (tasks s)"
definition get_run :: "uuid \<Rightarrow> db \<Rightarrow> run option" where
  "get_run i s = tget r_id i (runs s)"
definition get_approval :: "uuid \<Rightarrow> db \<Rightarrow> approval option" where
  "get_approval i s = tget a_id i (approvals s)"
definition get_execution :: "uuid \<Rightarrow> db \<Rightarrow> execution option" where
  "get_execution i s = tget x_approval i (executions s)"
definition get_outbox :: "string \<Rightarrow> db \<Rightarrow> outbox_message option" where
  "get_outbox k s = tget o_key k (outbox s)"
definition get_memory :: "uuid \<Rightarrow> db \<Rightarrow> memory_item option" where
  "get_memory i s = tget m_id i (memories s)"
definition get_update :: "int \<Rightarrow> db \<Rightarrow> telegram_update option" where
  "get_update i s = tget tu_id i (updates s)"

definition upd_run_raw :: "uuid \<Rightarrow> (run \<Rightarrow> run) \<Rightarrow> db \<Rightarrow> db" where
  "upd_run_raw i f s = s\<lparr>runs := tupd r_id i f (runs s)\<rparr>"
definition upd_run :: "time \<Rightarrow> uuid \<Rightarrow> (run \<Rightarrow> run) \<Rightarrow> db \<Rightarrow> db" where
  "upd_run now i f s = upd_run_raw i (\<lambda>r. (f r)\<lparr>r_updated := Aware now\<rparr>) s"
definition upd_approval :: "uuid \<Rightarrow> (approval \<Rightarrow> approval) \<Rightarrow> db \<Rightarrow> db" where
  "upd_approval i f s = s\<lparr>approvals := tupd a_id i f (approvals s)\<rparr>"
definition upd_execution :: "uuid \<Rightarrow> (execution \<Rightarrow> execution) \<Rightarrow> db \<Rightarrow> db" where
  "upd_execution i f s = s\<lparr>executions := tupd x_approval i f (executions s)\<rparr>"
definition upd_outbox :: "string \<Rightarrow> (outbox_message \<Rightarrow> outbox_message) \<Rightarrow> db \<Rightarrow> db" where
  "upd_outbox k f s = s\<lparr>outbox := tupd o_key k f (outbox s)\<rparr>"
definition upd_memory :: "uuid \<Rightarrow> (memory_item \<Rightarrow> memory_item) \<Rightarrow> db \<Rightarrow> db" where
  "upd_memory i f s = s\<lparr>memories := tupd m_id i f (memories s)\<rparr>"
definition upd_update :: "int \<Rightarrow> (telegram_update \<Rightarrow> telegram_update) \<Rightarrow> db \<Rightarrow> db" where
  "upd_update i f s = s\<lparr>updates := tupd tu_id i f (updates s)\<rparr>"

text \<open>Insertions under the unique constraints; \<open>None\<close> stands for \<open>IntegrityError\<close>.\<close>

definition add_approval :: "approval \<Rightarrow> db \<Rightarrow> db option" where
  "add_approval a s = map_option (\<lambda>rs. s\<lparr>approvals := rs\<rparr>) (tadd a_id a (approvals s))"
definition add_execution :: "execution \<Rightarrow> db \<Rightarrow> db option" where
  "add_execution x s = map_option (\<lambda>rs. s\<lparr>executions := rs\<rparr>) (tadd x_approval x (executions s))"
definition add_outbox :: "outbox_message \<Rightarrow> db \<Rightarrow> db option" where
  "add_outbox m s = map_option (\<lambda>rs. s\<lparr>outbox := rs\<rparr>) (tadd o_key m (outbox s))"
definition add_memory :: "memory_item \<Rightarrow> db \<Rightarrow> db option" where
  "add_memory m s = map_option (\<lambda>rs. s\<lparr>memories := rs\<rparr>) (tadd m_id m (memories s))"
definition add_update :: "telegram_update \<Rightarrow> db \<Rightarrow> db option" where
  "add_update u s = map_option (\<lambda>rs. s\<lparr>updates := rs\<rparr>) (tadd tu_id u (updates s))"

text \<open>
  A task may carry an idempotency key, unique where it is not null; its title and its key come from
  the requests unchecked, so the width of their columns can be exceeded as well. A run may be the retry of a
  source run, unique in the pair of source run and retry key where neither is null.
\<close>

definition add_task :: "task \<Rightarrow> db \<Rightarrow> db option" where
  "add_task t s =
     (if t_key t \<noteq> None \<and> t_key t \<in> t_key ` set (tasks s) then None
      else if 255 < length (t_title t) \<or> (case t_key t of None \<Rightarrow> False | Some k \<Rightarrow> 128 < length k) then None
      else map_option (\<lambda>rs. s\<lparr>tasks := rs\<rparr>) (tadd t_id t (tasks s)))"

definition same_retry :: "run \<Rightarrow> run \<Rightarrow> bool" where
  "same_retry r r' \<longleftrightarrow>
     r_source_run r \<noteq> None \<and> r_retry_key r \<noteq> None \<and>
     r_source_run r = r_source_run r' \<and> r_retry_key r = r_retry_key r'"

definition add_run :: "run \<Rightarrow> db \<Rightarrow> db option" where
  "add_run r s =
     (if list_ex (same_retry r) (runs s) then None
      else map_option (\<lambda>rs. s\<lparr>runs := rs\<rparr>) (tadd r_id r (runs s)))"


text \<open>The table without its unique constraints, for stating what an insertion did.\<close>

definition put_task where "put_task x s = s\<lparr>tasks := tasks s @ [x]\<rparr>"
definition put_run where "put_run x s = s\<lparr>runs := runs s @ [x]\<rparr>"
definition put_approval where "put_approval x s = s\<lparr>approvals := approvals s @ [x]\<rparr>"
definition put_execution where "put_execution x s = s\<lparr>executions := executions s @ [x]\<rparr>"
definition put_outbox where "put_outbox x s = s\<lparr>outbox := outbox s @ [x]\<rparr>"
definition put_memory where "put_memory x s = s\<lparr>memories := memories s @ [x]\<rparr>"
definition put_update where "put_update x s = s\<lparr>updates := updates s @ [x]\<rparr>"

section \<open>The tables are row stores\<close>

lemmas get_defs =
  get_task_def get_run_def get_approval_def get_execution_def get_outbox_def get_memory_def
  get_update_def
lemmas upd_defs =
  upd_run_raw_def upd_approval_def upd_execution_def upd_outbox_def upd_memory_def upd_update_def
lemmas put_defs =
  put_task_def put_run_def put_approval_def put_execution_def put_outbox_def put_memory_def
  put_update_def
lemmas add_defs =
  add_task_def add_run_def add_approval_def add_execution_def add_outbox_def add_memory_def
  add_update_def
text \<open>A record field that holds the rows makes a row store.\<close>

lemma field_store:
  assumes "\<And>i s. get i s = tget key i (rows s)"
    and "\<And>i f s. rows (upd i f s) = tupd key i f (rows s)"
    and "\<And>r s s'. add r s = Some s' \<Longrightarrow> tadd key r (rows s) = Some (rows s')"
  shows "row_store key get upd add"
proof unfold_locales
  show "key r = i" if "get i s = Some r" for i s r
    using that unfolding assms by (rule tget_Some_key)
  show "get j (upd i f s) = (if i = j then map_option f (get j s) else get j s)"
    if "\<And>r. key (f r) = key r" for f j i s
    using that by (simp add: assms tget_tupd)
  show "add r s = None" if "get (key r) s \<noteq> None" for r s
  proof (rule ccontr)
    assume "add r s \<noteq> None"
    then obtain s' where "add r s = Some s'" by blast
    then have "tadd key r (rows s) = Some (rows s')" by (rule assms)
    moreover have "tadd key r (rows s) = None"
      using that by (intro list_table.add_dup) (simp add: assms)
    ultimately show False by simp
  qed
  show "get j s' = (if j = key r then Some r else get j s)" if "add r s = Some s'" for r s s' j
    using list_table.get_add [OF assms(3) [OF that]] by (simp add: assms)
qed

interpretation task_store: row_store t_id get_task "(\<lambda>i f s. s\<lparr>tasks := tupd t_id i f (tasks s)\<rparr>)" add_task
  by (rule field_store [where rows = tasks]) (auto simp: get_defs upd_defs add_defs split: if_splits)

interpretation run_store: row_store r_id get_run upd_run_raw add_run
  by (rule field_store [where rows = runs]) (auto simp: get_defs upd_defs add_defs split: if_splits)

interpretation approval_store: row_store a_id get_approval upd_approval add_approval
  by (rule field_store [where rows = approvals]) (auto simp: get_defs upd_defs add_defs split: if_splits)

interpretation execution_store: row_store x_approval get_execution upd_execution add_execution
  by (rule field_store [where rows = executions]) (auto simp: get_defs upd_defs add_defs split: if_splits)

interpretation outbox_store: row_store o_key get_outbox upd_outbox add_outbox
  by (rule field_store [where rows = outbox]) (auto simp: get_defs upd_defs add_defs split: if_splits)

interpretation memory_store: row_store m_id get_memory upd_memory add_memory
  by (rule field_store [where rows = memories]) (auto simp: get_defs upd_defs add_defs split: if_splits)

interpretation update_store: row_store tu_id get_update upd_update add_update
  by (rule field_store [where rows = updates]) (auto simp: get_defs upd_defs add_defs split: if_splits)

lemmas table_get_upd [table_simps] =
  run_store.get_upd approval_store.get_upd execution_store.get_upd outbox_store.get_upd memory_store.get_upd update_store.get_upd

lemma frame_put_task [simp]:
  "get_run j_run (put_task x s) = get_run j_run s"
  "get_approval j_approval (put_task x s) = get_approval j_approval s"
  "get_execution j_execution (put_task x s) = get_execution j_execution s"
  "get_outbox j_outbox (put_task x s) = get_outbox j_outbox s"
  "get_memory j_memory (put_task x s) = get_memory j_memory s"
  "get_update j_update (put_task x s) = get_update j_update s"
  "next_gseq (put_task x s) = next_gseq s"
  "events (put_task x s) = events s"
  "plans (put_task x s) = plans s"
  "tool_calls (put_task x s) = tool_calls s"
  "identities (put_task x s) = identities s"
  "users (put_task x s) = users s"
  "sources (put_task x s) = sources s"
  "cursors (put_task x s) = cursors s"
  "nonces (put_task x s) = nonces s"
  "evaluations (put_task x s) = evaluations s"
  "relations (put_task x s) = relations s"
  "runs (put_task x s) = runs s"
  "approvals (put_task x s) = approvals s"
  "executions (put_task x s) = executions s"
  "outbox (put_task x s) = outbox s"
  "memories (put_task x s) = memories s"
  "updates (put_task x s) = updates s"
  by (simp_all add: get_defs put_defs)

lemma frame_upd_run_raw [simp]:
  "get_task j_task (upd_run_raw i f s) = get_task j_task s"
  "get_approval j_approval (upd_run_raw i f s) = get_approval j_approval s"
  "get_execution j_execution (upd_run_raw i f s) = get_execution j_execution s"
  "get_outbox j_outbox (upd_run_raw i f s) = get_outbox j_outbox s"
  "get_memory j_memory (upd_run_raw i f s) = get_memory j_memory s"
  "get_update j_update (upd_run_raw i f s) = get_update j_update s"
  "next_gseq (upd_run_raw i f s) = next_gseq s"
  "events (upd_run_raw i f s) = events s"
  "plans (upd_run_raw i f s) = plans s"
  "tool_calls (upd_run_raw i f s) = tool_calls s"
  "identities (upd_run_raw i f s) = identities s"
  "users (upd_run_raw i f s) = users s"
  "sources (upd_run_raw i f s) = sources s"
  "cursors (upd_run_raw i f s) = cursors s"
  "nonces (upd_run_raw i f s) = nonces s"
  "evaluations (upd_run_raw i f s) = evaluations s"
  "relations (upd_run_raw i f s) = relations s"
  "tasks (upd_run_raw i f s) = tasks s"
  "approvals (upd_run_raw i f s) = approvals s"
  "executions (upd_run_raw i f s) = executions s"
  "outbox (upd_run_raw i f s) = outbox s"
  "memories (upd_run_raw i f s) = memories s"
  "updates (upd_run_raw i f s) = updates s"
  by (simp_all add: get_defs upd_defs)

lemma frame_put_run [simp]:
  "get_task j_task (put_run x s) = get_task j_task s"
  "get_approval j_approval (put_run x s) = get_approval j_approval s"
  "get_execution j_execution (put_run x s) = get_execution j_execution s"
  "get_outbox j_outbox (put_run x s) = get_outbox j_outbox s"
  "get_memory j_memory (put_run x s) = get_memory j_memory s"
  "get_update j_update (put_run x s) = get_update j_update s"
  "next_gseq (put_run x s) = next_gseq s"
  "events (put_run x s) = events s"
  "plans (put_run x s) = plans s"
  "tool_calls (put_run x s) = tool_calls s"
  "identities (put_run x s) = identities s"
  "users (put_run x s) = users s"
  "sources (put_run x s) = sources s"
  "cursors (put_run x s) = cursors s"
  "nonces (put_run x s) = nonces s"
  "evaluations (put_run x s) = evaluations s"
  "relations (put_run x s) = relations s"
  "tasks (put_run x s) = tasks s"
  "approvals (put_run x s) = approvals s"
  "executions (put_run x s) = executions s"
  "outbox (put_run x s) = outbox s"
  "memories (put_run x s) = memories s"
  "updates (put_run x s) = updates s"
  by (simp_all add: get_defs put_defs)

lemma frame_upd_approval [simp]:
  "get_task j_task (upd_approval i f s) = get_task j_task s"
  "get_run j_run (upd_approval i f s) = get_run j_run s"
  "get_execution j_execution (upd_approval i f s) = get_execution j_execution s"
  "get_outbox j_outbox (upd_approval i f s) = get_outbox j_outbox s"
  "get_memory j_memory (upd_approval i f s) = get_memory j_memory s"
  "get_update j_update (upd_approval i f s) = get_update j_update s"
  "next_gseq (upd_approval i f s) = next_gseq s"
  "events (upd_approval i f s) = events s"
  "plans (upd_approval i f s) = plans s"
  "tool_calls (upd_approval i f s) = tool_calls s"
  "identities (upd_approval i f s) = identities s"
  "users (upd_approval i f s) = users s"
  "sources (upd_approval i f s) = sources s"
  "cursors (upd_approval i f s) = cursors s"
  "nonces (upd_approval i f s) = nonces s"
  "evaluations (upd_approval i f s) = evaluations s"
  "relations (upd_approval i f s) = relations s"
  "tasks (upd_approval i f s) = tasks s"
  "runs (upd_approval i f s) = runs s"
  "executions (upd_approval i f s) = executions s"
  "outbox (upd_approval i f s) = outbox s"
  "memories (upd_approval i f s) = memories s"
  "updates (upd_approval i f s) = updates s"
  by (simp_all add: get_defs upd_defs)

lemma frame_put_approval [simp]:
  "get_task j_task (put_approval x s) = get_task j_task s"
  "get_run j_run (put_approval x s) = get_run j_run s"
  "get_execution j_execution (put_approval x s) = get_execution j_execution s"
  "get_outbox j_outbox (put_approval x s) = get_outbox j_outbox s"
  "get_memory j_memory (put_approval x s) = get_memory j_memory s"
  "get_update j_update (put_approval x s) = get_update j_update s"
  "next_gseq (put_approval x s) = next_gseq s"
  "events (put_approval x s) = events s"
  "plans (put_approval x s) = plans s"
  "tool_calls (put_approval x s) = tool_calls s"
  "identities (put_approval x s) = identities s"
  "users (put_approval x s) = users s"
  "sources (put_approval x s) = sources s"
  "cursors (put_approval x s) = cursors s"
  "nonces (put_approval x s) = nonces s"
  "evaluations (put_approval x s) = evaluations s"
  "relations (put_approval x s) = relations s"
  "tasks (put_approval x s) = tasks s"
  "runs (put_approval x s) = runs s"
  "executions (put_approval x s) = executions s"
  "outbox (put_approval x s) = outbox s"
  "memories (put_approval x s) = memories s"
  "updates (put_approval x s) = updates s"
  by (simp_all add: get_defs put_defs)

lemma frame_upd_execution [simp]:
  "get_task j_task (upd_execution i f s) = get_task j_task s"
  "get_run j_run (upd_execution i f s) = get_run j_run s"
  "get_approval j_approval (upd_execution i f s) = get_approval j_approval s"
  "get_outbox j_outbox (upd_execution i f s) = get_outbox j_outbox s"
  "get_memory j_memory (upd_execution i f s) = get_memory j_memory s"
  "get_update j_update (upd_execution i f s) = get_update j_update s"
  "next_gseq (upd_execution i f s) = next_gseq s"
  "events (upd_execution i f s) = events s"
  "plans (upd_execution i f s) = plans s"
  "tool_calls (upd_execution i f s) = tool_calls s"
  "identities (upd_execution i f s) = identities s"
  "users (upd_execution i f s) = users s"
  "sources (upd_execution i f s) = sources s"
  "cursors (upd_execution i f s) = cursors s"
  "nonces (upd_execution i f s) = nonces s"
  "evaluations (upd_execution i f s) = evaluations s"
  "relations (upd_execution i f s) = relations s"
  "tasks (upd_execution i f s) = tasks s"
  "runs (upd_execution i f s) = runs s"
  "approvals (upd_execution i f s) = approvals s"
  "outbox (upd_execution i f s) = outbox s"
  "memories (upd_execution i f s) = memories s"
  "updates (upd_execution i f s) = updates s"
  by (simp_all add: get_defs upd_defs)

lemma frame_put_execution [simp]:
  "get_task j_task (put_execution x s) = get_task j_task s"
  "get_run j_run (put_execution x s) = get_run j_run s"
  "get_approval j_approval (put_execution x s) = get_approval j_approval s"
  "get_outbox j_outbox (put_execution x s) = get_outbox j_outbox s"
  "get_memory j_memory (put_execution x s) = get_memory j_memory s"
  "get_update j_update (put_execution x s) = get_update j_update s"
  "next_gseq (put_execution x s) = next_gseq s"
  "events (put_execution x s) = events s"
  "plans (put_execution x s) = plans s"
  "tool_calls (put_execution x s) = tool_calls s"
  "identities (put_execution x s) = identities s"
  "users (put_execution x s) = users s"
  "sources (put_execution x s) = sources s"
  "cursors (put_execution x s) = cursors s"
  "nonces (put_execution x s) = nonces s"
  "evaluations (put_execution x s) = evaluations s"
  "relations (put_execution x s) = relations s"
  "tasks (put_execution x s) = tasks s"
  "runs (put_execution x s) = runs s"
  "approvals (put_execution x s) = approvals s"
  "outbox (put_execution x s) = outbox s"
  "memories (put_execution x s) = memories s"
  "updates (put_execution x s) = updates s"
  by (simp_all add: get_defs put_defs)

lemma frame_upd_outbox [simp]:
  "get_task j_task (upd_outbox i f s) = get_task j_task s"
  "get_run j_run (upd_outbox i f s) = get_run j_run s"
  "get_approval j_approval (upd_outbox i f s) = get_approval j_approval s"
  "get_execution j_execution (upd_outbox i f s) = get_execution j_execution s"
  "get_memory j_memory (upd_outbox i f s) = get_memory j_memory s"
  "get_update j_update (upd_outbox i f s) = get_update j_update s"
  "next_gseq (upd_outbox i f s) = next_gseq s"
  "events (upd_outbox i f s) = events s"
  "plans (upd_outbox i f s) = plans s"
  "tool_calls (upd_outbox i f s) = tool_calls s"
  "identities (upd_outbox i f s) = identities s"
  "users (upd_outbox i f s) = users s"
  "sources (upd_outbox i f s) = sources s"
  "cursors (upd_outbox i f s) = cursors s"
  "nonces (upd_outbox i f s) = nonces s"
  "evaluations (upd_outbox i f s) = evaluations s"
  "relations (upd_outbox i f s) = relations s"
  "tasks (upd_outbox i f s) = tasks s"
  "runs (upd_outbox i f s) = runs s"
  "approvals (upd_outbox i f s) = approvals s"
  "executions (upd_outbox i f s) = executions s"
  "memories (upd_outbox i f s) = memories s"
  "updates (upd_outbox i f s) = updates s"
  by (simp_all add: get_defs upd_defs)

lemma frame_put_outbox [simp]:
  "get_task j_task (put_outbox x s) = get_task j_task s"
  "get_run j_run (put_outbox x s) = get_run j_run s"
  "get_approval j_approval (put_outbox x s) = get_approval j_approval s"
  "get_execution j_execution (put_outbox x s) = get_execution j_execution s"
  "get_memory j_memory (put_outbox x s) = get_memory j_memory s"
  "get_update j_update (put_outbox x s) = get_update j_update s"
  "next_gseq (put_outbox x s) = next_gseq s"
  "events (put_outbox x s) = events s"
  "plans (put_outbox x s) = plans s"
  "tool_calls (put_outbox x s) = tool_calls s"
  "identities (put_outbox x s) = identities s"
  "users (put_outbox x s) = users s"
  "sources (put_outbox x s) = sources s"
  "cursors (put_outbox x s) = cursors s"
  "nonces (put_outbox x s) = nonces s"
  "evaluations (put_outbox x s) = evaluations s"
  "relations (put_outbox x s) = relations s"
  "tasks (put_outbox x s) = tasks s"
  "runs (put_outbox x s) = runs s"
  "approvals (put_outbox x s) = approvals s"
  "executions (put_outbox x s) = executions s"
  "memories (put_outbox x s) = memories s"
  "updates (put_outbox x s) = updates s"
  by (simp_all add: get_defs put_defs)

lemma frame_upd_memory [simp]:
  "get_task j_task (upd_memory i f s) = get_task j_task s"
  "get_run j_run (upd_memory i f s) = get_run j_run s"
  "get_approval j_approval (upd_memory i f s) = get_approval j_approval s"
  "get_execution j_execution (upd_memory i f s) = get_execution j_execution s"
  "get_outbox j_outbox (upd_memory i f s) = get_outbox j_outbox s"
  "get_update j_update (upd_memory i f s) = get_update j_update s"
  "next_gseq (upd_memory i f s) = next_gseq s"
  "events (upd_memory i f s) = events s"
  "plans (upd_memory i f s) = plans s"
  "tool_calls (upd_memory i f s) = tool_calls s"
  "identities (upd_memory i f s) = identities s"
  "users (upd_memory i f s) = users s"
  "sources (upd_memory i f s) = sources s"
  "cursors (upd_memory i f s) = cursors s"
  "nonces (upd_memory i f s) = nonces s"
  "evaluations (upd_memory i f s) = evaluations s"
  "relations (upd_memory i f s) = relations s"
  "tasks (upd_memory i f s) = tasks s"
  "runs (upd_memory i f s) = runs s"
  "approvals (upd_memory i f s) = approvals s"
  "executions (upd_memory i f s) = executions s"
  "outbox (upd_memory i f s) = outbox s"
  "updates (upd_memory i f s) = updates s"
  by (simp_all add: get_defs upd_defs)

lemma frame_put_memory [simp]:
  "get_task j_task (put_memory x s) = get_task j_task s"
  "get_run j_run (put_memory x s) = get_run j_run s"
  "get_approval j_approval (put_memory x s) = get_approval j_approval s"
  "get_execution j_execution (put_memory x s) = get_execution j_execution s"
  "get_outbox j_outbox (put_memory x s) = get_outbox j_outbox s"
  "get_update j_update (put_memory x s) = get_update j_update s"
  "next_gseq (put_memory x s) = next_gseq s"
  "events (put_memory x s) = events s"
  "plans (put_memory x s) = plans s"
  "tool_calls (put_memory x s) = tool_calls s"
  "identities (put_memory x s) = identities s"
  "users (put_memory x s) = users s"
  "sources (put_memory x s) = sources s"
  "cursors (put_memory x s) = cursors s"
  "nonces (put_memory x s) = nonces s"
  "evaluations (put_memory x s) = evaluations s"
  "relations (put_memory x s) = relations s"
  "tasks (put_memory x s) = tasks s"
  "runs (put_memory x s) = runs s"
  "approvals (put_memory x s) = approvals s"
  "executions (put_memory x s) = executions s"
  "outbox (put_memory x s) = outbox s"
  "updates (put_memory x s) = updates s"
  by (simp_all add: get_defs put_defs)

lemma frame_upd_update [simp]:
  "get_task j_task (upd_update i f s) = get_task j_task s"
  "get_run j_run (upd_update i f s) = get_run j_run s"
  "get_approval j_approval (upd_update i f s) = get_approval j_approval s"
  "get_execution j_execution (upd_update i f s) = get_execution j_execution s"
  "get_outbox j_outbox (upd_update i f s) = get_outbox j_outbox s"
  "get_memory j_memory (upd_update i f s) = get_memory j_memory s"
  "next_gseq (upd_update i f s) = next_gseq s"
  "events (upd_update i f s) = events s"
  "plans (upd_update i f s) = plans s"
  "tool_calls (upd_update i f s) = tool_calls s"
  "identities (upd_update i f s) = identities s"
  "users (upd_update i f s) = users s"
  "sources (upd_update i f s) = sources s"
  "cursors (upd_update i f s) = cursors s"
  "nonces (upd_update i f s) = nonces s"
  "evaluations (upd_update i f s) = evaluations s"
  "relations (upd_update i f s) = relations s"
  "tasks (upd_update i f s) = tasks s"
  "runs (upd_update i f s) = runs s"
  "approvals (upd_update i f s) = approvals s"
  "executions (upd_update i f s) = executions s"
  "outbox (upd_update i f s) = outbox s"
  "memories (upd_update i f s) = memories s"
  by (simp_all add: get_defs upd_defs)

lemma frame_put_update [simp]:
  "get_task j_task (put_update x s) = get_task j_task s"
  "get_run j_run (put_update x s) = get_run j_run s"
  "get_approval j_approval (put_update x s) = get_approval j_approval s"
  "get_execution j_execution (put_update x s) = get_execution j_execution s"
  "get_outbox j_outbox (put_update x s) = get_outbox j_outbox s"
  "get_memory j_memory (put_update x s) = get_memory j_memory s"
  "next_gseq (put_update x s) = next_gseq s"
  "events (put_update x s) = events s"
  "plans (put_update x s) = plans s"
  "tool_calls (put_update x s) = tool_calls s"
  "identities (put_update x s) = identities s"
  "users (put_update x s) = users s"
  "sources (put_update x s) = sources s"
  "cursors (put_update x s) = cursors s"
  "nonces (put_update x s) = nonces s"
  "evaluations (put_update x s) = evaluations s"
  "relations (put_update x s) = relations s"
  "tasks (put_update x s) = tasks s"
  "runs (put_update x s) = runs s"
  "approvals (put_update x s) = approvals s"
  "executions (put_update x s) = executions s"
  "outbox (put_update x s) = outbox s"
  "memories (put_update x s) = memories s"
  by (simp_all add: get_defs put_defs)

lemma add_approval_eq: "add_approval x s = (if get_approval (a_id x) s = None then Some (put_approval x s) else None)"
  by (auto simp: add_defs get_defs put_defs tadd_def tget_None_iff)

lemma add_execution_eq: "add_execution x s = (if get_execution (x_approval x) s = None then Some (put_execution x s) else None)"
  by (auto simp: add_defs get_defs put_defs tadd_def tget_None_iff)

lemma add_outbox_eq: "add_outbox x s = (if get_outbox (o_key x) s = None then Some (put_outbox x s) else None)"
  by (auto simp: add_defs get_defs put_defs tadd_def tget_None_iff)

lemma add_memory_eq: "add_memory x s = (if get_memory (m_id x) s = None then Some (put_memory x s) else None)"
  by (auto simp: add_defs get_defs put_defs tadd_def tget_None_iff)

lemma add_update_eq: "add_update x s = (if get_update (tu_id x) s = None then Some (put_update x s) else None)"
  by (auto simp: add_defs get_defs put_defs tadd_def tget_None_iff)

lemma get_put_task [table_simps]:
  "get_task i (put_task x s) =
     (case get_task i s of Some y \<Rightarrow> Some y | None \<Rightarrow> if t_id x = i then Some x else None)"
  by (simp add: get_defs put_defs tget_append)

lemma get_put_run [table_simps]:
  "get_run i (put_run x s) =
     (case get_run i s of Some y \<Rightarrow> Some y | None \<Rightarrow> if r_id x = i then Some x else None)"
  by (simp add: get_defs put_defs tget_append)

lemma get_put_approval [table_simps]:
  "get_approval i (put_approval x s) =
     (case get_approval i s of Some y \<Rightarrow> Some y | None \<Rightarrow> if a_id x = i then Some x else None)"
  by (simp add: get_defs put_defs tget_append)

lemma get_put_execution [table_simps]:
  "get_execution i (put_execution x s) =
     (case get_execution i s of Some y \<Rightarrow> Some y | None \<Rightarrow> if x_approval x = i then Some x else None)"
  by (simp add: get_defs put_defs tget_append)

lemma get_put_outbox [table_simps]:
  "get_outbox i (put_outbox x s) =
     (case get_outbox i s of Some y \<Rightarrow> Some y | None \<Rightarrow> if o_key x = i then Some x else None)"
  by (simp add: get_defs put_defs tget_append)

lemma get_put_memory [table_simps]:
  "get_memory i (put_memory x s) =
     (case get_memory i s of Some y \<Rightarrow> Some y | None \<Rightarrow> if m_id x = i then Some x else None)"
  by (simp add: get_defs put_defs tget_append)

lemma get_put_update [table_simps]:
  "get_update i (put_update x s) =
     (case get_update i s of Some y \<Rightarrow> Some y | None \<Rightarrow> if tu_id x = i then Some x else None)"
  by (simp add: get_defs put_defs tget_append)

lemma get_upd_run [table_simps]:
  assumes "\<And>r. r_id (f r) = r_id r"
  shows "get_run j (upd_run now i f s) =
    (if i = j then map_option (\<lambda>r. (f r)\<lparr>r_updated := Aware now\<rparr>) (get_run j s) else get_run j s)"
  using assms by (simp add: upd_run_def run_store.get_upd)

lemma frame_upd_run [simp]:
  "get_task j_task (upd_run now i f s) = get_task j_task s"
  "get_approval j_approval (upd_run now i f s) = get_approval j_approval s"
  "get_execution j_execution (upd_run now i f s) = get_execution j_execution s"
  "get_outbox j_outbox (upd_run now i f s) = get_outbox j_outbox s"
  "get_memory j_memory (upd_run now i f s) = get_memory j_memory s"
  "get_update j_update (upd_run now i f s) = get_update j_update s"
  "next_gseq (upd_run now i f s) = next_gseq s"
  "events (upd_run now i f s) = events s"
  "plans (upd_run now i f s) = plans s"
  "tool_calls (upd_run now i f s) = tool_calls s"
  "identities (upd_run now i f s) = identities s"
  "users (upd_run now i f s) = users s"
  "sources (upd_run now i f s) = sources s"
  "cursors (upd_run now i f s) = cursors s"
  "nonces (upd_run now i f s) = nonces s"
  "evaluations (upd_run now i f s) = evaluations s"
  "relations (upd_run now i f s) = relations s"
  "tasks (upd_run now i f s) = tasks s"
  "approvals (upd_run now i f s) = approvals s"
  "executions (upd_run now i f s) = executions s"
  "outbox (upd_run now i f s) = outbox s"
  "memories (upd_run now i f s) = memories s"
  "updates (upd_run now i f s) = updates s"
  by (simp_all add: upd_run_def)

lemma add_task_put: "add_task x s = Some s' \<Longrightarrow> s' = put_task x s"
  by (auto simp: add_task_def put_task_def tadd_def split: if_splits)

lemma add_run_put: "add_run x s = Some s' \<Longrightarrow> s' = put_run x s"
  by (auto simp: add_run_def put_run_def tadd_def split: if_splits)

end
