(* ===== verification/Json.thy ===== *)
theory Json
  imports Py_Base "HOL-Library.Char_ord" "HOL-Library.List_Lexorder"
begin

text \<open>
  \<open>json.dumps\<close> of the Python standard library on the values the sources serialise, and the proof
  that the compact form with sorted keys determines the value: the basis of the approval hash.
  The text of a float is a parameter (\<open>fl\<close>), and the injectivity theorem is about values
  without floats.
\<close>

section \<open>Printing\<close>

fun nat_str :: "nat \<Rightarrow> string" where
  "nat_str n = (if n < 10 then [char_of (48 + n)] else nat_str (n div 10) @ [char_of (48 + n mod 10)])"

declare nat_str.simps [simp del]

definition int_str :: "int \<Rightarrow> string" where
  "int_str i = (if i < 0 then CHR ''-'' # nat_str (nat (- i)) else nat_str (nat i))"

definition hex_escape :: "char \<Rightarrow> string" where
  "hex_escape c = [CHR 92, CHR ''u'', CHR ''0'', CHR ''0'', hexdig (cp c div 16), hexdig (cp c mod 16)]"

definition esc_char :: "bool \<Rightarrow> char \<Rightarrow> string" where
  "esc_char ascii c =
     (if cp c = 34 then [CHR 92, CHR 34]
      else if cp c = 92 then [CHR 92, CHR 92]
      else if cp c = 10 then [CHR 92, CHR ''n'']
      else if cp c = 13 then [CHR 92, CHR ''r'']
      else if cp c = 9 then [CHR 92, CHR ''t'']
      else if cp c = 12 then [CHR 92, CHR ''f'']
      else if cp c = 8 then [CHR 92, CHR ''b'']
      else if cp c < 32 \<or> (ascii \<and> 126 < cp c) then hex_escape c
      else [c])"

definition quote :: "bool \<Rightarrow> string \<Rightarrow> string" where
  "quote ascii s = [CHR 34] @ concat (map (esc_char ascii) s) @ [CHR 34]"

fun dumps :: "(rat \<Rightarrow> string) \<Rightarrow> bool \<Rightarrow> string \<Rightarrow> string \<Rightarrow> pyval \<Rightarrow> string" where
  "dumps fl ascii isep ksep PNone = ''null''"
| "dumps fl ascii isep ksep (PBool b) = (if b then ''true'' else ''false'')"
| "dumps fl ascii isep ksep (PInt i) = int_str i"
| "dumps fl ascii isep ksep (PFloat r) = fl r"
| "dumps fl ascii isep ksep (PStr s) = quote ascii s"
| "dumps fl ascii isep ksep (PList xs) =
     ''['' @ join_with isep (map (dumps fl ascii isep ksep) xs) @ '']''"
| "dumps fl ascii isep ksep (PDict d) =
     ''{'' @ join_with isep (map (\<lambda>(k, v). quote ascii k @ ksep @ dumps fl ascii isep ksep v) d) @ ''}''"

text \<open>\<open>sort_keys=True\<close>: every dictionary in the order of its keys.\<close>

fun sort_keys :: "pyval \<Rightarrow> pyval" where
  "sort_keys (PList xs) = PList (map sort_keys xs)"
| "sort_keys (PDict d) = PDict (sort_key fst (map (\<lambda>(k, v). (k, sort_keys v)) d))"
| "sort_keys v = v"

text \<open>\<open>json.dumps(v)\<close> with the default separators, with and without \<open>ensure_ascii\<close>.\<close>

definition json_dumps :: "(rat \<Rightarrow> string) \<Rightarrow> bool \<Rightarrow> pyval \<Rightarrow> string" where
  "json_dumps fl ascii v = dumps fl ascii '', '' '': '' v"

fun no_float :: "pyval \<Rightarrow> bool" where
  "no_float (PFloat r) = False"
| "no_float (PList xs) = list_all no_float xs"
| "no_float (PDict d) = list_all (\<lambda>(k, v). no_float v) d"
| "no_float v = True"

section \<open>Integers print uniquely\<close>

lemma nat_str_digits: "c \<in> set (nat_str n) \<Longrightarrow> is_digit c"
proof (induction n rule: nat_str.induct)
  case (1 n)
  then show ?case
    by (auto simp: nat_str.simps [of n] is_digit_def cp_def split: if_splits)
qed

lemma nat_str_not_Nil [simp]: "nat_str n \<noteq> []"
  by (simp add: nat_str.simps [of n])

definition nat_val :: "string \<Rightarrow> nat" where
  "nat_val s = foldl (\<lambda>a c. a * 10 + (cp c - 48)) 0 s"

lemma nat_val_str: "nat_val (nat_str n) = n"
proof (induction n rule: nat_str.induct)
  case (1 n)
  show ?case
  proof (cases "n < 10")
    case True
    then show ?thesis by (simp add: nat_str.simps [of n] nat_val_def cp_def)
  next
    case False
    with 1 have "nat_val (nat_str (n div 10)) = n div 10" by simp
    with False show ?thesis by (simp add: nat_str.simps [of n] nat_val_def cp_def)
  qed
qed

lemma nat_str_inject: "nat_str m = nat_str n \<Longrightarrow> m = n"
  using nat_val_str by metis

lemma int_str_inject: "int_str i = int_str j \<Longrightarrow> i = j"
proof -
  have ne: "CHR ''-'' # t \<noteq> nat_str n" "nat_str n \<noteq> CHR ''-'' # t" for t n
    using nat_str_digits [of "CHR ''-''" n] list.set_intros(1) [of "CHR ''-''" t]
    by (auto simp: is_digit_def) (metis list.set_intros(1))+
  assume "int_str i = int_str j"
  then show ?thesis
    by (auto simp: int_str_def ne split: if_splits dest!: nat_str_inject)
qed

lemma int_str_chars: "c \<in> set (int_str i) \<Longrightarrow> is_digit c \<or> c = CHR ''-''"
  using nat_str_digits by (auto simp: int_str_def split: if_splits)

lemma int_str_not_Nil [simp]: "int_str i \<noteq> []"
  by (simp add: int_str_def)


section \<open>The compact form is uniquely readable\<close>

text \<open>One escaped character can be read back, whatever follows it.\<close>

definition hexv :: "char \<Rightarrow> nat" where
  "hexv c = nat (the (digit_val 16 c))"

definition unesc :: "string \<Rightarrow> char \<times> string" where
  "unesc s =
     (if cp (s ! 0) \<noteq> 92 then (s ! 0, drop 1 s)
      else if s ! 1 = CHR ''n'' then (char_of (10::nat), drop 2 s)
      else if s ! 1 = CHR ''r'' then (char_of (13::nat), drop 2 s)
      else if s ! 1 = CHR ''t'' then (char_of (9::nat), drop 2 s)
      else if s ! 1 = CHR ''f'' then (char_of (12::nat), drop 2 s)
      else if s ! 1 = CHR ''b'' then (char_of (8::nat), drop 2 s)
      else if s ! 1 = CHR ''u'' then (char_of (16 * hexv (s ! 4) + hexv (s ! 5)), drop 6 s)
      else (s ! 1, drop 2 s))"

lemma hexv_hexdig: "d < 16 \<Longrightarrow> hexv (hexdig d) = d"
  by (simp add: hexv_def digit_val_hexdig)

lemma cp_less: "cp c < 256"
  by (simp add: cp_def)

lemma char_of_cp [simp]: "char_of (cp c) = c"
  by (simp add: cp_def)

lemma unesc_hex: "unesc (hex_escape c @ t) = (c, t)"
proof -
  have "16 * (cp c div 16) + cp c mod 16 = cp c" by simp
  moreover have "cp c div 16 < 16" using cp_less [of c] by simp
  ultimately show ?thesis
    by (simp add: unesc_def hex_escape_def hexv_hexdig cp_def)
qed

lemma chr_lits: "CHR 34 = char_of (34::nat)" "CHR 92 = char_of (92::nat)"
  by code_simp+

lemma unesc_esc: "unesc (esc_char a c @ t) = (c, t)"
proof -
  have eq: "cp c = n \<Longrightarrow> c = char_of n" for n
    using char_of_cp [of c] by simp
  consider "cp c = 34" | "cp c = 92" | "cp c = 10" | "cp c = 13" | "cp c = 9" | "cp c = 12"
    | "cp c = 8" | "cp c \<notin> {34, 92, 10, 13, 9, 12, 8}" by blast
  then show ?thesis
    by cases (auto dest!: eq simp: esc_char_def unesc_hex, simp_all add: unesc_def cp_def chr_lits [symmetric])
qed

lemma esc_char_hd: "esc_char a c @ t \<noteq> CHR 34 # t'"
  by (auto simp: esc_char_def hex_escape_def cp_def)

lemma quote_prefix:
  "concat (map (esc_char a) s) @ CHR 34 # r = concat (map (esc_char a) t) @ CHR 34 # r' \<Longrightarrow>
   s = t \<and> r = r'"
proof (induction s arbitrary: t)
  case Nil
  then show ?case
    by (cases t) (auto dest: esc_char_hd [THEN notE, OF sym])
next
  case (Cons c s)
  then obtain d u where t: "t = d # u"
    using esc_char_hd by (cases t) auto
  with Cons.prems have "unesc (esc_char a c @ concat (map (esc_char a) s) @ CHR 34 # r)
      = unesc (esc_char a d @ concat (map (esc_char a) u) @ CHR 34 # r')"
    by simp
  with Cons.IH t show ?case by (simp add: unesc_esc)
qed

text \<open>What may follow a value in the compact form.\<close>

definition delim :: "string \<Rightarrow> bool" where
  "delim r \<longleftrightarrow> r = [] \<or> hd r \<in> {CHR '','', CHR '']'', CHR ''}''}"

text \<open>A printer is readable at \<open>x\<close>: a printed value and what follows it determine \<open>x\<close>.\<close>

definition readable :: "('a \<Rightarrow> string) \<Rightarrow> ('a \<Rightarrow> bool) \<Rightarrow> 'a \<Rightarrow> bool" where
  "readable E Q x \<longleftrightarrow>
     (\<forall>y r r'. Q y \<longrightarrow> E x @ r = E y @ r' \<longrightarrow> delim r \<longrightarrow> delim r' \<longrightarrow> x = y \<and> r = r')"

lemma readableD:
  "readable E Q x \<Longrightarrow> Q y \<Longrightarrow> E x @ r = E y @ r' \<Longrightarrow> delim r \<Longrightarrow> delim r' \<Longrightarrow> x = y \<and> r = r'"
  unfolding readable_def by blast

lemma join_Cons: "join_with sep (x # xs) = x @ (if xs = [] then [] else sep @ join_with sep xs)"
  by (cases xs) auto

lemma join_prefix:
  assumes c: "c \<in> {CHR '']'', CHR ''}''}"
    and start: "\<And>y. Q y \<Longrightarrow> E y \<noteq> [] \<and> hd (E y) \<noteq> c"
    and "\<And>x. x \<in> set xs \<Longrightarrow> Q x \<and> readable E Q x" and "list_all Q ys"
    and "join_with '','' (map E xs) @ c # r = join_with '','' (map E ys) @ c # r'"
  shows "xs = ys \<and> r = r'"
  using assms(3-5)
proof (induction xs arbitrary: ys)
  case Nil
  then show ?case
  proof (cases ys)
    case (Cons y ys')
    with Nil start [of y] show ?thesis
      by (cases "E y") (auto simp: join_Cons)
  qed auto
next
  case (Cons x xs)
  define tail where "tail = (\<lambda>zs q. (if zs = [] then [] else '','' @ join_with '','' (map E zs)) @ c # q)"
  have dl: "delim (tail zs q)" for zs q
    using c by (auto simp: tail_def delim_def)
  obtain y ys' where ys: "ys = y # ys'"
    using Cons.prems start [of x] by (cases ys; cases "E x") (auto simp: join_Cons)
  have "E x @ tail xs r = E y @ tail ys' r'"
    using Cons.prems(3) ys by (simp add: join_Cons tail_def)
  then have "x = y" and t: "tail xs r = tail ys' r'"
    using Cons.prems ys dl unfolding readable_def by (force, force)
  moreover have "xs = ys' \<and> r = r'"
  proof (cases "xs = [] \<or> ys' = []")
    case True
    with t c show ?thesis by (auto simp: tail_def split: if_splits)
  next
    case False
    with t have "join_with '','' (map E xs) @ c # r = join_with '','' (map E ys') @ c # r'"
      by (simp add: tail_def)
    with Cons.IH [of ys'] Cons.prems ys show ?thesis by simp
  qed
  ultimately show ?case using ys by simp
qed


abbreviation cdumps :: "pyval \<Rightarrow> string" where
  "cdumps \<equiv> dumps (\<lambda>_. []) True '','' '':''"

lemma delimD: "delim r \<Longrightarrow> r = [] \<or> (\<exists>c t. r = c # t \<and> \<not> is_digit c \<and> c \<noteq> CHR ''-'')"
  by (cases r) (auto simp: delim_def is_digit_def cp_def)

lemma readable_int:
  assumes "int_str i @ r = int_str j @ r'" and "delim r" and "delim r'"
  shows "i = j \<and> r = r'"
proof -
  let ?P = "\<lambda>c. is_digit c \<or> c = CHR ''-''"
  have "takeWhile ?P (int_str k @ q) = int_str k" if "delim q" for k q
    using delimD [OF that] int_str_chars [of _ k]
    by (auto simp: takeWhile_append2)
  with assms have "int_str i = int_str j" by metis
  with assms show ?thesis using int_str_inject by auto
qed

fun starter :: "pyval \<Rightarrow> char \<Rightarrow> bool" where
  "starter PNone c = (c = CHR ''n'')"
| "starter (PBool b) c = (c = (if b then CHR ''t'' else CHR ''f''))"
| "starter (PInt i) c = (is_digit c \<or> c = CHR ''-'')"
| "starter (PFloat r) c = False"
| "starter (PStr s) c = (c = CHR 34)"
| "starter (PList xs) c = (c = CHR ''['')"
| "starter (PDict d) c = (c = CHR ''{'')"

lemma cdumps_starter:
  assumes "no_float v" obtains c t where "cdumps v = c # t" and "starter v c"
proof (cases v)
  case (PBool b)
  then show ?thesis using that by (cases b) auto
next
  case (PInt i)
  then obtain c t where "int_str i = c # t" by (cases "int_str i") auto
  then show ?thesis using that [of c t] int_str_chars [of c i] PInt by simp
qed (use assms that in \<open>auto simp: quote_def\<close>)

lemma no_close:
  assumes "no_float v" and "c \<in> {CHR '']'', CHR ''}''}"
  shows "cdumps v \<noteq> [] \<and> hd (cdumps v) \<noteq> c"
proof -
  obtain d t where "cdumps v = d # t" and "starter v d"
    using assms(1) by (rule cdumps_starter)
  with assms(2) show ?thesis
    by (cases v) (auto simp: is_digit_def cp_def split: if_splits)
qed

lemma starter_kind: "starter v c \<Longrightarrow> starter w c \<Longrightarrow>
  (case (v, w) of
     (PNone, PNone) \<Rightarrow> True | (PBool a, PBool b) \<Rightarrow> a = b | (PInt _, PInt _) \<Rightarrow> True
   | (PStr _, PStr _) \<Rightarrow> True | (PList _, PList _) \<Rightarrow> True | (PDict _, PDict _) \<Rightarrow> True | _ \<Rightarrow> False)"
  by (cases v; cases w) (auto simp: is_digit_def cp_def split: if_splits)

fun same_shape :: "pyval \<Rightarrow> pyval \<Rightarrow> bool" where
  "same_shape (PInt _) (PInt _) = True"
| "same_shape (PStr _) (PStr _) = True"
| "same_shape (PList _) (PList _) = True"
| "same_shape (PDict _) (PDict _) = True"
| "same_shape _ _ = False"

lemma same_kind:
  assumes "no_float v" and "no_float w" and "cdumps v @ r = cdumps w @ r'"
  shows "v = w \<and> r = r' \<or> same_shape v w"
proof -
  obtain c t where v: "cdumps v = c # t" "starter v c"
    using assms(1) by (rule cdumps_starter)
  obtain c' t' where w: "cdumps w = c' # t'" "starter w c'"
    using assms(2) by (rule cdumps_starter)
  have "c = c'" using assms(3) v w by simp
  with v w have "starter w c" by simp
  with starter_kind [OF v(2) this] assms(3) show ?thesis
    by (cases v; cases w) (auto split: if_splits)
qed

text \<open>Only values of one shape have to be compared further.\<close>

lemma readableI:
  assumes "no_float v"
    and "\<And>w r r'. same_shape v w \<Longrightarrow> no_float w \<Longrightarrow> cdumps v @ r = cdumps w @ r' \<Longrightarrow> delim r \<Longrightarrow> delim r' \<Longrightarrow> v = w \<and> r = r'"
  shows "readable cdumps no_float v"
  unfolding readable_def using same_kind [OF assms(1)] assms(2) by blast

lemma readable_list:
  assumes "\<And>x. x \<in> set xs \<Longrightarrow> readable cdumps no_float x" and "list_all no_float xs"
    and "list_all no_float ys"
    and "join_with '','' (map cdumps xs) @ CHR '']'' # r = join_with '','' (map cdumps ys) @ CHR '']'' # r'"
  shows "xs = ys \<and> r = r'"
proof (rule join_prefix [OF _ _ _ assms(3,4)])
  show "cdumps y \<noteq> [] \<and> hd (cdumps y) \<noteq> CHR '']''" if "no_float y" for y
    using that by (rule no_close) simp
qed (use assms in \<open>auto simp: list_all_iff\<close>)

definition pair_str :: "string \<times> pyval \<Rightarrow> string" where
  "pair_str = (\<lambda>(k, v). quote True k @ '':'' @ cdumps v)"

lemma readable_pair:
  assumes "readable cdumps no_float v"
  shows "readable pair_str (\<lambda>(k, v). no_float v) (k, v)"
  unfolding readable_def
proof (intro allI impI)
  fix y r r'
  assume y: "case y of (k, v) \<Rightarrow> no_float v" and eq: "pair_str (k, v) @ r = pair_str y @ r'"
    and d: "delim r" "delim r'"
  obtain k' v' where kv: "y = (k', v')" by (cases y)
  with eq have "k = k' \<and> '':'' @ cdumps v @ r = '':'' @ cdumps v' @ r'"
    by (intro quote_prefix [of True]) (simp add: pair_str_def quote_def)
  with readableD [OF assms, of v' r r'] kv y d show "(k, v) = y \<and> r = r'"
    by simp
qed

lemma readable_dict:
  assumes "\<And>k v. (k, v) \<in> set d \<Longrightarrow> readable cdumps no_float v" and "no_float (PDict d)"
    and "no_float (PDict e)"
    and "join_with '','' (map pair_str d) @ CHR ''}'' # r = join_with '','' (map pair_str e) @ CHR ''}'' # r'"
  shows "d = e \<and> r = r'"
proof (rule join_prefix [where Q = "\<lambda>(k, v). no_float v", OF _ _ _ _ assms(4)])
  show "pair_str y \<noteq> [] \<and> hd (pair_str y) \<noteq> CHR ''}''" for y
    by (cases y) (simp add: pair_str_def quote_def)
  show "(case x of (k, v) \<Rightarrow> no_float v) \<and> readable pair_str (\<lambda>(k, v). no_float v) x"
    if "x \<in> set d" for x
  proof -
    obtain k v where x: "x = (k, v)" by (cases x)
    with that have "readable pair_str (\<lambda>(k, v). no_float v) x"
      using readable_pair [OF assms(1)] by simp
    with that x assms(2) show ?thesis by (auto simp: list_all_iff)
  qed
  show "list_all (\<lambda>(k, v). no_float v) e"
    using assms(3) by simp
qed simp

lemma cdumps_dict: "cdumps (PDict d) = ''{'' @ join_with '','' (map pair_str d) @ ''}''"
  by (simp add: pair_str_def)

lemma cdumps_readable: "no_float v \<Longrightarrow> readable cdumps no_float v"
proof (induction v)
  case (PList xs)
  show ?case
  proof (rule readableI [OF PList.prems])
    fix w r r'
    assume "same_shape (PList xs) w" and w: "no_float w" "cdumps (PList xs) @ r = cdumps w @ r'"
    then obtain ys where ys: "w = PList ys" by (cases w) auto
    have "xs = ys \<and> r = r'" using PList w ys by (intro readable_list) (auto simp: list_all_iff)
    with ys show "PList xs = w \<and> r = r'" by simp
  qed
next
  case (PDict d)
  have rd: "readable cdumps no_float v" if "(k, v) \<in> set d" for k v
    using PDict.IH [OF that, of v] PDict.prems that by (auto simp: list_all_iff snds.simps)
  show ?case
  proof (rule readableI [OF PDict.prems])
    fix w r r'
    assume "same_shape (PDict d) w" and w: "no_float w" "cdumps (PDict d) @ r = cdumps w @ r'"
    then obtain e where e: "w = PDict e" by (cases w) auto
    have "d = e \<and> r = r'" using rd PDict.prems w e
      by (intro readable_dict) (simp_all add: cdumps_dict del: dumps.simps no_float.simps)
    with e show "PDict d = w \<and> r = r'" by simp
  qed
next
  case (PStr s)
  show ?case
  proof (rule readableI [OF PStr])
    show "PStr s = w \<and> r = r'" if "same_shape (PStr s) w" "cdumps (PStr s) @ r = cdumps w @ r'" for w r r'
      using that quote_prefix [of True s r] by (cases w) (auto simp: quote_def)
  qed
next
  case (PInt i)
  show ?case
  proof (rule readableI [OF PInt])
    show "PInt i = w \<and> r = r'"
      if "same_shape (PInt i) w" "cdumps (PInt i) @ r = cdumps w @ r'" "delim r" "delim r'" for w r r'
      using that readable_int [of i r] by (cases w) auto
  qed
qed (auto intro: readableI)

theorem compact_json_injective:
  assumes "no_float v" and "no_float w" and "cdumps v = cdumps w"
  shows "v = w"
  using readableD [OF cdumps_readable [OF assms(1)] assms(2), of "[]" "[]"] assms(3)
  by (simp add: delim_def)

lemma no_float_sort_keys: "no_float (sort_keys v) = no_float v"
proof (induction v)
  case (PDict d)
  have "no_float (sort_keys v) = no_float v" if "(k, v) \<in> set d" for k v
    using PDict [OF that, of v] by (simp add: snds.simps)
  then have "(\<forall>x\<in>set d. no_float (sort_keys (snd x))) = (\<forall>x\<in>set d. no_float (snd x))"
    by (auto simp: Ball_def)
  then show ?case by (simp add: list_all_iff split_beta)
qed (auto simp: list_all_iff)

end
