(* ===== verification/Policy.thy ===== *)
theory Policy
  imports Models Json
begin

text \<open>
  The policy engine: \<open>packages/policy/engine.py\<close>. Every tool call gets one of the decisions
  \<open>ALLOW\<close>, \<open>REQUIRE_APPROVAL\<close>, \<open>DENY\<close>; the approval hash binds an approval to its content.
  SHA-256 and HMAC are parameters. The text of a decision's reason is a datatype.
\<close>

section \<open>Decisions\<close>

datatype reason =
    R_OVERRIDE | R_UNKNOWN_TOOL string | R_DESTRUCTIVE | R_HOST_CHANGE | R_PUBLIC_WRITE
  | R_OWN_DB_WRITE | R_AUTOMATIC action_class

record policy_decision =
  pd_class :: action_class
  pd_decision :: string
  pd_reason :: reason

definition TOOL_TO_ACTION :: "(string \<times> action_class) list" where
  "TOOL_TO_ACTION =
     [(''technocore_read'', READ_ONLY), (''github_repo_read'', READ_ONLY),
      (''http_json_read'', READ_ONLY), (''internal_health'', READ_ONLY),
      (''technocore_signed_write'', PUBLIC_WRITE), (''db_self_write'', SAFE_WRITE),
      (''apply_privileged'', PRIVILEGED_HOST), (''destructive_op'', DESTRUCTIVE)]"

definition GATED :: "action_class set" where
  "GATED = {PUBLIC_WRITE, PRIVILEGED_HOST, DESTRUCTIVE}"

type_synonym overrides = "(string \<times> string) list"

definition set_override :: "string \<Rightarrow> string \<Rightarrow> overrides \<Rightarrow> overrides" where
  "set_override tool decision ov = dset tool decision ov"

definition decide :: "overrides \<Rightarrow> string \<Rightarrow> policy_decision" where
  "decide ov tool =
     (case map_of ov tool of
        Some d \<Rightarrow> \<lparr>pd_class = READ_ONLY, pd_decision = d, pd_reason = R_OVERRIDE\<rparr>
      | None \<Rightarrow>
        (case map_of TOOL_TO_ACTION tool of
           None \<Rightarrow> \<lparr>pd_class = DESTRUCTIVE, pd_decision = ''DENY'', pd_reason = R_UNKNOWN_TOOL tool\<rparr>
         | Some c \<Rightarrow>
             if c = DESTRUCTIVE
             then \<lparr>pd_class = c, pd_decision = ''DENY'', pd_reason = R_DESTRUCTIVE\<rparr>
             else if c = PRIVILEGED_HOST
             then \<lparr>pd_class = c, pd_decision = ''REQUIRE_APPROVAL'', pd_reason = R_HOST_CHANGE\<rparr>
             else if c \<in> GATED
             then \<lparr>pd_class = c, pd_decision = ''REQUIRE_APPROVAL'', pd_reason = R_PUBLIC_WRITE\<rparr>
             else if c = SAFE_WRITE
             then \<lparr>pd_class = c, pd_decision = ''ALLOW'', pd_reason = R_OWN_DB_WRITE\<rparr>
             else \<lparr>pd_class = c, pd_decision = ''ALLOW'', pd_reason = R_AUTOMATIC c\<rparr>))"

section \<open>The approval hash\<close>

definition canonical_json :: "pyval \<Rightarrow> string" where
  "canonical_json p = dumps (\<lambda>_. []) True '','' '':'' (sort_keys p)"

definition action_hash :: "(string \<Rightarrow> string) \<Rightarrow> string \<Rightarrow> string \<Rightarrow> pydict \<Rightarrow> string" where
  "action_hash sha256 cls target payload =
     sha256 (canonical_json
       (PDict [(''action_class'', PStr cls), (''target'', PStr target), (''payload'', PDict payload)]))"

definition build_approval_token ::
  "(string \<Rightarrow> string \<Rightarrow> string) \<Rightarrow> string \<Rightarrow> string \<Rightarrow> string \<Rightarrow> string \<Rightarrow> int \<Rightarrow> string" where
  "build_approval_token hmac secret approval_id h user_id expiry =
     hmac secret (approval_id @ '':'' @ h @ '':'' @ user_id @ '':'' @ int_str expiry)"

section \<open>Facts about decisions\<close>

text \<open>
  Without an override the engine lets a tool run unattended exactly when it is registered as
  read-only or as a write to the system's own database; public and host writes need an approval,
  and every unknown or destructive tool is denied.
\<close>

theorem decide_default:
  "pd_decision (decide [] tool) =
     (case map_of TOOL_TO_ACTION tool of
        Some READ_ONLY \<Rightarrow> ''ALLOW''
      | Some SAFE_WRITE \<Rightarrow> ''ALLOW''
      | Some PUBLIC_WRITE \<Rightarrow> ''REQUIRE_APPROVAL''
      | Some PRIVILEGED_HOST \<Rightarrow> ''REQUIRE_APPROVAL''
      | Some DESTRUCTIVE \<Rightarrow> ''DENY''
      | None \<Rightarrow> ''DENY'')"
  by (auto simp: decide_def GATED_def split: option.splits action_class.splits)

lemma decide_range:
  "map_of ov tool = None \<Longrightarrow>
   pd_decision (decide ov tool) \<in> {''ALLOW'', ''REQUIRE_APPROVAL'', ''DENY''}"
  by (auto simp: decide_def split: option.splits)

lemma decide_allow_class:
  "map_of ov tool = None \<Longrightarrow> pd_decision (decide ov tool) = ''ALLOW'' \<Longrightarrow>
   \<exists>c. map_of TOOL_TO_ACTION tool = Some c \<and> c \<in> {READ_ONLY, SAFE_WRITE} \<and> pd_class (decide ov tool) = c"
  by (auto simp: decide_def GATED_def split: option.splits if_splits)
    (metis action_class.exhaust)+

lemma decide_set_override:
  "decide (set_override t d ov) tool =
     (if tool = t then \<lparr>pd_class = READ_ONLY, pd_decision = d, pd_reason = R_OVERRIDE\<rparr> else decide ov tool)"
  by (simp add: decide_def set_override_def)

section \<open>Facts about the hash\<close>



end
