(* ===== verification/Lifecycle.thy ===== *)
theory Lifecycle
  imports Main
begin

text \<open>
  The interface behind every status column: a system whose steps may create an item in an initial
  status and otherwise move its status along a fixed relation. What such a relation forbids no
  sequence of steps can do. The approvals, the memory items and the runs are interpretations.
\<close>

definition legal :: "('st \<Rightarrow> bool) \<Rightarrow> ('st \<Rightarrow> 'st \<Rightarrow> bool) \<Rightarrow> 'st option \<Rightarrow> 'st option \<Rightarrow> bool" where
  "legal init nxt a b \<longleftrightarrow>
     (case a of None \<Rightarrow> (case b of None \<Rightarrow> True | Some y \<Rightarrow> init y)
      | Some x \<Rightarrow> (case b of None \<Rightarrow> False | Some y \<Rightarrow> x = y \<or> nxt x y))"

lemma legal_refl [simp]: "legal init nxt a a"
  by (simp add: legal_def split: option.splits)

lemma legal_mono:
  "legal i n a b \<Longrightarrow> (\<And>x. i x \<Longrightarrow> i' x) \<Longrightarrow> (\<And>x y. n x y \<Longrightarrow> n' x y) \<Longrightarrow> legal i' n' a b"
  by (auto simp: legal_def split: option.splits)

locale lifecycle =
  fixes step :: "'op \<Rightarrow> 's \<Rightarrow> 's"
    and status :: "'k \<Rightarrow> 's \<Rightarrow> 'st option"
    and init :: "'st \<Rightarrow> bool"
    and nxt :: "'st \<Rightarrow> 'st \<Rightarrow> bool"
  assumes step_legal: "legal init nxt (status k s) (status k (step op s))"
begin

lemma step_keeps: "status k s \<noteq> None \<Longrightarrow> status k (step op s) \<noteq> None"
  using step_legal [of k s op] by (auto simp: legal_def split: option.splits)

lemma steps_reach:
  "status k s = Some x \<Longrightarrow> \<exists>y. status k (fold step ops s) = Some y \<and> nxt\<^sup>*\<^sup>* x y"
proof (induction ops arbitrary: s x)
  case Nil
  then show ?case by simp
next
  case (Cons op ops)
  obtain y where y: "status k (step op s) = Some y" "x = y \<or> nxt x y"
    using step_legal [of k s op] Cons.prems by (auto simp: legal_def split: option.splits)
  from Cons.IH [OF y(1)] obtain z where "status k (fold step ops (step op s)) = Some z" "nxt\<^sup>*\<^sup>* y z"
    by blast
  with y(2) show ?case by (auto intro: converse_rtranclp_into_rtranclp)
qed

lemma final_stays:
  "status k s = Some x \<Longrightarrow> (\<And>y. \<not> nxt x y) \<Longrightarrow> status k (fold step ops s) = Some x"
proof (induction ops arbitrary: s)
  case Nil
  then show ?case by simp
next
  case (Cons op ops)
  have "status k (step op s) = Some x"
    using step_legal [of k s op] Cons.prems by (auto simp: legal_def split: option.splits)
  with Cons show ?case by simp
qed

text \<open>An upward closed set of statuses is never left.\<close>

lemma closed_stays:
  "status k s = Some x \<Longrightarrow> x \<in> U \<Longrightarrow> (\<And>x y. x \<in> U \<Longrightarrow> nxt x y \<Longrightarrow> y \<in> U) \<Longrightarrow>
   \<exists>y \<in> U. status k (fold step ops s) = Some y"
proof (induction ops arbitrary: s x)
  case Nil
  then show ?case by simp
next
  case (Cons op ops)
  obtain y where "status k (step op s) = Some y" "x = y \<or> nxt x y"
    using step_legal [of k s op] Cons.prems(1) by (auto simp: legal_def split: option.splits)
  with Cons show ?case by auto
qed

end

end
