(* ===== verification/Approval.thy ===== *)
theory Approval
  imports Policy Lifecycle
begin

text \<open>
  The approval service: \<open>packages/policy/approval.py\<close>. Every operation runs on the rows of one
  session and returns what it returns or raises, together with the session's rows: whether they
  are committed is the caller's choice, so an operation that raises after a change (the expiry of
  an approval) hands that change back. \<open>SELECT ... FOR UPDATE\<close> makes an operation one atomic step.
  \<open>now\<close> is the reading of the clock in that step.
\<close>

datatype svc_error =
    BadApprovalId | BadRunId | ApprovalNotFound | AlreadyDecided approval_status | ApprovalExpired
  | BadDecision | BadUserId | IntegrityError

section \<open>Creation\<close>

definition ap_create ::
  "(string \<Rightarrow> string) \<Rightarrow> uuid \<Rightarrow> time \<Rightarrow> string \<Rightarrow> string \<Rightarrow> string \<Rightarrow> pyval \<Rightarrow> string \<Rightarrow> string \<Rightarrow>
   string \<Rightarrow> int \<Rightarrow> db \<Rightarrow> (svc_error + approval) \<times> db" where
  "ap_create sha256 fresh now run_id action_id tool arguments cls target impact ttl s =
     (let payload = [(''action_id'', PStr action_id), (''tool'', PStr tool), (''arguments'', arguments)];
          h = action_hash sha256 cls target payload
      in case (if run_id = [] then Some None else map_option Some (uuid_of_string run_id)) of
           None \<Rightarrow> (Inl BadRunId, s)
         | Some rid \<Rightarrow>
             let a = \<lparr>a_id = fresh, a_class = cls, a_hash = h, a_target = target, a_impact = impact,
                      a_payload = payload, a_status = A_PENDING, a_decided_by = None,
                      a_decision = None, a_expires = Some (Aware (now + seconds ttl)),
                      a_run = rid, a_created = now\<rparr>
             in case add_approval a s of
                  None \<Rightarrow> (Inl IntegrityError, s)
                | Some s' \<Rightarrow> (Inr a, s'))"

section \<open>Decision\<close>

definition expired :: "time \<Rightarrow> pydt option \<Rightarrow> bool" where
  "expired now e = (case e of None \<Rightarrow> False | Some d \<Rightarrow> utc_of d < now)"

definition decided_status :: "string \<Rightarrow> approval_status" where
  "decided_status decision = (if decision = ''approve'' then A_APPROVED else A_REJECTED)"

text \<open>\<open>uuid.UUID(user_id) if user_id else None\<close>; \<open>None\<close> is the \<open>ValueError\<close>.\<close>

definition resolve_user :: "string option \<Rightarrow> uuid option option" where
  "resolve_user user_id =
     (case user_id of
        None \<Rightarrow> Some None
      | Some u \<Rightarrow> if u = [] then Some None else map_option Some (uuid_of_string u))"

definition set_decision :: "string \<Rightarrow> approval \<Rightarrow> approval" where
  "set_decision decision a =
     a\<lparr>a_status := decided_status decision, a_decision := Some decision\<rparr>"

text \<open>
  The user id is parsed after the status and the decision were assigned, so a malformed one raises
  with both of them changed in the session.
\<close>

definition ap_decide ::
  "time \<Rightarrow> string \<Rightarrow> string \<Rightarrow> string option \<Rightarrow> db \<Rightarrow> (svc_error + approval) \<times> db" where
  "ap_decide now approval_id decision user_id s =
     (case uuid_of_string approval_id of
        None \<Rightarrow> (Inl BadApprovalId, s)
      | Some uid \<Rightarrow>
        (case get_approval uid s of
           None \<Rightarrow> (Inl ApprovalNotFound, s)
         | Some a \<Rightarrow>
             if a_status a \<noteq> A_PENDING then (Inl (AlreadyDecided (a_status a)), s)
             else if expired now (a_expires a)
             then (Inl ApprovalExpired, upd_approval uid (\<lambda>a. a\<lparr>a_status := A_EXPIRED\<rparr>) s)
             else if decision \<noteq> ''approve'' \<and> decision \<noteq> ''reject'' then (Inl BadDecision, s)
             else (case resolve_user user_id of
                     None \<Rightarrow> (Inl BadUserId, upd_approval uid (set_decision decision) s)
                   | Some w \<Rightarrow>
                       (Inr ((set_decision decision a)\<lparr>a_decided_by := w\<rparr>),
                        upd_approval uid (\<lambda>a. (set_decision decision a)\<lparr>a_decided_by := w\<rparr>) s))))"

text \<open>
  The shared continuation: an approval puts the waiting run back into the queue and adds an outbox
  message in the same transaction, a rejection fails the waiting run.
\<close>

definition ap_continue :: "time \<Rightarrow> string \<Rightarrow> approval \<Rightarrow> db \<Rightarrow> (svc_error + approval) \<times> db" where
  "ap_continue now decision a s =
     (case a_run a of
        None \<Rightarrow> (Inr a, s)
      | Some rid \<Rightarrow>
        (case get_run rid s of
           None \<Rightarrow> (Inr a, s)
         | Some run \<Rightarrow>
             if decision = ''approve'' then
               let s1 = (if r_status run = WAITING_APPROVAL
                         then upd_run now rid (\<lambda>r. r\<lparr>r_status := QUEUED, r_control := None\<rparr>) s
                         else s)
               in (case add_outbox
                          (new_outbox ''lumi.run_queued''
                             [(''run_id'', PStr (uuid_str rid)), (''approval_id'', PStr (uuid_str (a_id a)))]
                             (''approve:'' @ uuid_str (a_id a)) now) s1 of
                     None \<Rightarrow> (Inl IntegrityError, s1)
                   | Some s2 \<Rightarrow> (Inr a, s2))
             else if r_status run = WAITING_APPROVAL
             then (Inr a,
                   upd_run now rid
                     (\<lambda>r. r\<lparr>r_status := FAILED, r_error := Some ''approval_rejected'',
                            r_finished := Some (Aware now)\<rparr>) s)
             else (Inr a, s)))"

definition decide_with_continuation ::
  "time \<Rightarrow> string \<Rightarrow> string \<Rightarrow> string option \<Rightarrow> db \<Rightarrow> (svc_error + approval) \<times> db" where
  "decide_with_continuation now approval_id decision user_id s =
     (case ap_decide now approval_id decision user_id s of
        (Inl e, s1) \<Rightarrow> (Inl e, s1)
      | (Inr a, s1) \<Rightarrow> ap_continue now decision a s1)"

definition ap_get :: "string \<Rightarrow> db \<Rightarrow> approval option" where
  "ap_get approval_id s =
     (case uuid_of_string approval_id of None \<Rightarrow> None | Some uid \<Rightarrow> get_approval uid s)"

section \<open>Consumption\<close>

definition ap_consume :: "string \<Rightarrow> db \<Rightarrow> bool \<times> db" where
  "ap_consume approval_id s =
     (case uuid_of_string approval_id of
        None \<Rightarrow> (False, s)
      | Some uid \<Rightarrow>
        (case get_approval uid s of
           None \<Rightarrow> (False, s)
         | Some a \<Rightarrow>
             if a_status a \<noteq> A_APPROVED then (False, s)
             else (True, upd_approval uid (\<lambda>a. a\<lparr>a_status := A_CONSUMED\<rparr>) s)))"

definition payload_str :: "pydict \<Rightarrow> string \<Rightarrow> string \<Rightarrow> string" where
  "payload_str p k dflt = (case py_or (dget p k PNone) (PStr dflt) of PStr v \<Rightarrow> v | _ \<Rightarrow> dflt)"

definition new_execution :: "uuid \<Rightarrow> uuid \<Rightarrow> approval \<Rightarrow> execution" where
  "new_execution aid rid a =
     \<lparr>x_approval = aid, x_run = rid,
      x_action_id = payload_str (a_payload a) ''action_id'' (uuid_str (a_id a)),
      x_tool = payload_str (a_payload a) ''tool'' [], x_status = ''PENDING'', x_result = []\<rparr>"

definition consume_and_record ::
  "time \<Rightarrow> string \<Rightarrow> string \<Rightarrow> db \<Rightarrow>
   (svc_error + bool \<times> approval option \<times> execution option) \<times> db" where
  "consume_and_record now approval_id run_id s =
     (case (uuid_of_string approval_id, uuid_of_string run_id) of
        (Some aid, Some rid) \<Rightarrow>
          (case get_approval aid s of
             None \<Rightarrow> (Inr (False, None, None), s)
           | Some a \<Rightarrow>
               if expired now (a_expires a) then
                 (if a_status a = A_PENDING
                  then (Inr (False, Some (a\<lparr>a_status := A_EXPIRED\<rparr>), None),
                        upd_approval aid (\<lambda>a. a\<lparr>a_status := A_EXPIRED\<rparr>) s)
                  else (Inr (False, Some a, None), s))
               else if a_status a = A_CONSUMED
               then (Inr (False, Some a, get_execution aid s), s)
               else if a_status a \<noteq> A_APPROVED then (Inr (False, Some a, None), s)
               else
                 let s1 = upd_approval aid (\<lambda>a. a\<lparr>a_status := A_CONSUMED\<rparr>) s;
                     ex = new_execution aid rid a
                 in (case add_execution ex s1 of
                       None \<Rightarrow> (Inl IntegrityError, s1)
                     | Some s2 \<Rightarrow> (Inr (True, Some (a\<lparr>a_status := A_CONSUMED\<rparr>), Some ex), s2)))
      | _ \<Rightarrow> (Inr (False, None, None), s))"

definition mark_execution_result :: "string \<Rightarrow> string \<Rightarrow> pydict option \<Rightarrow> db \<Rightarrow> db" where
  "mark_execution_result approval_id status result s =
     (case uuid_of_string approval_id of
        None \<Rightarrow> s
      | Some aid \<Rightarrow>
        (case get_execution aid s of
           None \<Rightarrow> s
         | Some _ \<Rightarrow>
             upd_execution aid
               (\<lambda>x. (case result of None \<Rightarrow> x\<lparr>x_status := status\<rparr>
                     | Some r \<Rightarrow> x\<lparr>x_status := status, x_result := r\<rparr>)) s))"


section \<open>What the operations change\<close>

definition status_of :: "uuid \<Rightarrow> db \<Rightarrow> approval_status option" where
  "status_of i s = map_option a_status (get_approval i s)"

lemma set_decision_id [simp]: "a_id (set_decision d a) = a_id a"
  by (simp add: set_decision_def)

lemma set_decision_status [simp]: "a_status (set_decision d a) = decided_status d"
  by (simp add: set_decision_def)

lemma status_of_upd:
  "(\<And>a. a_id (f a) = a_id a) \<Longrightarrow>
   status_of j (upd_approval i f s) =
     (if i = j then map_option (a_status \<circ> f) (get_approval j s) else status_of j s)"
  by (simp add: status_of_def approval_store.get_upd option.map_comp)

lemma status_of_put:
  "status_of j (put_approval a s) =
     (case status_of j s of Some st \<Rightarrow> Some st | None \<Rightarrow> if a_id a = j then Some (a_status a) else None)"
  by (auto simp: status_of_def get_put_approval split: option.splits)

lemma status_of_frame [simp]:
  "status_of j (upd_run now i f s) = status_of j s"
  "status_of j (put_outbox m s) = status_of j s"
  "status_of j (put_execution x s) = status_of j s"
  "status_of j (upd_execution i g s) = status_of j s"
  by (simp_all add: status_of_def)

lemmas service_defs = ap_decide_def ap_continue_def decide_with_continuation_def ap_consume_def
  consume_and_record_def mark_execution_result_def ap_create_def

text \<open>The legal changes of an approval's status.\<close>

inductive approval_next :: "approval_status \<Rightarrow> approval_status \<Rightarrow> bool" where
  "approval_next A_PENDING A_APPROVED"
| "approval_next A_PENDING A_REJECTED"
| "approval_next A_PENDING A_EXPIRED"
| "approval_next A_APPROVED A_CONSUMED"

inductive_cases approval_next_fromE [elim!]:
  "approval_next A_CONSUMED st" "approval_next A_REJECTED st" "approval_next A_EXPIRED st"
  "approval_next A_APPROVED st" "approval_next A_PENDING st"

abbreviation ap_legal :: "approval_status option \<Rightarrow> approval_status option \<Rightarrow> bool" where
  "ap_legal \<equiv> legal (\<lambda>st. st = A_PENDING) approval_next"

lemma decide_legal: "ap_decide now i d u s = (r, s') \<Longrightarrow> ap_legal (status_of j s) (status_of j s')"
  by (auto simp: ap_decide_def status_of_upd split: option.splits if_splits)
    (auto simp: status_of_def legal_def decided_status_def intro: approval_next.intros)

lemma continue_status: "ap_continue now d a s = (r, s') \<Longrightarrow> status_of j s' = status_of j s"
  by (auto simp: ap_continue_def add_outbox_eq Let_def split: option.splits if_splits)

lemma decide_with_continuation_legal:
  "decide_with_continuation now i d u s = (r, s') \<Longrightarrow> ap_legal (status_of j s) (status_of j s')"
  by (auto simp: decide_with_continuation_def continue_status split: prod.splits sum.splits
      dest: decide_legal [of _ _ _ _ _ _ _ j] continue_status [of _ _ _ _ _ _ j])

lemma consume_legal: "ap_consume i s = (r, s') \<Longrightarrow> ap_legal (status_of j s) (status_of j s')"
  by (auto simp: ap_consume_def status_of_upd split: option.splits if_splits)
    (auto simp: status_of_def legal_def intro: approval_next.intros)

lemma record_legal: "consume_and_record now i k s = (r, s') \<Longrightarrow> ap_legal (status_of j s) (status_of j s')"
  by (auto simp: consume_and_record_def status_of_upd add_execution_eq Let_def
      split: option.splits if_splits)
    (auto simp: status_of_def legal_def intro: approval_next.intros)

lemma create_legal:
  "ap_create h f now k ai t ar c tg im ttl s = (r, s') \<Longrightarrow> ap_legal (status_of j s) (status_of j s')"
  by (auto simp: ap_create_def Let_def add_approval_eq status_of_put legal_def
      split: option.splits if_splits)

lemma mark_status: "status_of j (mark_execution_result i st res s) = status_of j s"
  by (auto simp: mark_execution_result_def split: option.splits)

section \<open>Sequences of operations\<close>

text \<open>
  One call of the service by one session. The flag tells whether the session commits afterwards;
  without it the rows are as before and the caller has not been told anything.
\<close>

datatype ap_op =
    ApCreate uuid time string string string pyval string string string int
  | ApDecide time string string "string option"
  | ApConsume string
  | ApRecord time string string
  | ApMark string string "pydict option"

definition consumed_id :: "string \<Rightarrow> uuid list" where
  "consumed_id i = (case uuid_of_string i of None \<Rightarrow> [] | Some u \<Rightarrow> [u])"

fun ap_exec :: "(string \<Rightarrow> string) \<Rightarrow> ap_op \<Rightarrow> db \<Rightarrow> (svc_error option \<times> uuid list) \<times> db" where
  "ap_exec h (ApCreate f now k ai t ar c tg im ttl) s =
     (case ap_create h f now k ai t ar c tg im ttl s of
        (Inl e, s') \<Rightarrow> ((Some e, []), s') | (Inr _, s') \<Rightarrow> ((None, []), s'))"
| "ap_exec h (ApDecide now i d u) s =
     (case decide_with_continuation now i d u s of
        (Inl e, s') \<Rightarrow> ((Some e, []), s') | (Inr _, s') \<Rightarrow> ((None, []), s'))"
| "ap_exec h (ApConsume i) s =
     (case ap_consume i s of (b, s') \<Rightarrow> ((None, if b then consumed_id i else []), s'))"
| "ap_exec h (ApRecord now i k) s =
     (case consume_and_record now i k s of
        (Inl e, s') \<Rightarrow> ((Some e, []), s')
      | (Inr (b, _, _), s') \<Rightarrow> ((None, if b then consumed_id i else []), s'))"
| "ap_exec h (ApMark i st r) s = ((None, []), mark_execution_result i st r s)"

definition ap_step :: "(string \<Rightarrow> string) \<Rightarrow> ap_op \<times> bool \<Rightarrow> db \<Rightarrow> db" where
  "ap_step h op s = (if snd op then snd (ap_exec h (fst op) s) else s)"

definition ap_out :: "(string \<Rightarrow> string) \<Rightarrow> ap_op \<times> bool \<Rightarrow> db \<Rightarrow> uuid list" where
  "ap_out h op s = (if snd op then snd (fst (ap_exec h (fst op) s)) else [])"

fun ap_consumptions :: "(string \<Rightarrow> string) \<Rightarrow> (ap_op \<times> bool) list \<Rightarrow> db \<Rightarrow> uuid list" where
  "ap_consumptions h [] s = []"
| "ap_consumptions h (op # ops) s = ap_out h op s @ ap_consumptions h ops (ap_step h op s)"

lemma ap_exec_legal: "ap_legal (status_of j s) (status_of j (snd (ap_exec h op s)))"
  by (cases op)
    (auto simp: mark_status split: prod.splits sum.splits
      intro: create_legal decide_with_continuation_legal consume_legal record_legal)

interpretation approvals: lifecycle "ap_step h" status_of "\<lambda>st. st = A_PENDING" approval_next for h
  by unfold_locales (simp add: ap_step_def ap_exec_legal)

text \<open>A reported consumption found the approval APPROVED and left it CONSUMED.\<close>

lemma consume_consumes:
  "ap_consume i s = (True, s') \<Longrightarrow>
   \<exists>u. consumed_id i = [u] \<and> status_of u s = Some A_APPROVED \<and> status_of u s' = Some A_CONSUMED"
  by (auto simp: ap_consume_def consumed_id_def status_of_upd split: option.splits if_splits)
    (simp_all add: status_of_def)

lemma record_consumes:
  "consume_and_record now i k s = (Inr (True, a, x), s') \<Longrightarrow>
   \<exists>u. consumed_id i = [u] \<and> status_of u s = Some A_APPROVED \<and> status_of u s' = Some A_CONSUMED"
  by (auto simp: consume_and_record_def consumed_id_def status_of_upd add_execution_eq Let_def
      split: option.splits if_splits)
    (simp_all add: status_of_def)

lemma out_consumes:
  "ap_out h op s = [] \<or>
   (\<exists>u. ap_out h op s = [u] \<and> status_of u s = Some A_APPROVED \<and>
        status_of u (ap_step h op s) = Some A_CONSUMED)"
proof (cases "fst op")
  case (ApConsume i)
  then show ?thesis
    using consume_consumes [of i s] by (auto simp: ap_out_def ap_step_def split: prod.splits)
next
  case (ApRecord now i k)
  then show ?thesis
    using record_consumes [of now i k s]
    by (auto simp: ap_out_def ap_step_def split: prod.splits sum.splits)
qed (auto simp: ap_out_def split: prod.splits sum.splits)

lemma consumed_not_again:
  "status_of u s = Some A_CONSUMED \<Longrightarrow> u \<notin> set (ap_consumptions h ops s)"
proof (induction ops arbitrary: s)
  case Nil
  then show ?case by simp
next
  case (Cons op ops)
  have "status_of u (ap_step h op s) = Some A_CONSUMED"
    using approvals.final_stays [of u s A_CONSUMED h "[op]"] Cons.prems by auto
  with Cons out_consumes [of h op s] show ?case by auto
qed

text \<open>
  C8: an approval authorises at most one action. Whatever sessions call the approval service, in
  whatever order, with whatever arguments and whichever of them commit, no approval is reported
  consumed twice.
\<close>

theorem approval_used_once: "distinct (ap_consumptions sha ops s)"
proof (induction ops arbitrary: s)
  case Nil
  then show ?case by simp
next
  case (Cons op ops)
  then show ?case using out_consumes [of sha op s] consumed_not_again by force
qed

text \<open>Only an \<open>approve\<close> decision makes an approval APPROVED.\<close>

definition approves :: "uuid \<Rightarrow> ap_op \<times> bool \<Rightarrow> bool" where
  "approves u op \<longleftrightarrow>
     (case op of (ApDecide now i d w, c) \<Rightarrow> c \<and> d = ''approve'' \<and> uuid_of_string i = Some u | _ \<Rightarrow> False)"

lemma decide_approves:
  "ap_decide now i d w s = (r, s') \<Longrightarrow> status_of u s' = Some A_APPROVED \<Longrightarrow>
   status_of u s = Some A_APPROVED \<or> d = ''approve'' \<and> uuid_of_string i = Some u"
  by (auto simp: ap_decide_def status_of_upd decided_status_def split: option.splits if_splits)

lemma only_approve_approves:
  assumes "status_of u (ap_step h op s) = Some A_APPROVED" and "\<not> approves u op"
  shows "status_of u s = Some A_APPROVED"
proof (cases "fst op")
  case (ApDecide now i d w)
  then show ?thesis
    using assms decide_approves [of now i d w s _ _ u]
    by (cases op) (auto simp: ap_step_def approves_def decide_with_continuation_def continue_status
        split: if_splits prod.splits sum.splits dest: continue_status [of _ _ _ _ _ _ u])
next
  case (ApCreate f now k ai t ar c tg im ttl)
  then show ?thesis
    using assms by (cases op)
      (auto simp: ap_step_def ap_create_def Let_def add_approval_eq status_of_put
        split: if_splits prod.splits sum.splits option.splits)
next
  case (ApConsume i)
  then show ?thesis
    using assms by (cases op)
      (auto simp: ap_step_def ap_consume_def status_of_upd split: if_splits prod.splits option.splits)
next
  case (ApRecord now i k)
  then show ?thesis
    using assms by (cases op)
      (auto simp: ap_step_def consume_and_record_def status_of_upd add_execution_eq Let_def
        split: if_splits prod.splits sum.splits option.splits)
next
  case (ApMark i st r)
  then show ?thesis using assms by (cases op) (auto simp: ap_step_def mark_status split: if_splits)
qed

text \<open>
  C11: no consumption without a decision. An approval that is reported consumed somewhere in a
  sequence of calls, and was not already approved when the sequence began, was the object of a
  committed \<open>approve\<close> decision in that sequence.
\<close>

theorem consumption_needs_approve:
  assumes "status_of u s \<noteq> Some A_APPROVED"
    and "u \<in> set (ap_consumptions sha ops s)"
  shows "list_ex (approves u) ops"
  using assms
proof (induction ops arbitrary: s)
  case Nil
  then show ?case by simp
next
  case (Cons op ops)
  show ?case
  proof (cases "approves u op")
    case True
    then show ?thesis by simp
  next
    case False
    then have "status_of u (ap_step sha op s) \<noteq> Some A_APPROVED"
      using only_approve_approves Cons.prems(1) by blast
    then show ?thesis using Cons out_consumes [of sha op s] by auto
  qed
qed

section \<open>The rows the service keeps consistent\<close>

definition approve_key :: "uuid \<Rightarrow> string" where
  "approve_key u = ''approve:'' @ uuid_str u"

lemma approve_key_inject: "u < 2 ^ 128 \<Longrightarrow> v < 2 ^ 128 \<Longrightarrow> approve_key u = approve_key v \<longleftrightarrow> u = v"
  using uuid_roundtrip by (auto simp: approve_key_def) (metis option.inject)

lemma uuid_of_string_bound: "uuid_of_string i = Some u \<Longrightarrow> u < 2 ^ 128"
  by (auto simp: uuid_of_string_def Let_def split: if_splits option.splits)

text \<open>
  An execution row exists only for a CONSUMED approval; the wake-up message of an approval exists
  only once the approval was decided in favour.
\<close>

definition exec_inv :: "db \<Rightarrow> bool" where
  "exec_inv s \<longleftrightarrow> (\<forall>u. get_execution u s \<noteq> None \<longrightarrow> status_of u s = Some A_CONSUMED)"

definition wake_inv :: "db \<Rightarrow> bool" where
  "wake_inv s \<longleftrightarrow>
     (\<forall>u < 2 ^ 128. get_outbox (approve_key u) s \<noteq> None \<longrightarrow>
        status_of u s \<in> {Some A_APPROVED, Some A_CONSUMED})"

lemma executions_decide: "ap_decide now i d w s = (r, s') \<Longrightarrow>
    get_execution u s' = get_execution u s \<and> get_outbox k s' = get_outbox k s"
  by (auto simp: ap_decide_def split: option.splits if_splits)

lemma executions_continue: "ap_continue now d a s = (r, s') \<Longrightarrow> get_execution u s' = get_execution u s"
  by (auto simp: ap_continue_def add_outbox_eq Let_def split: option.splits if_splits)

lemma executions_consume: "ap_consume i s = (r, s') \<Longrightarrow>
    get_execution u s' = get_execution u s \<and> get_outbox k s' = get_outbox k s"
  by (auto simp: ap_consume_def split: option.splits if_splits)

lemma executions_create: "ap_create h f now k ai t ar c tg im ttl s = (r, s') \<Longrightarrow>
    get_execution u s' = get_execution u s \<and> get_outbox m s' = get_outbox m s"
  by (auto simp: ap_create_def Let_def add_approval_eq split: option.splits if_splits)

lemma executions_mark:
  "get_execution u (mark_execution_result i st res s) = None \<longleftrightarrow> get_execution u s = None"
  "get_outbox k (mark_execution_result i st res s) = get_outbox k s"
  by (auto simp: mark_execution_result_def execution_store.get_upd split: option.splits)

lemma executions_record:
  assumes "consume_and_record now i k s = (r, s')" and "get_execution u s' \<noteq> None"
  shows "get_execution u s \<noteq> None \<or> status_of u s' = Some A_CONSUMED"
  using assms
  by (auto simp: consume_and_record_def add_execution_eq Let_def get_put_execution new_execution_def
      status_of_upd split: option.splits if_splits)

lemma outbox_record: "consume_and_record now i k s = (r, s') \<Longrightarrow> get_outbox m s' = get_outbox m s"
  by (auto simp: consume_and_record_def add_execution_eq Let_def split: option.splits if_splits)

lemma outbox_continue:
  assumes "ap_continue now d a s = (r, s')" and "get_outbox m s' \<noteq> None"
  shows "get_outbox m s \<noteq> None \<or> d = ''approve'' \<and> m = approve_key (a_id a)"
  using assms
  by (auto simp: ap_continue_def add_outbox_eq Let_def get_put_outbox new_outbox_def approve_key_def
      split: option.splits if_splits)

lemma decide_Inr:
  "ap_decide now i d w s = (Inr a, s') \<Longrightarrow>
   \<exists>u. uuid_of_string i = Some u \<and> a_id a = u \<and> status_of u s = Some A_PENDING \<and>
       status_of u s' = Some (decided_status d)"
  by (auto simp: ap_decide_def status_of_upd approval_store.get_key split: option.splits if_splits)
    (simp_all add: status_of_def)

lemma legal_consumed:
  "ap_legal (Some A_CONSUMED) b \<Longrightarrow> b = Some A_CONSUMED"
  by (auto simp: legal_def split: option.splits)

lemma legal_decided:
  "ap_legal a b \<Longrightarrow> a = Some A_APPROVED \<or> a = Some A_CONSUMED \<Longrightarrow>
   b = Some A_APPROVED \<or> b = Some A_CONSUMED"
  by (auto simp: legal_def split: option.splits)

lemma new_execution_consumed:
  assumes "get_execution u (snd (ap_exec h op s)) \<noteq> None"
  shows "get_execution u s \<noteq> None \<or> status_of u (snd (ap_exec h op s)) = Some A_CONSUMED"
  using assms
  by (cases op)
    (auto simp: executions_mark decide_with_continuation_def dest!: executions_record
      dest!: executions_create [where u = u] executions_continue [where u = u]
        executions_decide [where u = u] executions_consume [where u = u]
      split: prod.splits sum.splits)

lemma exec_inv_step: "exec_inv s \<Longrightarrow> exec_inv (ap_step h op s)"
  using new_execution_consumed [of _ h "fst op" s] ap_exec_legal [of _ s h "fst op"] legal_consumed
  unfolding exec_inv_def ap_step_def by (smt (verit))

lemma new_wake_decided:
  assumes "u < 2 ^ 128" and "get_outbox (approve_key u) (snd (ap_exec h op s)) \<noteq> None"
  shows "get_outbox (approve_key u) s \<noteq> None \<or> status_of u (snd (ap_exec h op s)) = Some A_APPROVED"
proof (cases op)
  case (ApDecide now i d w)
  obtain r s1 where r: "ap_decide now i d w s = (r, s1)" by fastforce
  have k: "get_outbox m s1 = get_outbox m s" for m using executions_decide [OF r] by blast
  show ?thesis
  proof (cases r)
    case (Inl e)
    with assms(2) ApDecide r k show ?thesis by (auto simp: decide_with_continuation_def)
  next
    case (Inr a)
    obtain v where v: "uuid_of_string i = Some v" "a_id a = v" "status_of v s1 = Some (decided_status d)"
      using decide_Inr [of now i d w s a s1] r Inr by blast
    obtain r2 s2 where c: "ap_continue now d a s1 = (r2, s2)" by fastforce
    have s2: "snd (ap_exec h op s) = s2"
      using ApDecide r Inr c by (simp add: decide_with_continuation_def split: sum.splits)
    have "status_of v s2 = Some (decided_status d)"
      using continue_status [OF c, of v] v(3) by simp
    moreover have "get_outbox (approve_key u) s \<noteq> None \<or> d = ''approve'' \<and> u = v"
      using outbox_continue [OF c, of "approve_key u"] assms s2 k v(2)
        approve_key_inject [OF assms(1) uuid_of_string_bound [OF v(1)]] by auto
    ultimately show ?thesis using s2 by (auto simp: decided_status_def)
  qed
qed (use assms(2) in \<open>auto simp: executions_mark outbox_record
      dest!: executions_create [where m = "approve_key u"] executions_consume [where k = "approve_key u"]
        outbox_record [where m = "approve_key u"] split: prod.splits sum.splits\<close>)

lemma wake_inv_step: "wake_inv s \<Longrightarrow> wake_inv (ap_step h op s)"
  using new_wake_decided [of _ h "fst op" s] ap_exec_legal [of _ s h "fst op"] legal_decided
  unfolding wake_inv_def ap_step_def by (smt (verit) insert_iff singletonD)

lemma invs_steps: "exec_inv s \<Longrightarrow> wake_inv s \<Longrightarrow>
    exec_inv (fold (ap_step h) ops s) \<and> wake_inv (fold (ap_step h) ops s)"
  by (induction ops arbitrary: s) (auto simp: exec_inv_step wake_inv_step)

lemma status_of_Some: "status_of u s = Some st \<longleftrightarrow> (\<exists>a. get_approval u s = Some a \<and> a_status a = st)"
  by (auto simp: status_of_def)

lemma record_no_integrity: "exec_inv s \<Longrightarrow> consume_and_record now i k s \<noteq> (Inl IntegrityError, s')"
  by (auto simp: consume_and_record_def add_execution_eq Let_def exec_inv_def new_execution_def
      status_of_Some split: option.splits if_splits)

lemma decide_no_integrity:
  assumes "wake_inv s" and r: "ap_decide now i d w s = (Inr a, s1)"
  shows "ap_continue now d a s1 \<noteq> (Inl IntegrityError, s')"
proof -
  obtain u where u: "uuid_of_string i = Some u" "a_id a = u" "status_of u s = Some A_PENDING"
    using decide_Inr [OF r] by blast
  have "get_outbox (approve_key u) s = None"
    using assms(1) u uuid_of_string_bound [OF u(1)] by (auto simp: wake_inv_def)
  then have "get_outbox (approve_key u) s1 = None"
    using executions_decide [OF r] by simp
  then show ?thesis
    using u(2) by (auto simp: ap_continue_def add_outbox_eq Let_def new_outbox_def approve_key_def
        split: option.splits if_splits)
qed

lemma decide_errors: "ap_decide now i d w s \<noteq> (Inl IntegrityError, s')"
  by (auto simp: ap_decide_def split: option.splits if_splits)

definition is_create :: "ap_op \<Rightarrow> bool" where
  "is_create op \<longleftrightarrow> (case op of ApCreate _ _ _ _ _ _ _ _ _ _ \<Rightarrow> True | _ \<Rightarrow> False)"


section \<open>One decision\<close>

text \<open>
  \<open>decide\<close> accepts exactly a pending approval that has not expired, a decision that is
  \<open>approve\<close> or \<open>reject\<close> and a user id that is empty or a UUID; any error other than the two it
  raises after a change (expiry, which marks the approval EXPIRED, and a malformed user id) leaves
  every row as it was.
\<close>

theorem decide_outcome:
  "case ap_decide now i d w s of
     (Inr a, s') \<Rightarrow>
       (\<exists>u b. uuid_of_string i = Some u \<and> get_approval u s = Some b \<and> a_status b = A_PENDING \<and>
          \<not> expired now (a_expires b) \<and> (d = ''approve'' \<or> d = ''reject'') \<and>
          resolve_user w \<noteq> None \<and> get_approval u s' = Some a \<and>
          a = b\<lparr>a_status := if d = ''approve'' then A_APPROVED else A_REJECTED,
                a_decision := Some d, a_decided_by := the (resolve_user w)\<rparr>)
   | (Inl ApprovalExpired, s') \<Rightarrow>
       (\<exists>u. uuid_of_string i = Some u \<and> status_of u s = Some A_PENDING \<and> status_of u s' = Some A_EXPIRED)
   | (Inl BadUserId, s') \<Rightarrow> resolve_user w = None
   | (Inl _, s') \<Rightarrow> s' = s"
  by (auto simp: ap_decide_def status_of_upd approval_store.get_upd set_decision_def
      decided_status_def status_of_Some split: option.splits if_splits)

text \<open>
  Approval and continuation are one transaction. A successful \<open>approve\<close> on an approval whose run
  waits for it leaves the run QUEUED without a control request and an unprocessed wake-up message
  for that run, due at once, in the outbox; a successful \<open>reject\<close> leaves the waiting run FAILED.
\<close>

theorem decide_continues_run:
  assumes "decide_with_continuation now i d w s = (Inr a, s')"
    and "a_run a = Some rid" and "get_run rid s = Some r" and "r_status r = WAITING_APPROVAL"
  shows "if d = ''approve''
    then (\<exists>r'. get_run rid s' = Some r' \<and> r_status r' = QUEUED \<and> r_control r' = None) \<and>
      (\<exists>m. get_outbox (approve_key (a_id a)) s' = Some m \<and> o_topic m = ''lumi.run_queued'' \<and>
         o_payload m = [(''run_id'', PStr (uuid_str rid)), (''approval_id'', PStr (uuid_str (a_id a)))] \<and>
         \<not> o_processed m \<and> o_attempts m = 0 \<and> o_not_before m = None)
    else (\<exists>r'. get_run rid s' = Some r' \<and> r_status r' = FAILED \<and> r_error r' = Some ''approval_rejected'')"
proof -
  obtain b s1 where b: "ap_decide now i d w s = (Inr b, s1)" and c: "ap_continue now d b s1 = (Inr a, s')"
    using assms(1) by (auto simp: decide_with_continuation_def split: prod.splits sum.splits)
  have "get_run rid s1 = get_run rid s"
    using b by (auto simp: ap_decide_def split: option.splits if_splits)
  moreover have "a = b"
    using c by (auto simp: ap_continue_def Let_def split: option.splits if_splits)
  ultimately show ?thesis
    using c assms(2,3,4)
    by (auto simp: ap_continue_def add_outbox_eq Let_def get_put_outbox get_upd_run new_outbox_def
        approve_key_def split: option.splits if_splits)
qed

section \<open>Witnesses\<close>

definition sample_approval :: approval where
  "sample_approval =
     \<lparr>a_id = 7, a_class = ''PUBLIC_WRITE'', a_hash = ''h'', a_target = ''r'', a_impact = [],
      a_payload = [(''action_id'', PStr ''a1''), (''tool'', PStr ''technocore.say'')],
      a_status = A_PENDING, a_decided_by = None, a_decision = None,
      a_expires = Some (Naive 100), a_run = Some 5, a_created = 0\<rparr>"

definition sample_db :: db where
  "sample_db = put_approval sample_approval
     (put_run ((new_run 5 1 100 1 0)\<lparr>r_status := WAITING_APPROVAL\<rparr>) empty_db)"

lemma sample_get:
  "get_approval u sample_db = (if u = 7 then Some sample_approval else None)"
  "get_run k sample_db = (if k = 5 then Some ((new_run 5 1 100 1 0)\<lparr>r_status := WAITING_APPROVAL\<rparr>) else None)"
  "get_execution u sample_db = None" "get_outbox m sample_db = None"
  by (auto simp: sample_db_def table_simps get_defs put_defs empty_db_def tget_def sample_approval_def
      new_run_def)

lemma sample_uuid [simp]: "uuid_of_string (uuid_str 7) = Some 7" "uuid_of_string (uuid_str 5) = Some 5"
  by (simp_all add: uuid_roundtrip)

theorem consumption_needs_approve_witness:
  "list_ex (approves 7)
     [(ApDecide 50 (uuid_str 7) ''approve'' None, True), (ApRecord 60 (uuid_str 7) (uuid_str 5), True)]"
proof (rule consumption_needs_approve [where s = sample_db and sha = "\<lambda>x. x"])
  show "status_of 7 sample_db \<noteq> Some A_APPROVED"
    by (simp add: status_of_def sample_get sample_approval_def)
  show "7 \<in> set (ap_consumptions (\<lambda>x. x)
     [(ApDecide 50 (uuid_str 7) ''approve'' None, True), (ApRecord 60 (uuid_str 7) (uuid_str 5), True)] sample_db)"
    by (simp add: ap_out_def ap_step_def service_defs sample_get sample_approval_def resolve_user_def
        expired_def add_outbox_eq add_execution_eq table_simps new_run_def new_outbox_def
        set_decision_def decided_status_def Let_def new_execution_def consumed_id_def)
qed

lemma sample_invs: "exec_inv sample_db" "wake_inv sample_db"
  by (simp_all add: exec_inv_def wake_inv_def sample_get)


theorem decide_continues_run_witness:
  "\<exists>s'. decide_with_continuation 50 (uuid_str 7) ''approve'' None sample_db
       = (Inr (sample_approval\<lparr>a_status := A_APPROVED, a_decision := Some ''approve''\<rparr>), s') \<and>
     (\<exists>r'. get_run 5 s' = Some r' \<and> r_status r' = QUEUED)"
proof -
  obtain s' where s': "decide_with_continuation 50 (uuid_str 7) ''approve'' None sample_db
       = (Inr (sample_approval\<lparr>a_status := A_APPROVED, a_decision := Some ''approve''\<rparr>), s')"
    by (simp add: service_defs sample_get sample_approval_def resolve_user_def expired_def
        add_outbox_eq table_simps new_run_def new_outbox_def set_decision_def decided_status_def Let_def)
  show ?thesis
    using decide_continues_run [OF s', of 5] s' unfolding ex_simps
    by (auto simp: sample_get sample_approval_def)
qed

end
