(* ===== verification/Verifier.thy ===== *)
theory Verifier
  imports Models
begin

text \<open>
  The verifier and the reporter: \<open>packages/agent_core/verifier.py\<close> and
  \<open>packages/agent_core/reporter.py\<close>. A check is a function from the run result to an exception
  (its name) or a verdict with its data.
\<close>

type_synonym check = "pydict \<Rightarrow> string + bool \<times> pydict"

record verification_result =
  vr_passed :: bool
  vr_evidence :: "pydict list"

text \<open>
  \<open>any(f(x) for x in ev)\<close> over items that must be dictionaries: it stops at the first hit, and an
  item without a \<open>get\<close> method before that raises.
\<close>

fun any_item :: "(pydict \<Rightarrow> bool) \<Rightarrow> pyval list \<Rightarrow> string + bool" where
  "any_item f [] = Inr False"
| "any_item f (PDict d # xs) = (if f d then Inr True else any_item f xs)"
| "any_item f (_ # xs) = Inl ''AttributeError''"

definition item_ok :: "pydict \<Rightarrow> bool" where
  "item_ok d \<longleftrightarrow> truthy (dget d ''ok'' PNone)"

definition item_err :: "pydict \<Rightarrow> bool" where
  "item_err d \<longleftrightarrow> \<not> truthy (dget d ''ok'' (PBool True))"

text \<open>\<open>r.get("evidence") or []\<close>.\<close>

definition evidence_of :: "pydict \<Rightarrow> pyval" where
  "evidence_of r = py_or (dget r ''evidence'' PNone) (PList [])"

text \<open>Iterating over a truthy value that is not a list of dictionaries raises.\<close>

definition evidence_check :: check where
  "evidence_check r =
     (let ev = evidence_of r in
      if \<not> truthy ev then Inr (False, [(''has_evidence'', PBool False)])
      else (case ev of
              PList xs \<Rightarrow>
                (case any_item item_ok xs of
                   Inl e \<Rightarrow> Inl e
                 | Inr has_ok \<Rightarrow>
                     (case any_item item_err xs of
                        Inl e \<Rightarrow> Inl e
                      | Inr has_err \<Rightarrow>
                          Inr (has_ok \<and> \<not> has_err,
                               [(''has_evidence'', PBool True), (''has_ok'', PBool has_ok),
                                (''has_err'', PBool has_err), (''n'', PInt (int (length xs)))])))
            | PStr _ \<Rightarrow> Inl ''AttributeError''
            | PDict _ \<Rightarrow> Inl ''AttributeError''
            | _ \<Rightarrow> Inl ''TypeError''))"

definition run_check :: "pydict \<Rightarrow> string \<times> check \<Rightarrow> bool \<times> pydict" where
  "run_check r c =
     (case snd c r of
        Inl e \<Rightarrow> (False, [(''error'', PStr e)])
      | Inr v \<Rightarrow> v)"

text \<open>\<open>Verifier.verify\<close>; an exception escapes only from the branch without checks.\<close>

definition verify :: "(string \<times> check) list \<Rightarrow> pydict \<Rightarrow> string + verification_result" where
  "verify checks r =
     (let verdicts = map (\<lambda>c. (fst c, run_check r c)) checks;
          evidence = map (\<lambda>(name, ok, meta).
             [(''check'', PStr name), (''passed'', PBool ok), (''meta'', PDict meta)]) verdicts
      in if checks \<noteq> [] then
           Inr \<lparr>vr_passed = list_all (\<lambda>(name, ok, meta). ok) verdicts, vr_evidence = evidence\<rparr>
         else
           (let ev = evidence_of r;
                result = (\<lambda>passed n. Inr \<lparr>vr_passed = passed,
                  vr_evidence = [[(''check'', PStr ''default_evidence''), (''passed'', PBool passed),
                                  (''meta'', PDict [(''n'', PInt n)])]]\<rparr>)
            in case ev of
                 PList xs \<Rightarrow>
                   (case any_item item_ok xs of
                      Inl e \<Rightarrow> Inl e
                    | Inr has_ok \<Rightarrow>
                        (case any_item item_err xs of
                           Inl e \<Rightarrow> Inl e
                         | Inr has_err \<Rightarrow> result (xs \<noteq> [] \<and> has_ok \<and> \<not> has_err) (int (length xs))))
               | _ \<Rightarrow> result False 0))"

definition default_checks :: "(string \<times> check) list" where
  "default_checks = [(''hedef_kanit_var_mi'', evidence_check)]"

section \<open>Reports\<close>

text \<open>
  Icons and accented letters of the summary are beyond the modelled character range; a summary is
  given by what it depends on.
\<close>

datatype summary =
    S_Completed string | S_Failed string | S_Waiting | S_Paused | S_Cancelled | S_Other string

definition human_summary :: "string \<Rightarrow> string \<Rightarrow> string option \<Rightarrow> summary" where
  "human_summary status rid err =
     (if status = ''COMPLETED'' then S_Completed (take 8 rid)
      else if status = ''FAILED'' then S_Failed (case err of None \<Rightarrow> ''hata'' | Some e \<Rightarrow> e)
      else if status = ''WAITING_APPROVAL'' then S_Waiting
      else if status = ''PAUSED'' then S_Paused
      else if status = ''CANCELLED'' then S_Cancelled
      else S_Other status)"

definition machine_result ::
  "string \<Rightarrow> string \<Rightarrow> string \<Rightarrow> pyval list \<Rightarrow> rat \<Rightarrow> pyval list \<Rightarrow> pyval \<Rightarrow> string \<Rightarrow> pydict" where
  "machine_result run_id status claim evidence confidence reports err now_iso =
     [(''run_id'', PStr run_id), (''status'', PStr status), (''claim'', PStr claim),
      (''evidence'', PList evidence), (''confidence'', PFloat confidence),
      (''reports'', PList reports), (''error'', err), (''generated_at'', PStr now_iso)]"

definition build_public_report ::
  "string \<Rightarrow> string \<Rightarrow> string \<Rightarrow> string \<Rightarrow> string \<Rightarrow> rat \<Rightarrow> int \<Rightarrow> pydict" where
  "build_public_report report_type observed_at subject change evidence confidence version =
     [(''type'', PStr report_type), (''observed_at'', PStr observed_at), (''subject'', PStr subject),
      (''change'', PStr change), (''evidence'', PStr evidence), (''confidence'', PFloat confidence),
      (''schema_version'', PInt version)]"

section \<open>What a passed verification means\<close>

lemma any_item_dicts:
  "any_item f (map PDict ds) = Inr (list_ex f ds)"
  by (induction ds) auto

definition default_passes :: "pydict list \<Rightarrow> bool" where
  "default_passes ds \<longleftrightarrow> list_ex item_ok ds \<and> \<not> list_ex item_err ds"

lemma evidence_of_list: "evidence_of [(''evidence'', PList xs)] = PList xs"
  by (simp add: evidence_of_def py_or_def dget_def)

lemma evidence_check_list:
  "\<exists>meta. evidence_check [(''evidence'', PList (map PDict ds))] = Inr (default_passes ds, meta)"
proof (cases "ds = []")
  case True
  then show ?thesis by (simp add: evidence_check_def evidence_of_list default_passes_def)
next
  case False
  then show ?thesis
    using any_item_dicts [of item_ok ds] any_item_dicts [of item_err ds]
    by (auto simp: evidence_check_def evidence_of_list default_passes_def Let_def)
qed

lemma default_verify:
  "\<exists>r. verify default_checks [(''evidence'', PList (map PDict ds))] = Inr r \<and> vr_passed r = default_passes ds"
  using evidence_check_list [of ds] by (auto simp: verify_def default_checks_def run_check_def Let_def)

lemma fallback_verify:
  "\<exists>r. verify [] [(''evidence'', PList (map PDict ds))] = Inr r \<and> vr_passed r = default_passes ds"
  using any_item_dicts [of item_ok ds] any_item_dicts [of item_err ds]
  by (auto simp: verify_def evidence_of_list default_passes_def Let_def)

text \<open>
  The default verifier and the fallback for a verifier without checks agree on every list of
  dictionaries: both return a result, which is passed exactly when some item reports success and no
  item reports a failure.
\<close>

theorem default_verifier_passes:
  "\<exists>r f. verify default_checks [(''evidence'', PList (map PDict ds))] = Inr r \<and>
     verify [] [(''evidence'', PList (map PDict ds))] = Inr f \<and> vr_passed r = vr_passed f \<and>
     vr_passed r =
       (list_ex (\<lambda>d. truthy (dget d ''ok'' PNone)) ds \<and> list_all (\<lambda>d. truthy (dget d ''ok'' (PBool True))) ds)"
proof -
  have "default_passes ds = (list_ex (\<lambda>d. truthy (dget d ''ok'' PNone)) ds \<and>
      list_all (\<lambda>d. truthy (dget d ''ok'' (PBool True))) ds)"
    by (auto simp: default_passes_def item_ok_def item_err_def list_ex_iff list_all_iff)
  then show ?thesis using default_verify [of ds] fallback_verify [of ds] by auto
qed

end
