(* ===== verification/Coordinator.thy ===== *)
theory Coordinator
  imports Policy Verifier
begin

text \<open>
  The run coordinator: \<open>packages/agent_core/coordinator.py\<close>. The state of a \<open>RunCoordinator\<close> is a
  record, an action of the plan is one step, and what the asynchronous calls answer is an
  environment: the pause and stop checks, the clock, the executor and the event sink, each indexed
  by the position of the action or the number of the sink call. A result \<open>Inl c\<close> is an exception
  that escapes \<open>run\<close> in state \<open>c\<close>. Clock readings are in microseconds.
\<close>

section \<open>Budget, circuit breaker, state\<close>

record budget =
  max_iterations :: int
  max_tool_calls :: int
  max_wall_seconds :: int
  max_tokens :: int
  max_cost :: rat

record breaker =
  cb_threshold :: nat
  cb_cooldown :: time
  cb_failures :: "(string \<times> time list) list"

definition new_breaker :: breaker where
  "new_breaker = \<lparr>cb_threshold = 5, cb_cooldown = seconds 30, cb_failures = []\<rparr>"

definition record_failure :: "time \<Rightarrow> string \<Rightarrow> breaker \<Rightarrow> bool \<times> breaker" where
  "record_failure now key b =
     (let old = (case map_of (cb_failures b) key of None \<Rightarrow> [] | Some l \<Rightarrow> l);
          l = filter (\<lambda>t. now - t < cb_cooldown b) old @ [now]
      in (cb_threshold b \<le> length l, b\<lparr>cb_failures := dset key l (cb_failures b)\<rparr>))"

definition breaker_reset :: "string \<Rightarrow> breaker \<Rightarrow> breaker" where
  "breaker_reset key b = b\<lparr>cb_failures := filter (\<lambda>kv. fst kv \<noteq> key) (cb_failures b)\<rparr>"

text \<open>
  \<open>co_invoked\<close> and \<open>co_sunk\<close> are ghosts: the tool calls handed to the executor and the calls of the
  event sink, in order. \<open>co_context\<close> holds what was added to the context as untrusted data: title and
  content.
\<close>

record coord =
  co_run :: string
  co_status :: run_status
  co_iteration :: int
  co_tool_calls :: int
  co_started :: "time option"
  co_tokens :: int
  co_cost :: rat
  co_kill :: bool
  co_pause :: bool
  co_breaker :: breaker
  co_events :: "(string \<times> pydict \<times> int) list"
  co_sunk :: "(string \<times> pydict) list"
  co_executed :: "pydict list"
  co_error :: bool
  co_context :: "(string \<times> pyval) list"
  co_invoked :: "(string \<times> pydict) list"

definition new_coord :: "string \<Rightarrow> coord" where
  "new_coord rid =
     \<lparr>co_run = rid, co_status = QUEUED, co_iteration = 0, co_tool_calls = 0, co_started = None,
      co_tokens = 0, co_cost = 0, co_kill = False, co_pause = False, co_breaker = new_breaker,
      co_events = [], co_sunk = [], co_executed = [], co_error = False, co_context = [],
      co_invoked = []\<rparr>"

definition request_stop :: "coord \<Rightarrow> coord" where "request_stop c = c\<lparr>co_kill := True\<rparr>"
definition request_pause :: "coord \<Rightarrow> coord" where "request_pause c = c\<lparr>co_pause := True\<rparr>"
definition resume :: "coord \<Rightarrow> coord" where "resume c = c\<lparr>co_pause := False\<rparr>"

definition emit :: "string \<Rightarrow> pydict \<Rightarrow> coord \<Rightarrow> coord" where
  "emit etype payload c =
     c\<lparr>co_events := co_events c @ [(etype, payload, int (length (co_events c)))]\<rparr>"

definition wall_exceeded :: "budget \<Rightarrow> time \<Rightarrow> coord \<Rightarrow> bool" where
  "wall_exceeded b now c =
     (case co_started c of None \<Rightarrow> False
      | Some t0 \<Rightarrow> t0 \<noteq> 0 \<and> now - t0 > seconds (max_wall_seconds b))"

definition can_continue :: "budget \<Rightarrow> time \<Rightarrow> coord \<Rightarrow> bool \<times> coord" where
  "can_continue b now c =
     (if co_kill c then (False, c)
      else if co_pause c then (False, emit ''PAUSED'' [] c)
      else if wall_exceeded b now c then (False, emit ''WALL_TIME_EXCEEDED'' [] c)
      else if co_iteration c \<ge> max_iterations b
      then (False, emit ''ITERATION_LIMIT'' [(''limit'', PInt (max_iterations b))] c)
      else if co_tool_calls c \<ge> max_tool_calls b
      then (False, emit ''TOOL_CALL_LIMIT'' [(''limit'', PInt (max_tool_calls b))] c)
      else if co_tokens c > max_tokens b then (False, emit ''TOKEN_BUDGET_EXCEEDED'' [] c)
      else if co_cost c > max_cost b then (False, emit ''COST_BUDGET_EXCEEDED'' [] c)
      else (True, c))"

text \<open>
  \<open>int(x)\<close> and \<open>float(x)\<close> of a value; \<open>None\<close> is an exception. Reading a float from text is the
  parameter \<open>ftext\<close>.
\<close>

fun to_int :: "pyval \<Rightarrow> int option" where
  "to_int (PInt i) = Some i"
| "to_int (PBool b) = Some (if b then 1 else 0)"
| "to_int (PFloat r) = Some (if r < 0 then - \<lfloor>- r\<rfloor> else \<lfloor>r\<rfloor>)"
| "to_int (PStr s) = py_int 10 s"
| "to_int _ = None"

fun to_float :: "(string \<Rightarrow> rat option) \<Rightarrow> pyval \<Rightarrow> rat option" where
  "to_float ftext (PInt i) = Some (of_int i)"
| "to_float ftext (PBool b) = Some (if b then 1 else 0)"
| "to_float ftext (PFloat r) = Some r"
| "to_float ftext (PStr s) = ftext s"
| "to_float ftext _ = None"

text \<open>An exception in the middle keeps what was added before it.\<close>

definition add_usage :: "(string \<Rightarrow> rat option) \<Rightarrow> pydict \<Rightarrow> coord \<Rightarrow> coord" where
  "add_usage ftext usage c =
     (if usage = [] then c
      else (case to_int (py_or (dget usage ''prompt_tokens'' PNone) (PInt 0)) of
              None \<Rightarrow> c
            | Some pt \<Rightarrow>
        (case to_int (py_or (dget usage ''completion_tokens'' PNone) (PInt 0)) of
              None \<Rightarrow> c
            | Some ct \<Rightarrow>
        (case to_int (py_or (dget usage ''total_tokens'' PNone) (PInt (pt + ct))) of
              None \<Rightarrow> c
            | Some tt \<Rightarrow>
                (let c1 = c\<lparr>co_tokens := co_tokens c + tt\<rparr> in
                 case to_float ftext (py_or (dget usage ''cost'' PNone) (PFloat 0)) of
                   None \<Rightarrow> c1
                 | Some r \<Rightarrow> c1\<lparr>co_cost := co_cost c1 + r\<rparr>)))))"

section \<open>Actions and environment\<close>

record plan_action =
  pa_id :: string
  pa_tool :: string
  pa_args :: pydict
  pa_reason :: string
  pa_expected :: "string list"
  pa_class :: string

text \<open>An entry of the action list; what is not a dictionary is skipped.\<close>

datatype plan_entry = Act plan_action | Junk pyval

record run_plan =
  pl_goal :: pyval
  pl_assumptions :: "string list"
  pl_criteria :: "string list"
  pl_actions :: "plan_entry list"
  pl_tools :: "string list"
  pl_usage :: "pydict option"

text \<open>
  \<open>en_sink h\<close> is the exception (name and message), if any, that the sink raises in its last call when
  \<open>h\<close> are its calls so far, the last one included. The checks before the action at position \<open>i\<close> may
  depend on the calls of the sink as well; \<open>en_exec i\<close> is what the executor answers to that action.
\<close>

record env =
  en_start :: time
  en_pause :: "nat \<Rightarrow> (string \<times> pydict) list \<Rightarrow> bool"
  en_stop :: "nat \<Rightarrow> (string \<times> pydict) list \<Rightarrow> bool"
  en_clock :: "nat \<Rightarrow> time"
  en_fail_clock :: "nat \<Rightarrow> time"
  en_exec :: "nat \<Rightarrow> string \<Rightarrow> pydict \<Rightarrow> string \<times> string + pyval"
  en_sink :: "(string \<times> pydict) list \<Rightarrow> (string \<times> string) option"

definition sink :: "env \<Rightarrow> string \<Rightarrow> pydict \<Rightarrow> coord \<Rightarrow> (string \<times> string) option \<times> coord" where
  "sink e etype payload c =
     (let calls = co_sunk c @ [(etype, payload)] in (en_sink e calls, c\<lparr>co_sunk := calls\<rparr>))"

text \<open>\<open>emit\<close> followed by \<open>_sink\<close>: the exception the sink raised, if any, and the state.\<close>

definition tell :: "env \<Rightarrow> string \<Rightarrow> pydict \<Rightarrow> coord \<Rightarrow> (string \<times> string) option \<times> coord" where
  "tell e etype payload c = sink e etype payload (emit etype payload c)"

section \<open>One action\<close>

datatype step = Goes coord | Breaks coord | Escapes coord

primrec state_of :: "step \<Rightarrow> coord" where
  "state_of (Goes c) = c" | "state_of (Breaks c) = c" | "state_of (Escapes c) = c"

text \<open>The \<open>except\<close> clause of an execution.\<close>

definition on_error :: "env \<Rightarrow> nat \<Rightarrow> string \<Rightarrow> pydict \<Rightarrow> string \<times> string \<Rightarrow> coord \<Rightarrow> step" where
  "on_error e i tool args x c =
     (let c1 = emit ''TOOL_ERROR''
                 [(''tool'', PStr tool), (''error'', PStr (fst x)), (''msg'', PStr (take 200 (snd x)))]
                 (c\<lparr>co_error := True\<rparr>)
      in case sink e ''TOOL_ERROR'' [(''tool'', PStr tool), (''error'', PStr (fst x))] c1 of
           (Some _, c2) \<Rightarrow> Escapes c2
         | (None, c2) \<Rightarrow>
             (let c3 = c2\<lparr>co_executed := co_executed c2 @
                           [[(''tool'', PStr tool), (''arguments'', PDict args),
                             (''error'', PStr (fst x)), (''ok'', PBool False)]]\<rparr>;
                  f = record_failure (en_fail_clock e i) tool (co_breaker c3)
              in if fst f
                 then Breaks (emit ''CIRCUIT_OPEN'' [(''tool'', PStr tool)]
                                (c3\<lparr>co_breaker := snd f, co_status := FAILED\<rparr>))
                 else Goes (c3\<lparr>co_breaker := snd f\<rparr>)))"

text \<open>The \<open>try\<close> block: a failing sink after a successful call lands in the same clause.\<close>

definition execute_action :: "env \<Rightarrow> nat \<Rightarrow> plan_action \<Rightarrow> coord \<Rightarrow> step" where
  "execute_action e i a c =
     (let tool = pa_tool a; args = pa_args a;
          c1 = c\<lparr>co_invoked := co_invoked c @ [(tool, args)]\<rparr>
      in case en_exec e i tool args of
           Inl x \<Rightarrow> on_error e i tool args x c1
         | Inr result \<Rightarrow>
             (let c2 = c1\<lparr>co_tool_calls := co_tool_calls c1 + 1,
                          co_executed := co_executed c1 @
                            [[(''action_id'', PStr (pa_id a)), (''tool'', PStr tool),
                              (''arguments'', PDict args), (''result'', result), (''ok'', PBool True)]]\<rparr>
              in case sink e ''TOOL_CALL''
                        [(''tool'', PStr tool), (''arguments'', PDict args), (''result'', result),
                         (''ok'', PBool True)]
                        (emit ''TOOL_CALL''
                           [(''tool'', PStr tool), (''arguments'', PDict args), (''ok'', PBool True)] c2) of
                   (Some x, c3) \<Rightarrow> on_error e i tool args x c3
                 | (None, c3) \<Rightarrow>
                     Goes (c3\<lparr>co_context := co_context c3 @ [(''tool:'' @ tool, result)],
                              co_breaker := breaker_reset tool (co_breaker c3)\<rparr>)))"

definition approval_request :: "policy_decision \<Rightarrow> plan_action \<Rightarrow> pydict" where
  "approval_request d a =
     [(''tool'', PStr (pa_tool a)), (''arguments'', PDict (pa_args a)), (''action_id'', PStr (pa_id a)),
      (''action_class'', PStr (action_class_value (pd_class d)))]"

definition await_approval :: "env \<Rightarrow> policy_decision \<Rightarrow> plan_action \<Rightarrow> coord \<Rightarrow> step" where
  "await_approval e d a c =
     (case tell e ''AWAITING_APPROVAL'' (approval_request d a) (c\<lparr>co_status := WAITING_APPROVAL\<rparr>) of
        (Some _, c1) \<Rightarrow> Escapes c1
      | (None, c1) \<Rightarrow> Breaks c1)"

definition gate_action :: "env \<Rightarrow> nat \<Rightarrow> policy_decision \<Rightarrow> plan_action \<Rightarrow> coord \<Rightarrow> step" where
  "gate_action e i d a c =
     (case tell e ''POLICY_CHECK''
             [(''tool'', PStr (pa_tool a)), (''arguments'', PDict (pa_args a)),
              (''decision'', PStr (pd_decision d))]
             (c\<lparr>co_iteration := co_iteration c + 1, co_status := EXECUTING\<rparr>) of
        (Some _, c1) \<Rightarrow> Escapes c1
      | (None, c1) \<Rightarrow>
          if pd_decision d = ''DENY''
          then Breaks (emit ''DENIED'' [(''tool'', PStr (pa_tool a))] (c1\<lparr>co_status := FAILED\<rparr>))
          else if pd_decision d = ''REQUIRE_APPROVAL'' then await_approval e d a c1
          else execute_action e i a c1)"

definition act_step :: "budget \<Rightarrow> (string \<Rightarrow> policy_decision) \<Rightarrow> env \<Rightarrow> nat \<Rightarrow> plan_entry \<Rightarrow> coord \<Rightarrow> step" where
  "act_step b pol e i entry c =
     (case entry of
        Junk _ \<Rightarrow> Goes c
      | Act a \<Rightarrow>
          if en_pause e i (co_sunk c) then Breaks (emit ''PAUSED'' [] (c\<lparr>co_status := PAUSED\<rparr>))
          else if en_stop e i (co_sunk c) then Breaks (emit ''CANCELLED'' [] (c\<lparr>co_status := CANCELLED\<rparr>))
          else (let go = can_continue b (en_clock e i) c in
                if fst go then gate_action e i (pol (pa_tool a)) a (snd go) else Breaks (snd go)))"

section \<open>The run\<close>

fun act_loop ::
  "budget \<Rightarrow> (string \<Rightarrow> policy_decision) \<Rightarrow> env \<Rightarrow> nat \<Rightarrow> plan_entry list \<Rightarrow> coord \<Rightarrow> coord + coord" where
  "act_loop b pol e i [] c = Inr c"
| "act_loop b pol e i (a # as) c =
     (case act_step b pol e i a c of
        Goes c' \<Rightarrow> act_loop b pol e (Suc i) as c'
      | Breaks c' \<Rightarrow> Inr c'
      | Escapes c' \<Rightarrow> Inl c')"

definition verify_run :: "(pydict \<Rightarrow> string + verification_result) \<Rightarrow> env \<Rightarrow> coord \<Rightarrow> coord + coord" where
  "verify_run ver e c =
     (let passed = (case ver [(''evidence'', PList (map PDict (co_executed c)))] of
                      Inl _ \<Rightarrow> False | Inr v \<Rightarrow> vr_passed v)
      in case tell e ''VERIFY''
                [(''passed'', PBool passed), (''evidence_n'', PInt (int (length (co_executed c))))]
                (c\<lparr>co_status := VERIFYING\<rparr>) of
           (Some _, c1) \<Rightarrow> Inl c1
         | (None, c1) \<Rightarrow> Inr (c1\<lparr>co_status := if passed then PERSISTING else FAILED\<rparr>))"

definition finalize :: "(pydict \<Rightarrow> string + verification_result) \<Rightarrow> env \<Rightarrow> coord \<Rightarrow> coord + coord" where
  "finalize ver e c =
     (if co_pause c then Inr (c\<lparr>co_status := PAUSED\<rparr>)
      else if co_kill c then Inr (c\<lparr>co_status := CANCELLED\<rparr>)
      else if co_status c \<in> {QUEUED, EXECUTING, PLANNING, CONTEXT_BUILDING, POLICY_CHECK} then
        (if co_error c
         then Inr (emit ''VERIFY'' [(''passed'', PBool False), (''reason'', PStr ''tool_error'')]
                     (c\<lparr>co_status := FAILED\<rparr>))
         else verify_run ver e c)
      else Inr c)"

definition finish :: "env \<Rightarrow> coord \<Rightarrow> coord + coord" where
  "finish e c =
     (let c1 = (if co_status c = PERSISTING then c\<lparr>co_status := COMPLETED\<rparr> else c)
      in case tell e ''END'' [(''final_status'', PStr (run_status_value (co_status c1)))] c1 of
           (Some _, c2) \<Rightarrow> Inl c2 | (None, c2) \<Rightarrow> Inr c2)"

definition plan_entries :: "run_plan \<Rightarrow> plan_entry list" where
  "plan_entries p =
     (if pl_actions p \<noteq> [] then pl_actions p
      else map (\<lambda>(i, t). Act \<lparr>pa_id = ''action_'' @ nat_str (i + 1), pa_tool = t, pa_args = [],
                              pa_reason = [], pa_expected = [], pa_class = ''READ_ONLY''\<rparr>)
             (enumerate 0 (pl_tools p)))"

definition bind_run :: "'c + 'c \<Rightarrow> ('c \<Rightarrow> 'c + 'c) \<Rightarrow> 'c + 'c" where
  "bind_run x f = (case x of Inl c \<Rightarrow> Inl c | Inr c \<Rightarrow> f c)"

definition tell_run :: "env \<Rightarrow> string \<Rightarrow> pydict \<Rightarrow> coord \<Rightarrow> coord + coord" where
  "tell_run e etype payload c =
     (case tell e etype payload c of (Some _, c1) \<Rightarrow> Inl c1 | (None, c1) \<Rightarrow> Inr c1)"

text \<open>
  \<open>run\<close>: the plan comes from the planner and \<open>meta\<close> is the assembler's inspector metadata;
  \<open>plan_val\<close> is the plan as the value put into the PLAN event.
\<close>

definition coord_run ::
  "budget \<Rightarrow> (string \<Rightarrow> policy_decision) \<Rightarrow> (pydict \<Rightarrow> string + verification_result) \<Rightarrow>
   (string \<Rightarrow> rat option) \<Rightarrow> env \<Rightarrow> run_plan \<Rightarrow> pyval \<Rightarrow> pyval \<Rightarrow> coord \<Rightarrow> coord + coord" where
  "coord_run b pol ver ftext e plan plan_val meta c =
     bind_run (tell_run e ''STARTED'' [(''run_id'', PStr (co_run c))]
                 (c\<lparr>co_status := CONTEXT_BUILDING, co_started := Some (en_start e)\<rparr>)) (\<lambda>c.
     bind_run (tell_run e ''PLAN'' [(''plan'', plan_val)] (c\<lparr>co_status := PLANNING\<rparr>)) (\<lambda>c.
     bind_run (tell_run e ''CONTEXT'' [(''segments'', meta)] (add_usage ftext (case pl_usage plan of None \<Rightarrow> [] | Some u \<Rightarrow> u) c)) (\<lambda>c.
     bind_run (act_loop b pol e 0 (plan_entries plan) c) (\<lambda>c.
     bind_run (finalize ver e c) (finish e)))))"

definition result_of :: "coord + coord \<Rightarrow> coord" where
  "result_of x = (case x of Inl c \<Rightarrow> c | Inr c \<Rightarrow> c)"

section \<open>Invariants of the loop\<close>

lemma new_coord_simps [simp]:
  "co_invoked (new_coord rid) = []" "co_events (new_coord rid) = []" "co_executed (new_coord rid) = []"
  "co_iteration (new_coord rid) = 0" "co_tool_calls (new_coord rid) = 0"
  "co_error (new_coord rid) = False" "co_kill (new_coord rid) = False" "co_pause (new_coord rid) = False"
  "co_status (new_coord rid) = QUEUED" "co_sunk (new_coord rid) = []" "co_run (new_coord rid) = rid"
  by (simp_all add: new_coord_def)

lemma emit_simps [simp]:
  "co_run (emit t p c) = co_run c" "co_status (emit t p c) = co_status c"
  "co_iteration (emit t p c) = co_iteration c" "co_tool_calls (emit t p c) = co_tool_calls c"
  "co_kill (emit t p c) = co_kill c" "co_pause (emit t p c) = co_pause c"
  "co_executed (emit t p c) = co_executed c" "co_error (emit t p c) = co_error c"
  "co_invoked (emit t p c) = co_invoked c" "co_sunk (emit t p c) = co_sunk c"
  "co_breaker (emit t p c) = co_breaker c" "co_context (emit t p c) = co_context c"
  "co_events (emit t p c) = co_events c @ [(t, p, int (length (co_events c)))]"
  by (simp_all add: emit_def)

lemma tell_eq:
  "tell e t p c = (en_sink e (co_sunk c @ [(t, p)]), (emit t p c)\<lparr>co_sunk := co_sunk c @ [(t, p)]\<rparr>)"
  by (simp add: tell_def sink_def Let_def)

lemma add_usage_simps [simp]:
  "co_status (add_usage f u c) = co_status c" "co_iteration (add_usage f u c) = co_iteration c"
  "co_tool_calls (add_usage f u c) = co_tool_calls c" "co_kill (add_usage f u c) = co_kill c"
  "co_pause (add_usage f u c) = co_pause c" "co_executed (add_usage f u c) = co_executed c"
  "co_error (add_usage f u c) = co_error c" "co_invoked (add_usage f u c) = co_invoked c"
  "co_events (add_usage f u c) = co_events c"
  by (simp_all add: add_usage_def Let_def split: option.splits)

lemma can_continue_cases:
  "can_continue b now c = (True, c) \<and> \<not> co_kill c \<and> \<not> co_pause c \<and>
     co_iteration c < max_iterations b \<and> co_tool_calls c < max_tool_calls b \<or>
   can_continue b now c = (False, c) \<or>
   (\<exists>t p. t \<noteq> ''AWAITING_APPROVAL'' \<and> can_continue b now c = (False, emit t p c))"
proof -
  define Q where "Q r \<longleftrightarrow> r = (True, c) \<and> \<not> co_kill c \<and> \<not> co_pause c \<and>
     co_iteration c < max_iterations b \<and> co_tool_calls c < max_tool_calls b \<or> r = (False, c) \<or>
     (\<exists>t p. t \<noteq> ''AWAITING_APPROVAL'' \<and> r = (False, emit t p c))" for r
  have Q: "Q (False, c)" "\<And>t p. t \<noteq> ''AWAITING_APPROVAL'' \<Longrightarrow> Q (False, emit t p c)"
    "\<not> co_kill c \<Longrightarrow> \<not> co_pause c \<Longrightarrow> co_iteration c < max_iterations b \<Longrightarrow>
     co_tool_calls c < max_tool_calls b \<Longrightarrow> Q (True, c)"
    by (auto simp: Q_def)
  have "Q (can_continue b now c)"
    unfolding can_continue_def by (simp add: Q)
  then show ?thesis unfolding Q_def .
qed

lemma can_continue_simps [simp]:
  "co_status (snd (can_continue b now c)) = co_status c"
  "co_iteration (snd (can_continue b now c)) = co_iteration c"
  "co_tool_calls (snd (can_continue b now c)) = co_tool_calls c"
  "co_kill (snd (can_continue b now c)) = co_kill c"
  "co_pause (snd (can_continue b now c)) = co_pause c"
  "co_executed (snd (can_continue b now c)) = co_executed c"
  "co_error (snd (can_continue b now c)) = co_error c"
  "co_invoked (snd (can_continue b now c)) = co_invoked c"
  using can_continue_cases [of b now c] by (elim disjE; force)+

lemma can_continue_goes:
  "fst (can_continue b now c) \<Longrightarrow> snd (can_continue b now c) = c \<and> \<not> co_kill c \<and> \<not> co_pause c \<and>
     co_iteration c < max_iterations b \<and> co_tool_calls c < max_tool_calls b"
  using can_continue_cases [of b now c] by auto

lemma can_continue_events:
  "snd (can_continue b now c) = c \<or>
   (\<exists>t p. t \<noteq> ''AWAITING_APPROVAL'' \<and> snd (can_continue b now c) = emit t p c)"
  using can_continue_cases [of b now c] by (metis snd_conv)

text \<open>What holds of every state an action step can lead to holds after the loop.\<close>

lemma act_loop_inv:
  assumes "\<And>i a c. I c \<Longrightarrow> I (state_of (act_step b pol e i a c))" and "I c"
  shows "I (result_of (act_loop b pol e i as c))"
  using assms(2)
proof (induction as arbitrary: i c)
  case Nil
  then show ?case by (simp add: result_of_def)
next
  case (Cons a as)
  have "I (state_of (act_step b pol e i a c))" using assms(1) Cons.prems .
  with Cons.IH show ?case by (cases "act_step b pol e i a c") (auto simp: result_of_def)
qed

text \<open>The whole run keeps what the phases around the loop do not touch.\<close>

lemma coord_run_inv:
  assumes step: "\<And>i a c. I c \<Longrightarrow> I (state_of (act_step b pol e i a c))"
    and emit: "\<And>t p c. t \<noteq> ''AWAITING_APPROVAL'' \<Longrightarrow> I c \<Longrightarrow> I (emit t p c)"
    and tell: "\<And>t p c. t \<noteq> ''AWAITING_APPROVAL'' \<Longrightarrow> I c \<Longrightarrow> I (snd (tell e t p c))"
    and fields: "\<And>st t0 c. I c \<Longrightarrow> I (c\<lparr>co_status := st\<rparr>) \<and> I (c\<lparr>co_started := t0\<rparr>)"
    and usage: "\<And>f u c. I c \<Longrightarrow> I (add_usage f u c)" and start: "I c"
  shows "I (result_of (coord_run b pol ver ftext e plan pv meta c))"
proof -
  have tr: "I (result_of (tell_run e t p c))" if "I c" "t \<noteq> ''AWAITING_APPROVAL''" for t p c
    using tell [OF that(2,1), of p] by (auto simp: tell_run_def result_of_def split: prod.splits option.splits)
  have bind: "I (result_of (bind_run x f))" if "I (result_of x)" "\<And>c. I c \<Longrightarrow> I (result_of (f c))" for x f
  proof (cases x)
    case (Inl c)
    then show ?thesis using that(1) by (simp add: bind_run_def)
  next
    case (Inr c)
    then have "I c" using that(1) by (simp add: result_of_def)
    then show ?thesis using that(2) Inr by (simp add: bind_run_def)
  qed
  have ver: "I (result_of (verify_run ver e c))" if "I c" for c
    using tell [of "''VERIFY''" "c\<lparr>co_status := VERIFYING\<rparr>"] fields that
    by (auto simp: verify_run_def Let_def result_of_def split: prod.splits option.splits sum.splits)
      (metis snd_conv)+
  have fin: "I (result_of (finalize ver e c))" if "I c" for c
    using that fields emit ver by (auto simp: finalize_def result_of_def)
  have fsh: "I (result_of (finish e c))" if "I c" for c
    using tell [of "''END''"] fields that
    by (auto simp: finish_def Let_def result_of_def split: prod.splits option.splits)
      (metis snd_conv)+
  have loop: "I (result_of (act_loop b pol e i as c))" if "I c" for i as c
    using act_loop_inv [of I, OF step that] .
  show ?thesis
    unfolding coord_run_def
    by (intro bind tr fin fsh loop) (use start fields usage in auto)
qed

text \<open>
  The outcomes of the stages, one disjunct per branch. \<open>checked\<close> is the state after the policy
  check was reported, \<open>invoked\<close> the one in which the executor was called, \<open>succeeded\<close> the one
  after the success of the call was reported.
\<close>

definition checked :: "policy_decision \<Rightarrow> plan_action \<Rightarrow> coord \<Rightarrow> coord" where
  "checked d a c =
     (emit ''POLICY_CHECK'' [(''tool'', PStr (pa_tool a)), (''arguments'', PDict (pa_args a)),
              (''decision'', PStr (pd_decision d))]
       (c\<lparr>co_iteration := co_iteration c + 1, co_status := EXECUTING\<rparr>))
       \<lparr>co_sunk := co_sunk c @
          [(''POLICY_CHECK'', [(''tool'', PStr (pa_tool a)), (''arguments'', PDict (pa_args a)),
                               (''decision'', PStr (pd_decision d))])]\<rparr>"

definition invoked :: "plan_action \<Rightarrow> coord \<Rightarrow> coord" where
  "invoked a c = c\<lparr>co_invoked := co_invoked c @ [(pa_tool a, pa_args a)]\<rparr>"

definition succeeded :: "plan_action \<Rightarrow> pyval \<Rightarrow> coord \<Rightarrow> coord" where
  "succeeded a result c =
     (emit ''TOOL_CALL'' [(''tool'', PStr (pa_tool a)), (''arguments'', PDict (pa_args a)), (''ok'', PBool True)]
       (c\<lparr>co_tool_calls := co_tool_calls c + 1,
          co_executed := co_executed c @
            [[(''action_id'', PStr (pa_id a)), (''tool'', PStr (pa_tool a)),
              (''arguments'', PDict (pa_args a)), (''result'', result), (''ok'', PBool True)]]\<rparr>))
       \<lparr>co_sunk := co_sunk c @
          [(''TOOL_CALL'', [(''tool'', PStr (pa_tool a)), (''arguments'', PDict (pa_args a)),
                            (''result'', result), (''ok'', PBool True)])]\<rparr>"

lemma checked_simps [simp]:
  "co_status (checked d a c) = EXECUTING" "co_iteration (checked d a c) = co_iteration c + 1"
  "co_tool_calls (checked d a c) = co_tool_calls c" "co_kill (checked d a c) = co_kill c"
  "co_pause (checked d a c) = co_pause c" "co_executed (checked d a c) = co_executed c"
  "co_error (checked d a c) = co_error c" "co_invoked (checked d a c) = co_invoked c"
  "\<exists>p. co_events (checked d a c) = co_events c @ [(''POLICY_CHECK'', p, int (length (co_events c)))]"
  by (simp_all add: checked_def)

lemma invoked_simps [simp]:
  "co_status (invoked a c) = co_status c" "co_iteration (invoked a c) = co_iteration c"
  "co_tool_calls (invoked a c) = co_tool_calls c" "co_kill (invoked a c) = co_kill c"
  "co_pause (invoked a c) = co_pause c" "co_executed (invoked a c) = co_executed c"
  "co_error (invoked a c) = co_error c" "co_events (invoked a c) = co_events c"
  "co_invoked (invoked a c) = co_invoked c @ [(pa_tool a, pa_args a)]"
  by (simp_all add: invoked_def)

lemma succeeded_simps [simp]:
  "co_status (succeeded a r c) = co_status c" "co_iteration (succeeded a r c) = co_iteration c"
  "co_tool_calls (succeeded a r c) = co_tool_calls c + 1" "co_kill (succeeded a r c) = co_kill c"
  "co_pause (succeeded a r c) = co_pause c" "co_error (succeeded a r c) = co_error c"
  "co_invoked (succeeded a r c) = co_invoked c"
  "\<exists>x. item_ok x \<and> co_executed (succeeded a r c) = co_executed c @ [x]"
  "\<exists>p. co_events (succeeded a r c) = co_events c @ [(''TOOL_CALL'', p, int (length (co_events c)))]"
  by (simp_all add: succeeded_def item_ok_def)

lemma gate_action_cases:
  "gate_action e i d a c = Escapes (checked d a c) \<or>
   pd_decision d = ''DENY'' \<and> gate_action e i d a c =
     Breaks (emit ''DENIED'' [(''tool'', PStr (pa_tool a))] ((checked d a c)\<lparr>co_status := FAILED\<rparr>)) \<or>
   pd_decision d = ''REQUIRE_APPROVAL'' \<and> gate_action e i d a c = await_approval e d a (checked d a c) \<or>
   pd_decision d \<noteq> ''DENY'' \<and> pd_decision d \<noteq> ''REQUIRE_APPROVAL'' \<and>
     gate_action e i d a c = execute_action e i a (checked d a c)"
  by (simp add: gate_action_def tell_eq checked_def split: option.split)

lemma execute_action_cases:
  "(\<exists>x. execute_action e i a c = on_error e i (pa_tool a) (pa_args a) x (invoked a c)) \<or>
   (\<exists>x r. execute_action e i a c = on_error e i (pa_tool a) (pa_args a) x (succeeded a r (invoked a c))) \<or>
   (\<exists>r cx br. execute_action e i a c =
      Goes ((succeeded a r (invoked a c))\<lparr>co_context := cx, co_breaker := br\<rparr>))"
proof (cases "en_exec e i (pa_tool a) (pa_args a)")
  case (Inl x)
  then have "execute_action e i a c = on_error e i (pa_tool a) (pa_args a) x (invoked a c)"
    by (simp add: execute_action_def invoked_def Let_def)
  then show ?thesis by blast
next
  case (Inr r)
  let ?s = "succeeded a r (invoked a c)"
  show ?thesis
  proof (cases "en_sink e (co_sunk ?s)")
    case None
    then have "execute_action e i a c =
        Goes (?s\<lparr>co_context := co_context ?s @ [(''tool:'' @ pa_tool a, r)],
                 co_breaker := breaker_reset (pa_tool a) (co_breaker ?s)\<rparr>)"
      using Inr by (simp add: execute_action_def invoked_def succeeded_def sink_def Let_def)
    then show ?thesis by blast
  next
    case (Some x)
    then have "execute_action e i a c = on_error e i (pa_tool a) (pa_args a) x ?s"
      using Inr by (simp add: execute_action_def invoked_def succeeded_def sink_def Let_def)
    then show ?thesis by blast
  qed
qed

lemma await_approval_state:
  "state_of (await_approval e d a c) =
     snd (tell e ''AWAITING_APPROVAL'' (approval_request d a) (c\<lparr>co_status := WAITING_APPROVAL\<rparr>))"
  by (simp add: await_approval_def split: prod.split option.split)

lemma on_error_simps [simp]:
  "co_iteration (state_of (on_error e i t args x c)) = co_iteration c"
  "co_tool_calls (state_of (on_error e i t args x c)) = co_tool_calls c"
  "co_invoked (state_of (on_error e i t args x c)) = co_invoked c"
  "co_kill (state_of (on_error e i t args x c)) = co_kill c"
  "co_pause (state_of (on_error e i t args x c)) = co_pause c"
  "co_error (state_of (on_error e i t args x c))"
  by (simp_all add: on_error_def sink_def Let_def split: option.split)

text \<open>
  The rule for invariants of an action: the elementary updates of the stages, each from a state
  that satisfies the invariant.
\<close>

lemma act_step_inv:
  assumes I: "I c"
    and stop: "\<And>st p. st \<in> {PAUSED, CANCELLED} \<Longrightarrow> I (emit (run_status_value st) p (c\<lparr>co_status := st\<rparr>))"
    and guard: "I (snd (can_continue b (en_clock e i) c))"
    and check: "\<And>d a. fst (can_continue b (en_clock e i) c) \<Longrightarrow> I (checked d a c)"
    and deny: "\<And>c p. I c \<Longrightarrow> I (emit ''DENIED'' p (c\<lparr>co_status := FAILED\<rparr>))"
    and await: "\<And>a c. I c \<Longrightarrow> pd_decision (pol (pa_tool a)) = ''REQUIRE_APPROVAL'' \<Longrightarrow>
        I (snd (tell e ''AWAITING_APPROVAL'' (approval_request (pol (pa_tool a)) a) (c\<lparr>co_status := WAITING_APPROVAL\<rparr>)))"
    and exec: "\<And>a d. fst (can_continue b (en_clock e i) c) \<Longrightarrow> I (checked d a c) \<Longrightarrow>
        pd_decision (pol (pa_tool a)) \<noteq> ''DENY'' \<Longrightarrow> pd_decision (pol (pa_tool a)) \<noteq> ''REQUIRE_APPROVAL'' \<Longrightarrow>
        I (state_of (execute_action e i a (checked d a c)))"
  shows "I (state_of (act_step b pol e i entry c))"
proof (cases entry)
  case (Act a)
  let ?d = "pol (pa_tool a)"
  have go: "snd (can_continue b (en_clock e i) c) = c" if "fst (can_continue b (en_clock e i) c)"
    using that can_continue_goes by blast
  have gate: "I (state_of (gate_action e i ?d a c))" if g: "fst (can_continue b (en_clock e i) c)"
    using gate_action_cases [of e i ?d a c] check [OF g, of ?d a] deny exec [OF g, of ?d a]
      await [of "checked ?d a c" a] await_approval_state [of e ?d a "checked ?d a c"]
    by (elim disjE) auto
  show ?thesis
    using Act stop [of PAUSED] stop [of CANCELLED] guard gate go
    by (simp add: act_step_def Let_def)
qed (simp add: act_step_def I)

section \<open>Only permitted tools run\<close>

text \<open>
  What the coordinator relies on from a policy: a tool it neither denies nor wants approved is safe
  to run unattended.
\<close>

locale gatekeeper =
  fixes pol :: "string \<Rightarrow> policy_decision" and safe :: "string \<Rightarrow> bool"
  assumes gate: "pd_decision (pol t) \<noteq> ''DENY'' \<Longrightarrow> pd_decision (pol t) \<noteq> ''REQUIRE_APPROVAL'' \<Longrightarrow> safe t"
begin

lemma execute_safe:
  "list_all (\<lambda>ta. safe (fst ta)) (co_invoked c) \<Longrightarrow> safe (pa_tool a) \<Longrightarrow>
   list_all (\<lambda>ta. safe (fst ta)) (co_invoked (state_of (execute_action e i a c)))"
  using execute_action_cases [of e i a c] by (elim disjE exE) simp_all

lemma step_safe:
  assumes "list_all (\<lambda>ta. safe (fst ta)) (co_invoked c)"
  shows "list_all (\<lambda>ta. safe (fst ta)) (co_invoked (state_of (act_step b pol e i a c)))"
  by (rule act_step_inv [where I = "\<lambda>c. list_all (\<lambda>ta. safe (fst ta)) (co_invoked c)"])
    (simp_all add: assms execute_safe gate tell_eq)

lemma run_safe:
  "list_all (\<lambda>ta. safe (fst ta)) (co_invoked c) \<Longrightarrow>
   list_all (\<lambda>ta. safe (fst ta)) (co_invoked (result_of (coord_run b pol ver ftext e plan pv meta c)))"
  by (rule coord_run_inv [where I = "\<lambda>c. list_all (\<lambda>ta. safe (fst ta)) (co_invoked c)", OF step_safe]) (simp_all add: tell_eq)

end

definition unattended :: "string \<Rightarrow> bool" where
  "unattended t \<longleftrightarrow> map_of TOOL_TO_ACTION t \<in> {Some READ_ONLY, Some SAFE_WRITE}"

interpretation default_gate: gatekeeper "decide []" unattended
proof
  show "unattended t" if "pd_decision (decide [] t) \<noteq> ''DENY''" "pd_decision (decide [] t) \<noteq> ''REQUIRE_APPROVAL''" for t
    using that by (auto simp: decide_def unattended_def GATED_def split: option.splits if_splits)
      (metis action_class.exhaust)
qed

text \<open>
  C4: under the default policy a run hands only read-only tools and writes to the system's own
  database to the executor, whatever the plan contains, whatever the tools answer and whichever
  calls of the event sink fail.
\<close>

theorem only_unattended_tools_run:
  "list_all (\<lambda>(t, args). map_of TOOL_TO_ACTION t \<in> {Some READ_ONLY, Some SAFE_WRITE})
     (co_invoked (result_of (coord_run b (decide []) ver ftext e plan pv meta (new_coord rid))))"
  using default_gate.run_safe [of "new_coord rid" b ver ftext e plan pv meta]
  by (simp add: unattended_def case_prod_beta')

section \<open>Bounds\<close>

definition in_budget :: "budget \<Rightarrow> coord \<Rightarrow> bool" where
  "in_budget b c \<longleftrightarrow>
     co_iteration c \<le> max 0 (max_iterations b) \<and> co_tool_calls c \<le> max 0 (max_tool_calls b) \<and>
     int (length (co_invoked c)) \<le> co_iteration c"

lemma budget_step:
  assumes "in_budget b c"
  shows "in_budget b (state_of (act_step b pol e i a c))"
proof (rule act_step_inv [where I = "in_budget b"])
  fix a d assume "fst (can_continue b (en_clock e i) c)"
  then have "co_iteration c < max_iterations b" "co_tool_calls c < max_tool_calls b"
    using can_continue_goes by blast+
  then show "in_budget b (checked d a c)" "in_budget b (state_of (execute_action e i a (checked d a c)))"
    using assms execute_action_cases [of e i a "checked d a c"]
    by (auto simp: in_budget_def)
qed (use assms in \<open>simp_all add: in_budget_def tell_eq\<close>)

text \<open>
  C22: a run respects its budget: it never starts more actions than the iteration limit, never
  counts more successful tool calls than the tool call limit, and hands at most one call per
  iteration to the executor.
\<close>

theorem run_within_budget:
  "(\<lambda>c. co_iteration c \<le> max 0 (max_iterations b) \<and> co_tool_calls c \<le> max 0 (max_tool_calls b) \<and>
        int (length (co_invoked c)) \<le> co_iteration c)
     (result_of (coord_run b pol ver ftext e plan pv meta (new_coord rid)))"
proof -
  have "in_budget b (result_of (coord_run b pol ver ftext e plan pv meta (new_coord rid)))"
    by (rule coord_run_inv [where I = "in_budget b"])
      (simp_all add: budget_step, simp_all add: in_budget_def tell_eq)
  then show ?thesis by (simp add: in_budget_def)
qed

section \<open>The event list\<close>

definition numbered :: "coord \<Rightarrow> bool" where
  "numbered c \<longleftrightarrow> map (snd \<circ> snd) (co_events c) = map int [0..<length (co_events c)]"

lemma numbered_emit [simp]: "numbered c \<Longrightarrow> numbered (emit t p c)"
  by (simp add: numbered_def)

lemma numbered_fields [simp]:
  "numbered (c\<lparr>co_status := st\<rparr>) = numbered c" "numbered (c\<lparr>co_sunk := n\<rparr>) = numbered c"
  "numbered (c\<lparr>co_started := t0\<rparr>) = numbered c" "numbered (c\<lparr>co_error := er\<rparr>) = numbered c"
  "numbered (c\<lparr>co_executed := x\<rparr>) = numbered c" "numbered (c\<lparr>co_breaker := br\<rparr>) = numbered c"
  "numbered (c\<lparr>co_invoked := iv\<rparr>) = numbered c" "numbered (c\<lparr>co_tool_calls := tc\<rparr>) = numbered c"
  "numbered (c\<lparr>co_iteration := it\<rparr>) = numbered c" "numbered (c\<lparr>co_context := cx\<rparr>) = numbered c"
  "numbered (add_usage f u c) = numbered c"
  by (simp_all add: numbered_def)

lemma numbered_on_error: "numbered c \<Longrightarrow> numbered (state_of (on_error e i t args x c))"
  by (simp add: on_error_def sink_def Let_def split: option.split)

lemma numbered_execute: "numbered c \<Longrightarrow> numbered (state_of (execute_action e i a c))"
  using execute_action_cases [of e i a c] numbered_on_error
  by (elim disjE exE) (simp_all add: invoked_def succeeded_def)

lemma numbered_step:
  assumes "numbered c"
  shows "numbered (state_of (act_step b pol e i a c))"
proof (rule act_step_inv [where I = numbered])
  show "numbered (snd (can_continue b (en_clock e i) c))"
    using assms can_continue_events [of b "en_clock e i" c] numbered_emit by metis
qed (simp_all add: assms numbered_execute checked_def tell_eq)

text \<open>The events of a run are numbered 0, 1, 2, ... in the order they were emitted.\<close>

theorem run_events_numbered:
  "map (\<lambda>(t, p, n). n) (co_events (result_of (coord_run b pol ver ftext e plan pv meta (new_coord rid)))) =
   map int [0..<length (co_events (result_of (coord_run b pol ver ftext e plan pv meta (new_coord rid))))]"
proof -
  have "numbered (result_of (coord_run b pol ver ftext e plan pv meta (new_coord rid)))"
    by (rule coord_run_inv [where I = numbered]) (simp_all add: numbered_step tell_eq, simp add: numbered_def)
  then show ?thesis by (simp add: numbered_def comp_def case_prod_beta')
qed

section \<open>The final status\<close>

definition awaits :: "coord \<Rightarrow> bool" where
  "awaits c \<longleftrightarrow> ''AWAITING_APPROVAL'' \<in> fst ` set (co_events c)"

definition clean :: "coord \<Rightarrow> bool" where
  "clean c \<longleftrightarrow> \<not> co_kill c \<and> \<not> co_pause c \<and>
     (\<not> co_error c \<longrightarrow> list_all item_ok (co_executed c) \<and> length (co_executed c) = length (co_invoked c))"

definition running :: "coord \<Rightarrow> bool" where
  "running c \<longleftrightarrow> clean c \<and> \<not> awaits c \<and> co_status c \<in> {PLANNING, EXECUTING}"

definition stopped :: "coord \<Rightarrow> bool" where
  "stopped c \<longleftrightarrow> clean c \<and> (awaits c \<longleftrightarrow> co_status c = WAITING_APPROVAL) \<and>
     co_status c \<in> {PLANNING, EXECUTING, PAUSED, CANCELLED, FAILED, WAITING_APPROVAL}"

definition step_ok :: "step \<Rightarrow> bool" where
  "step_ok x \<longleftrightarrow> (case x of Goes c \<Rightarrow> running c | Breaks c \<Rightarrow> stopped c | Escapes c \<Rightarrow> True)"

lemma awaits_emit: "awaits (emit t p c) \<longleftrightarrow> awaits c \<or> t = ''AWAITING_APPROVAL''"
  by (auto simp: awaits_def)

lemma running_stopped: "running c \<Longrightarrow> stopped c"
  by (auto simp: running_def stopped_def)

lemma stop_ok:
  assumes "clean c" "\<not> awaits c" "t \<noteq> ''AWAITING_APPROVAL''" "st \<in> {PAUSED, CANCELLED, FAILED}"
  shows "stopped (emit t p (c\<lparr>co_status := st\<rparr>))"
  using assms by (auto simp: stopped_def awaits_emit clean_def) (auto simp: awaits_def)

lemma awaits_checked: "awaits (checked d a c) = awaits c"
  by (auto simp: checked_def awaits_def)

lemma awaits_succeeded: "awaits (succeeded a r c) = awaits c"
  by (auto simp: succeeded_def awaits_def)

lemma awaits_invoked: "awaits (invoked a c) = awaits c"
  by (simp add: awaits_def)

lemma on_error_ok:
  assumes "\<not> co_kill c" "\<not> co_pause c" "\<not> awaits c" "co_status c = EXECUTING"
  shows "step_ok (on_error e i t args x c)"
proof (cases "en_sink e (co_sunk c @ [(''TOOL_ERROR'', [(''tool'', PStr t), (''error'', PStr (fst x))])])")
  case (Some y)
  then show ?thesis by (simp add: on_error_def sink_def Let_def step_ok_def)
next
  case None
  let ?ev = "[(''tool'', PStr t), (''error'', PStr (fst x)), (''msg'', PStr (take 200 (snd x)))]"
  let ?c = "(emit ''TOOL_ERROR'' ?ev (c\<lparr>co_error := True\<rparr>))\<lparr>co_sunk := co_sunk c @ [(''TOOL_ERROR'', [(''tool'', PStr t), (''error'', PStr (fst x))])],
      co_executed := co_executed c @ [[(''tool'', PStr t), (''arguments'', PDict args),
                             (''error'', PStr (fst x)), (''ok'', PBool False)]]\<rparr>"
  let ?f = "record_failure (en_fail_clock e i) t (co_breaker c)"
  have c: "clean (?c\<lparr>co_breaker := br\<rparr>)" "\<not> awaits (?c\<lparr>co_breaker := br\<rparr>)" for br
    using assms by (simp_all add: clean_def) (auto simp: awaits_def)
  show ?thesis
    using None c [of "snd ?f"] assms(4) stop_ok [OF c, of "''CIRCUIT_OPEN''" FAILED]
    by (simp add: on_error_def sink_def Let_def step_ok_def running_def)
qed

lemma execute_ok:
  assumes "running c" "co_status c = EXECUTING"
  shows "step_ok (execute_action e i a c)"
  using execute_action_cases [of e i a c]
proof (elim disjE exE)
  fix x assume "execute_action e i a c = on_error e i (pa_tool a) (pa_args a) x (invoked a c)"
  then show ?thesis
    using assms by (simp add: on_error_ok running_def clean_def awaits_invoked)
next
  fix x r assume "execute_action e i a c = on_error e i (pa_tool a) (pa_args a) x (succeeded a r (invoked a c))"
  then show ?thesis
    using assms by (simp add: on_error_ok running_def clean_def awaits_succeeded awaits_invoked)
next
  fix r cx br
  let ?s = "succeeded a r (invoked a c)"
  assume e: "execute_action e i a c = Goes (?s\<lparr>co_context := cx, co_breaker := br\<rparr>)"
  obtain x where "item_ok x" "co_executed ?s = co_executed c @ [x]"
    using succeeded_simps(8) [of a r "invoked a c"] by auto
  moreover have "\<not> awaits (?s\<lparr>co_context := cx, co_breaker := br\<rparr>)"
    using assms awaits_succeeded [of a r "invoked a c"] awaits_invoked [of a c]
    by (simp add: running_def awaits_def)
  ultimately show ?thesis
    using assms e by (simp add: step_ok_def running_def clean_def)
qed

lemma gate_ok:
  assumes "running c"
  shows "step_ok (gate_action e i d a c)"
proof -
  have c: "running (checked d a c)" "co_status (checked d a c) = EXECUTING"
    using assms by (simp_all add: running_def clean_def awaits_checked)
  show ?thesis
    using gate_action_cases [of e i d a c]
  proof (elim disjE conjE)
    assume "gate_action e i d a c =
      Breaks (emit ''DENIED'' [(''tool'', PStr (pa_tool a))] ((checked d a c)\<lparr>co_status := FAILED\<rparr>))"
    then show ?thesis
      using c stop_ok [of "checked d a c" "''DENIED''" FAILED] by (simp add: step_ok_def running_def)
  next
    assume "gate_action e i d a c = await_approval e d a (checked d a c)"
    moreover have "step_ok (await_approval e d a (checked d a c))"
      using c(1)
      by (auto simp: await_approval_def tell_eq step_ok_def stopped_def running_def clean_def awaits_def
          split: option.split)
    ultimately show ?thesis by simp
  next
    assume "gate_action e i d a c = execute_action e i a (checked d a c)"
    then show ?thesis using execute_ok c by simp
  qed (simp add: step_ok_def)
qed

lemma act_step_ok:
  assumes "running c"
  shows "step_ok (act_step b pol e i entry c)"
proof (cases entry)
  case (Act a)
  have "stopped (snd (can_continue b (en_clock e i) c))"
    using can_continue_events [of b "en_clock e i" c] running_stopped [OF assms] assms
    by (auto simp: stopped_def awaits_emit clean_def running_def)
  then show ?thesis
    using Act assms stop_ok [of c "''PAUSED''" PAUSED] stop_ok [of c "''CANCELLED''" CANCELLED]
      gate_ok can_continue_goes [of b "en_clock e i" c]
    by (auto simp: act_step_def Let_def step_ok_def running_def)
qed (simp add: act_step_def step_ok_def assms)

lemma act_loop_stopped:
  "running c \<Longrightarrow> act_loop b pol e i as c = Inr c' \<Longrightarrow> stopped c'"
proof (induction as arbitrary: i c)
  case Nil
  then show ?case using running_stopped by simp
next
  case (Cons a as)
  have "step_ok (act_step b pol e i a c)" using act_step_ok Cons.prems(1) .
  with Cons show ?case by (auto simp: step_ok_def split: step.splits)
qed

lemma bind_run_Inr: "bind_run x f = Inr y \<longleftrightarrow> (\<exists>c. x = Inr c \<and> f c = Inr y)"
  by (auto simp: bind_run_def split: sum.splits)

lemma tell_run_keeps:
  "tell_run e t p c = Inr c1 \<Longrightarrow> t \<noteq> ''AWAITING_APPROVAL'' \<Longrightarrow> clean c \<Longrightarrow> \<not> awaits c \<Longrightarrow>
   clean c1 \<and> \<not> awaits c1 \<and> co_status c1 = co_status c"
  by (auto simp: tell_run_def tell_eq clean_def awaits_def split: option.splits)

definition done_ok :: "coord \<Rightarrow> bool" where
  "done_ok c \<longleftrightarrow>
     co_status c \<in> {COMPLETED, FAILED, CANCELLED, PAUSED, WAITING_APPROVAL} \<and>
     (awaits c \<longleftrightarrow> co_status c = WAITING_APPROVAL) \<and>
     (co_status c = COMPLETED \<longrightarrow> \<not> co_error c \<and> co_executed c \<noteq> [] \<and>
        list_all item_ok (co_executed c) \<and> length (co_executed c) = length (co_invoked c))"

lemma verify_run_ok:
  assumes "clean c" "\<not> co_error c" "\<not> awaits c" "verify_run (verify default_checks) e c = Inr c'"
  shows "co_status c' = FAILED \<and> \<not> awaits c' \<or>
    co_status c' = PERSISTING \<and> \<not> awaits c' \<and> \<not> co_error c' \<and> co_executed c' \<noteq> [] \<and>
    list_all item_ok (co_executed c') \<and> length (co_executed c') = length (co_invoked c')"
proof -
  obtain r where r: "verify default_checks [(''evidence'', PList (map PDict (co_executed c)))] = Inr r"
    "vr_passed r = default_passes (co_executed c)"
    using default_verify by blast
  have "co_executed c \<noteq> []" if "default_passes (co_executed c)"
    using that by (auto simp: default_passes_def)
  moreover obtain p n where "c' = (emit ''VERIFY'' p (c\<lparr>co_status := VERIFYING\<rparr>))
      \<lparr>co_sunk := n, co_status := if default_passes (co_executed c) then PERSISTING else FAILED\<rparr>"
    using assms(4) r
    by (simp add: verify_run_def Let_def tell_eq split: option.splits) metis
  ultimately show ?thesis
    using assms by (simp add: clean_def awaits_def)
qed

lemma finalize_ok:
  assumes "stopped c" "finalize (verify default_checks) e c = Inr c1" "finish e c1 = Inr c2"
  shows "done_ok c2"
proof -
  have "co_status c1 \<noteq> PERSISTING \<and> (awaits c1 \<longleftrightarrow> co_status c1 = WAITING_APPROVAL) \<and>
      co_status c1 \<in> {FAILED, CANCELLED, PAUSED, WAITING_APPROVAL} \<or>
    co_status c1 = PERSISTING \<and> \<not> awaits c1 \<and> \<not> co_error c1 \<and> co_executed c1 \<noteq> [] \<and>
    list_all item_ok (co_executed c1) \<and> length (co_executed c1) = length (co_invoked c1)"
  proof (cases "co_status c \<in> {PLANNING, EXECUTING} \<and> \<not> co_error c")
    case True
    then have "verify_run (verify default_checks) e c = Inr c1"
      using assms(1,2) by (auto simp: finalize_def stopped_def clean_def)
    then show ?thesis
      using verify_run_ok [of c e c1] assms(1) True by (auto simp: stopped_def)
  next
    case False
    have s: "\<not> co_pause c" "\<not> co_kill c" "awaits c \<longleftrightarrow> co_status c = WAITING_APPROVAL"
      "co_status c \<in> {PLANNING, EXECUTING, PAUSED, CANCELLED, FAILED, WAITING_APPROVAL}"
      using assms(1) by (simp_all add: stopped_def clean_def)
    show ?thesis
    proof (cases "co_status c \<in> {PLANNING, EXECUTING}")
      case True
      then have "co_status c1 = FAILED" "awaits c1 = awaits c"
        using assms(2) s(1,2) False awaits_emit [of "''VERIFY''" _ "c\<lparr>co_status := FAILED\<rparr>"]
        by (auto simp: finalize_def) (simp_all add: awaits_def)
      then show ?thesis using s(3) True by auto
    next
      case rest: False
      then have "c1 = c" using assms(2) s by (auto simp: finalize_def)
      then show ?thesis using s rest by auto
    qed
  qed
  moreover obtain p n where c2: "c2 = (emit ''END'' p
      (if co_status c1 = PERSISTING then c1\<lparr>co_status := COMPLETED\<rparr> else c1))\<lparr>co_sunk := n\<rparr>"
    using assms(3) by (simp add: finish_def tell_eq Let_def split: option.splits) metis
  have "awaits c2 = awaits c1" "co_executed c2 = co_executed c1" "co_invoked c2 = co_invoked c1"
    "co_error c2 = co_error c1" "co_status c2 = (if co_status c1 = PERSISTING then COMPLETED else co_status c1)"
    by (simp_all add: c2 awaits_def)
  ultimately show ?thesis unfolding done_ok_def by auto
qed

lemma run_done:
  assumes "coord_run b pol (verify default_checks) ftext e plan pv meta (new_coord rid) = Inr c"
  shows "done_ok c"
proof -
  obtain x y z c1 c2 where
    x: "tell_run e ''STARTED'' [(''run_id'', PStr (co_run (new_coord rid)))]
          ((new_coord rid)\<lparr>co_status := CONTEXT_BUILDING, co_started := Some (en_start e)\<rparr>) = Inr x"
    and y: "tell_run e ''PLAN'' [(''plan'', pv)] (x\<lparr>co_status := PLANNING\<rparr>) = Inr y"
    and z: "tell_run e ''CONTEXT'' [(''segments'', meta)] (add_usage ftext (case pl_usage plan of None \<Rightarrow> [] | Some u \<Rightarrow> u) y) = Inr z"
    and run: "act_loop b pol e 0 (plan_entries plan) z = Inr c1"
      "finalize (verify default_checks) e c1 = Inr c2" "finish e c2 = Inr c"
    using assms unfolding coord_run_def bind_run_Inr by blast
  have "clean x \<and> \<not> awaits x"
    using tell_run_keeps [OF x] by (simp add: clean_def awaits_def)
  then have "clean y \<and> \<not> awaits y \<and> co_status y = PLANNING"
    using tell_run_keeps [OF y] by (simp add: clean_def awaits_def)
  then have r: "running z"
    using tell_run_keeps [OF z] by (simp add: clean_def awaits_def running_def)
  then show ?thesis using finalize_ok [OF act_loop_stopped [OF r run(1)] run(2,3)] by simp
qed

text \<open>
  C23: what the final status of a run says. A run that returns ends COMPLETED, FAILED, CANCELLED,
  PAUSED or WAITING_APPROVAL; it waits for an approval exactly when one was asked for; and it is
  COMPLETED only when some tool call was made and every tool call handed to the executor succeeded.
\<close>

theorem run_final_status:
  assumes "coord_run b pol (verify default_checks) ftext e plan pv meta (new_coord rid) = Inr c"
  shows "co_status c \<in> {COMPLETED, FAILED, CANCELLED, PAUSED, WAITING_APPROVAL} \<and>
    (co_status c = WAITING_APPROVAL \<longleftrightarrow> ''AWAITING_APPROVAL'' \<in> fst ` set (co_events c)) \<and>
    (co_status c = COMPLETED \<longrightarrow> co_executed c \<noteq> [] \<and> list_all item_ok (co_executed c) \<and>
       length (co_executed c) = length (co_invoked c))"
  using run_done [OF assms] by (auto simp: done_ok_def awaits_def)

section \<open>Runs whose sink does not raise\<close>

text \<open>
  A set \<open>P\<close> of calls of the sink that covers what a run tells it: every event but the requests for an
  approval, and those for the tools that need one. \<open>quiet\<close>: the sink answers calls from \<open>P\<close>.
\<close>

definition covers :: "(string \<Rightarrow> policy_decision) \<Rightarrow> (string \<times> pydict \<Rightarrow> bool) \<Rightarrow> bool" where
  "covers pol P \<longleftrightarrow>
     (\<forall>t p. t \<noteq> ''AWAITING_APPROVAL'' \<longrightarrow> P (t, p)) \<and>
     (\<forall>a. pd_decision (pol (pa_tool a)) = ''REQUIRE_APPROVAL'' \<longrightarrow>
        P (''AWAITING_APPROVAL'', approval_request (pol (pa_tool a)) a))"

definition quiet :: "env \<Rightarrow> (string \<times> pydict \<Rightarrow> bool) \<Rightarrow> bool" where
  "quiet e P \<longleftrightarrow> (\<forall>h x. list_all P h \<longrightarrow> P x \<longrightarrow> en_sink e (h @ [x]) = None)"

definition sunk_in :: "(string \<times> pydict \<Rightarrow> bool) \<Rightarrow> coord \<Rightarrow> bool" where
  "sunk_in P c \<longleftrightarrow> list_all P (co_sunk c)"

lemma sunk_in_simps [simp]:
  "sunk_in P (emit t p c) = sunk_in P c" "sunk_in P (c\<lparr>co_status := st\<rparr>) = sunk_in P c"
  "sunk_in P (c\<lparr>co_started := t0\<rparr>) = sunk_in P c" "sunk_in P (c\<lparr>co_executed := x\<rparr>) = sunk_in P c"
  "sunk_in P (c\<lparr>co_error := er\<rparr>) = sunk_in P c" "sunk_in P (c\<lparr>co_breaker := br\<rparr>) = sunk_in P c"
  "sunk_in P (c\<lparr>co_context := cx\<rparr>) = sunk_in P c" "sunk_in P (c\<lparr>co_iteration := it\<rparr>) = sunk_in P c"
  "sunk_in P (c\<lparr>co_tool_calls := n\<rparr>) = sunk_in P c" "sunk_in P (c\<lparr>co_invoked := iv\<rparr>) = sunk_in P c"
  "sunk_in P (add_usage f u c) = sunk_in P c" "sunk_in P (c\<lparr>co_sunk := h\<rparr>) = list_all P h"
  "sunk_in P (snd (can_continue b now c)) = sunk_in P c"
  using can_continue_events [of b now c]
  by (auto simp: sunk_in_def add_usage_def Let_def split: option.splits)

lemma coversD: "covers pol P \<Longrightarrow> t \<noteq> ''AWAITING_APPROVAL'' \<Longrightarrow> P (t, p)"
  by (simp add: covers_def)

lemma quiet_answer:
  "quiet e P \<Longrightarrow> sunk_in P c \<Longrightarrow> P x \<Longrightarrow> en_sink e (co_sunk c @ [x]) = None"
  "sunk_in P c \<Longrightarrow> P x \<Longrightarrow> list_all P (co_sunk c @ [x])"
  by (cases x, simp_all add: quiet_def sunk_in_def)

lemma tell_quiet:
  "quiet e P \<Longrightarrow> sunk_in P c \<Longrightarrow> P (t, p) \<Longrightarrow>
   \<exists>c'. tell e t p c = (None, c') \<and> sunk_in P c' \<and> co_sunk c' = co_sunk c @ [(t, p)]"
  by (simp add: tell_eq quiet_answer del: list_all_append)

definition goes_on :: "(string \<times> pydict \<Rightarrow> bool) \<Rightarrow> step \<Rightarrow> bool" where
  "goes_on P x \<longleftrightarrow> (case x of Escapes _ \<Rightarrow> False | Goes c \<Rightarrow> sunk_in P c | Breaks c \<Rightarrow> sunk_in P c)"

lemma on_error_quiet:
  assumes q: "quiet e P" "covers pol P" and "sunk_in P c"
  shows "goes_on P (on_error e i t args x c)"
proof -
  define pl where "pl = (''TOOL_ERROR'', [(''tool'', PStr t), (''error'', PStr (fst x))])"
  have "P pl" using coversD [OF q(2)] by (simp add: pl_def)
  then have "en_sink e (co_sunk c @ [pl]) = None" "list_all P (co_sunk c @ [pl])"
    using quiet_answer(1) [OF q(1) assms(3)] quiet_answer(2) [OF assms(3)] by blast+
  then show ?thesis
    by (simp add: on_error_def goes_on_def sink_def Let_def pl_def [symmetric] del: list_all_append)
qed

lemma execute_quiet:
  assumes q: "quiet e P" "covers pol P" and "sunk_in P c"
  shows "goes_on P (execute_action e i a c)"
proof -
  have "P (''TOOL_CALL'', p)" for p using coversD [OF q(2)] by simp
  then have "sunk_in P (succeeded a r (invoked a c))" "sunk_in P (invoked a c)" for r
    using assms(3) by (simp_all add: succeeded_def invoked_def sunk_in_def)
  then show ?thesis
    using execute_action_cases [of e i a c] on_error_quiet [OF q]
    by (elim disjE exE) (simp_all, simp add: goes_on_def)
qed

lemma act_step_quiet:
  assumes q: "quiet e P" "covers pol P" and c: "sunk_in P c"
  shows "goes_on P (act_step b pol e i entry c)"
proof (cases entry)
  case (Act a)
  let ?d = "pol (pa_tool a)" and ?c = "c\<lparr>co_iteration := co_iteration c + 1, co_status := EXECUTING\<rparr>"
  let ?p = "[(''tool'', PStr (pa_tool a)), (''arguments'', PDict (pa_args a)), (''decision'', PStr (pd_decision ?d))]"
  obtain c1 where c1: "tell e ''POLICY_CHECK'' ?p ?c = (None, c1)" "sunk_in P c1"
    using tell_quiet [OF q(1), of ?c "''POLICY_CHECK''" ?p] coversD [OF q(2), of "''POLICY_CHECK''"] c by auto
  have "goes_on P (await_approval e ?d a c1)" if "pd_decision ?d = ''REQUIRE_APPROVAL''"
    using tell_quiet [OF q(1), of "c1\<lparr>co_status := WAITING_APPROVAL\<rparr>" "''AWAITING_APPROVAL''" "approval_request ?d a"]
      that q(2) c1(2) by (auto simp: await_approval_def goes_on_def covers_def)
  moreover have "goes_on P (execute_action e i a c1)" by (rule execute_quiet [OF q c1(2)])
  ultimately have "goes_on P (gate_action e i ?d a c)"
    unfolding gate_action_def using c1 by (simp add: goes_on_def)
  then show ?thesis
    using Act c can_continue_goes [of b "en_clock e i" c]
    by (auto simp: act_step_def Let_def goes_on_def)
qed (simp add: act_step_def goes_on_def c)

text \<open>Such a run returns, and what it told the sink is in \<open>P\<close>.\<close>

lemma act_loop_quiet:
  assumes q: "quiet e P" "covers pol P"
  shows "sunk_in P c \<Longrightarrow> \<exists>c'. act_loop b pol e i as c = Inr c' \<and> sunk_in P c'"
proof (induction as arbitrary: i c)
  case (Cons a as)
  then show ?case
    using act_step_quiet [OF q Cons.prems, of b i a] by (auto simp: goes_on_def split: step.splits)
qed simp

lemma coord_run_quiet:
  assumes q: "quiet e P" "covers pol P" and c: "sunk_in P c"
  shows "\<exists>c'. coord_run b pol ver ftext e plan pv meta c = Inr c' \<and> sunk_in P c'"
proof -
  define R where "R x \<longleftrightarrow> (\<exists>c'. x = Inr c' \<and> sunk_in P c')" for x :: "coord + coord"
  have b: "R (bind_run x f)" if "R x" "\<And>c. sunk_in P c \<Longrightarrow> R (f c)" for x f
    using that by (auto simp: bind_run_def R_def)
  have t: "R (tell_run e t p c)" if "sunk_in P c" "t \<noteq> ''AWAITING_APPROVAL''" for t p c
    using tell_quiet [OF q(1) that(1), of t p] coversD [OF q(2) that(2)] by (auto simp: tell_run_def R_def)
  have l: "R (act_loop b pol e i as c)" if "sunk_in P c" for i as c
    using act_loop_quiet [OF q that] by (simp add: R_def)
  have v: "R (verify_run ver e c)" if "sunk_in P c" for c
    unfolding verify_run_def Let_def R_def
    by (subst tell_eq, subst quiet_answer(1) [OF q(1)])
      (use that coversD [OF q(2)] in \<open>simp_all add: sunk_in_def\<close>)
  have z: "R (finalize ver e c)" if "sunk_in P c" for c
    using v [OF that] that by (simp add: finalize_def) (simp add: R_def)
  have f: "R (finish e c)" if "sunk_in P c" for c
    unfolding finish_def Let_def R_def
    by (subst tell_eq, subst quiet_answer(1) [OF q(1)])
      (use that coversD [OF q(2)] in \<open>simp_all add: sunk_in_def\<close>)
  have "R (coord_run b pol ver ftext e plan pv meta c)"
    unfolding coord_run_def by (intro b t l z f) (use c in simp_all)
  then show ?thesis by (simp add: R_def)
qed

text \<open>
  A run returns. With an event sink that does not raise, \<open>run\<close> ends with a result for every
  plan, policy, verifier and every behaviour of the tools.
\<close>

theorem run_returns:
  assumes "\<And>h. en_sink e h = None"
  shows "\<exists>c'. coord_run b pol ver ftext e plan pv meta c = Inr c'"
  using coord_run_quiet [of e "\<lambda>_. True" pol c b ver ftext plan pv meta] assms
  by (auto simp: quiet_def covers_def sunk_in_def list_all_iff)

section \<open>What a run tells its sink\<close>

text \<open>The status a coordinator has before \<open>run\<close> does not matter.\<close>

lemma coord_run_status:
  "coord_run b pol ver ftext e plan pv meta (c\<lparr>co_status := st\<rparr>) = coord_run b pol ver ftext e plan pv meta c"
  by (simp add: coord_run_def)

text \<open>The last call of the sink reports the final status.\<close>

definition end_call :: "run_status \<Rightarrow> string \<times> pydict" where
  "end_call st = (''END'', [(''final_status'', PStr (run_status_value st))])"

lemma coord_run_end:
  assumes "coord_run b pol ver ftext e plan pv meta c = Inr c'"
  shows "\<exists>h. co_sunk c' = h @ [end_call (co_status c')]"
proof -
  obtain c1 where "finish e c1 = Inr c'"
    using assms unfolding coord_run_def bind_run_Inr by blast
  then show ?thesis
    by (auto simp: finish_def tell_eq end_call_def Let_def split: option.splits)
qed

text \<open>A run waits only for an approval that was asked for, of a tool the policy wants approved.\<close>

definition asked :: "(string \<Rightarrow> policy_decision) \<Rightarrow> plan_action \<Rightarrow> coord \<Rightarrow> bool" where
  "asked pol a c \<longleftrightarrow> pd_decision (pol (pa_tool a)) = ''REQUIRE_APPROVAL'' \<and>
     (''AWAITING_APPROVAL'', approval_request (pol (pa_tool a)) a) \<in> set (co_sunk c)"

definition waits_for_asked :: "(string \<Rightarrow> policy_decision) \<Rightarrow> coord \<Rightarrow> bool" where
  "waits_for_asked pol c \<longleftrightarrow> (awaits c \<longrightarrow> (\<exists>a. asked pol a c))"

lemma waits_mono:
  "waits_for_asked pol c \<Longrightarrow> awaits c' = awaits c \<Longrightarrow> set (co_sunk c) \<subseteq> set (co_sunk c') \<Longrightarrow>
   waits_for_asked pol c'"
  unfolding waits_for_asked_def asked_def by blast

lemma on_error_tells:
  "set (co_sunk c) \<subseteq> set (co_sunk (state_of (on_error e i t args x c)))"
  "awaits (state_of (on_error e i t args x c)) = awaits c"
  by (auto simp: on_error_def sink_def awaits_def Let_def split: option.split)

lemma waits_execute:
  assumes "waits_for_asked pol c"
  shows "waits_for_asked pol (state_of (execute_action e i a c))"
proof -
  have s: "waits_for_asked pol (succeeded a r (invoked a c))" for r
    by (rule waits_mono [OF assms]) (simp add: awaits_succeeded awaits_invoked, auto simp: succeeded_def invoked_def)
  have i: "waits_for_asked pol (invoked a c)"
    by (rule waits_mono [OF assms]) (simp_all add: awaits_invoked, simp add: invoked_def)
  have err: "waits_for_asked pol (state_of (on_error e i t args x c))" if "waits_for_asked pol c" for i t args x c
    using waits_mono [OF that] on_error_tells by blast
  show ?thesis
    using execute_action_cases [of e i a c] s i err
    by (elim disjE exE) (simp_all, simp add: waits_for_asked_def asked_def awaits_def)
qed

lemma run_waits_for_asked:
  "waits_for_asked pol (result_of (coord_run b pol ver ftext e plan pv meta (new_coord rid)))"
proof (rule coord_run_inv [where I = "waits_for_asked pol"])
  fix i entry c assume w: "waits_for_asked pol c"
  show "waits_for_asked pol (state_of (act_step b pol e i entry c))"
  proof (rule act_step_inv [where I = "waits_for_asked pol"])
    fix a :: plan_action and c
    assume "pd_decision (pol (pa_tool a)) = ''REQUIRE_APPROVAL''"
    then have "asked pol a
        (snd (tell e ''AWAITING_APPROVAL'' (approval_request (pol (pa_tool a)) a) (c\<lparr>co_status := WAITING_APPROVAL\<rparr>)))"
      by (simp add: asked_def tell_eq)
    then show "waits_for_asked pol
        (snd (tell e ''AWAITING_APPROVAL'' (approval_request (pol (pa_tool a)) a) (c\<lparr>co_status := WAITING_APPROVAL\<rparr>)))"
      unfolding waits_for_asked_def by blast
  next
    show "waits_for_asked pol (snd (can_continue b (en_clock e i) c))"
      using can_continue_events [of b "en_clock e i" c] w
      by (auto simp: waits_for_asked_def asked_def awaits_emit)
  next
    fix d a show "waits_for_asked pol (checked d a c)"
      by (rule waits_mono [OF w]) (auto simp: awaits_checked, auto simp: checked_def)
  qed (use w in \<open>simp_all add: waits_execute\<close>, use w in \<open>auto simp: waits_for_asked_def asked_def awaits_def\<close>)
qed (auto simp: waits_for_asked_def asked_def awaits_def tell_eq add_usage_def Let_def split: option.split)

section \<open>Concrete runs\<close>

definition sample_env :: env where
  "sample_env =
     \<lparr>en_start = 1, en_pause = (\<lambda>_ _. False), en_stop = (\<lambda>_ _. False), en_clock = (\<lambda>_. 2),
      en_fail_clock = (\<lambda>_. 2), en_exec = (\<lambda>i t args. Inr (PDict [(''status'', PStr ''ok'')])),
      en_sink = (\<lambda>_. None)\<rparr>"

definition health_action :: "string \<Rightarrow> plan_entry" where
  "health_action i = Act \<lparr>pa_id = i, pa_tool = ''internal_health'', pa_args = [], pa_reason = [],
                          pa_expected = [], pa_class = ''READ_ONLY''\<rparr>"

definition plan_of :: "plan_entry list \<Rightarrow> run_plan" where
  "plan_of as = \<lparr>pl_goal = PStr [], pl_assumptions = [], pl_criteria = [], pl_actions = as, pl_tools = [],
                 pl_usage = None\<rparr>"

definition small_budget :: "int \<Rightarrow> budget" where
  "small_budget n = \<lparr>max_iterations = n, max_tool_calls = n, max_wall_seconds = 900,
                     max_tokens = 1000, max_cost = 5\<rparr>"

definition sample_run :: "int \<Rightarrow> plan_entry list \<Rightarrow> coord + coord" where
  "sample_run n as =
     coord_run (small_budget n) (decide []) (verify default_checks) (\<lambda>_. None) sample_env (plan_of as)
       PNone PNone (new_coord ''r'')"

lemma sample_completed:
  "(case sample_run 5 [health_action ''action_1''] of
      Inl _ \<Rightarrow> False | Inr c \<Rightarrow> co_status c = COMPLETED \<and> length (co_invoked c) = 1)"
  by code_simp

theorem run_final_status_witness:
  "\<exists>c. sample_run 5 [health_action ''action_1''] = Inr c \<and> co_status c = COMPLETED \<and>
     list_all item_ok (co_executed c) \<and> length (co_executed c) = length (co_invoked c)"
proof -
  obtain c where c: "sample_run 5 [health_action ''action_1''] = Inr c" "co_status c = COMPLETED"
    using sample_completed by (auto split: sum.splits)
  show ?thesis
    using run_final_status [OF c(1) [unfolded sample_run_def]] c by blast
qed

theorem run_returns_witness: "\<exists>c. sample_run 5 [health_action ''action_1''] = Inr c"
  unfolding sample_run_def by (rule run_returns) (simp add: sample_env_def)

text \<open>
  A run that meets a limit stops its plan and is verified on what it did so far: with one allowed
  iteration a plan of two actions ends COMPLETED after the first of them, next to its
  ITERATION_LIMIT event.
\<close>

lemma truncated_run_completes:
  "(case sample_run 1 [health_action ''action_1'', health_action ''action_2''] of
      Inl _ \<Rightarrow> False
    | Inr c \<Rightarrow> co_status c = COMPLETED \<and> length (co_invoked c) = 1 \<and>
        ''ITERATION_LIMIT'' \<in> set (map fst (co_events c)))"
  by code_simp

text \<open>
  A critical failure of the sink for a TOOL_CALL event does not escape: it is recorded as an error
  of the tool, which has then both succeeded and failed, and the run ends without an exception.
\<close>

definition lossy_env :: env where
  "lossy_env = sample_env\<lparr>en_sink := (\<lambda>h. if fst (last h) = ''TOOL_CALL'' then Some (''CriticalEventPersistenceError'', []) else None)\<rparr>"

lemma critical_sink_failure_swallowed:
  "(case coord_run (small_budget 5) (decide []) (verify default_checks) (\<lambda>_. None) lossy_env
           (plan_of [health_action ''action_1'']) PNone PNone (new_coord ''r'') of
      Inl _ \<Rightarrow> False
    | Inr c \<Rightarrow> co_status c = FAILED \<and> length (co_invoked c) = 1 \<and>
        map item_ok (co_executed c) = [True, False] \<and> co_tool_calls c = 1)"
  by code_simp

end
