(* ===== verification/Executor.thy ===== *)
theory Executor
  imports Policy
begin

text \<open>
  The tool registry and executor: \<open>packages/agent_core/executor.py\<close>. A tool is a function from the
  keyword arguments to an exception or a result; the connectors behind the tools are parameters.
\<close>

datatype tool_error =
    UnregisteredTool string
  | MissingArgument string string
  | UnknownArgument string string
  | NotAString string string
  | NotAnInteger string string
  | NotAnObject string string
  | SignatureError
  | TechnocoreDisabled
  | ToolFailed string

type_synonym tool_fn = "pydict \<Rightarrow> tool_error + pyval"

text \<open>The parts of a schema that are checked: property names with their type, required names.\<close>

record schema =
  sc_props :: "(string \<times> string) list"
  sc_required :: "string list"

definition no_schema :: schema where
  "no_schema = \<lparr>sc_props = [], sc_required = []\<rparr>"

record registry =
  rg_fns :: "(string \<times> tool_fn) list"
  rg_schemas :: "(string \<times> schema) list"

definition empty_registry :: registry where
  "empty_registry = \<lparr>rg_fns = [], rg_schemas = []\<rparr>"

definition register :: "string \<Rightarrow> tool_fn \<Rightarrow> schema \<Rightarrow> registry \<Rightarrow> registry" where
  "register name fn sc reg =
     reg\<lparr>rg_fns := dset name fn (rg_fns reg), rg_schemas := dset name sc (rg_schemas reg)\<rparr>"

definition has_tool :: "string \<Rightarrow> registry \<Rightarrow> bool" where
  "has_tool name reg \<longleftrightarrow> map_of (rg_fns reg) name \<noteq> None"

definition tool_schema :: "string \<Rightarrow> registry \<Rightarrow> schema" where
  "tool_schema name reg = (case map_of (rg_schemas reg) name of None \<Rightarrow> no_schema | Some sc \<Rightarrow> sc)"

section \<open>Validation\<close>

text \<open>\<open>isinstance(True, int)\<close> holds in Python.\<close>

fun is_str :: "pyval \<Rightarrow> bool" where "is_str (PStr _) = True" | "is_str _ = False"
fun is_int :: "pyval \<Rightarrow> bool" where "is_int (PInt _) = True" | "is_int (PBool _) = True" | "is_int _ = False"
fun is_dict :: "pyval \<Rightarrow> bool" where "is_dict (PDict _) = True" | "is_dict _ = False"

fun check_required :: "string \<Rightarrow> string list \<Rightarrow> pydict \<Rightarrow> tool_error option" where
  "check_required name [] kw = None"
| "check_required name (r # rs) kw =
     (if map_of kw r = None then Some (MissingArgument name r) else check_required name rs kw)"

fun check_args :: "string \<Rightarrow> (string \<times> string) list \<Rightarrow> pydict \<Rightarrow> tool_error option" where
  "check_args name props [] = None"
| "check_args name props ((k, v) # kw) =
     (let expected = map_of props k in
      if expected = None \<and> props \<noteq> [] then Some (UnknownArgument name k)
      else if expected = Some ''string'' \<and> \<not> is_str v then Some (NotAString name k)
      else if expected = Some ''integer'' \<and> \<not> is_int v then Some (NotAnInteger name k)
      else if expected = Some ''object'' \<and> \<not> is_dict v then Some (NotAnObject name k)
      else check_args name props kw)"

definition call_tool :: "registry \<Rightarrow> string \<Rightarrow> pydict \<Rightarrow> tool_error + pyval" where
  "call_tool reg name kw =
     (case map_of (rg_fns reg) name of
        None \<Rightarrow> Inl (UnregisteredTool name)
      | Some fn \<Rightarrow>
          (let sc = tool_schema name reg in
           case check_required name (sc_required sc) kw of
             Some e \<Rightarrow> Inl e
           | None \<Rightarrow>
               (case check_args name (sc_props sc) kw of
                  Some e \<Rightarrow> Inl e
                | None \<Rightarrow> fn kw)))"

definition execute :: "registry \<Rightarrow> string \<Rightarrow> pydict \<Rightarrow> tool_error + pyval" where
  "execute reg tool kw = call_tool reg tool kw"

section \<open>The default registry\<close>

text \<open>
  The connectors: HTTP, GitHub, health and, when it is configured, Technocore with its read and its
  signed write. The registered functions have their own Python signatures, which the schema of
  \<open>internal_health\<close> (no properties) does not enforce.
\<close>

record connectors =
  cn_http :: "string \<Rightarrow> tool_error + pyval"
  cn_repo :: "string \<Rightarrow> tool_error + pyval"
  cn_health :: "tool_error + pyval"
  cn_technocore :: "((string \<Rightarrow> int \<Rightarrow> tool_error + pyval) \<times>
                     (string \<Rightarrow> pydict \<Rightarrow> string \<Rightarrow> tool_error + pyval)) option"

definition only_keys :: "string list \<Rightarrow> pydict \<Rightarrow> bool" where
  "only_keys ks kw \<longleftrightarrow> list_all (\<lambda>kv. fst kv \<in> set ks) kw"

definition http_tool :: "connectors \<Rightarrow> tool_fn" where
  "http_tool cn kw =
     (case map_of kw ''url'' of
        Some (PStr u) \<Rightarrow> if only_keys [''url''] kw then cn_http cn u else Inl SignatureError
      | _ \<Rightarrow> Inl SignatureError)"

definition repo_tool :: "connectors \<Rightarrow> tool_fn" where
  "repo_tool cn kw =
     (case map_of kw ''repo'' of
        Some (PStr r) \<Rightarrow> if only_keys [''repo''] kw then cn_repo cn r else Inl SignatureError
      | _ \<Rightarrow> Inl SignatureError)"

definition health_tool :: "connectors \<Rightarrow> tool_fn" where
  "health_tool cn kw = (if kw = [] then cn_health cn else Inl SignatureError)"

definition tc_read_tool :: "connectors \<Rightarrow> tool_fn" where
  "tc_read_tool cn kw =
     (if \<not> only_keys [''room'', ''since''] kw then Inl SignatureError
      else (case cn_technocore cn of
              None \<Rightarrow> Inl TechnocoreDisabled
            | Some (rd, _) \<Rightarrow>
                (case (dget kw ''room'' (PStr []), dget kw ''since'' (PInt 0)) of
                   (PStr r, PInt n) \<Rightarrow> rd r n
                 | (PStr r, PBool b) \<Rightarrow> rd r (if b then 1 else 0)
                 | _ \<Rightarrow> Inl SignatureError)))"

definition tc_write_tool :: "connectors \<Rightarrow> tool_fn" where
  "tc_write_tool cn kw =
     (if \<not> only_keys [''room'', ''payload'', ''idempotency_key''] kw then Inl SignatureError
      else (case cn_technocore cn of
              None \<Rightarrow> Inl TechnocoreDisabled
            | Some (_, wr) \<Rightarrow>
                (case (map_of kw ''room'', map_of kw ''payload'', dget kw ''idempotency_key'' (PStr [])) of
                   (Some (PStr r), Some (PDict p), PStr k) \<Rightarrow> wr r p k
                 | _ \<Rightarrow> Inl SignatureError)))"

definition build_default_registry :: "connectors \<Rightarrow> registry" where
  "build_default_registry cn =
     register ''technocore_signed_write'' (tc_write_tool cn)
       \<lparr>sc_props = [(''room'', ''string''), (''payload'', ''object''), (''idempotency_key'', ''string'')],
        sc_required = [''room'', ''payload'']\<rparr>
     (register ''technocore_read'' (tc_read_tool cn)
       \<lparr>sc_props = [(''room'', ''string''), (''since'', ''integer'')], sc_required = []\<rparr>
     (register ''internal_health'' (health_tool cn) no_schema
     (register ''github_repo_read'' (repo_tool cn)
       \<lparr>sc_props = [(''repo'', ''string'')], sc_required = [''repo'']\<rparr>
     (register ''http_json_read'' (http_tool cn)
       \<lparr>sc_props = [(''url'', ''string'')], sc_required = [''url'']\<rparr> empty_registry))))"

text \<open>Technocore is attached only when it is enabled and a base URL is known.\<close>

definition technocore_url :: "bool \<Rightarrow> string \<Rightarrow> string \<Rightarrow> string option" where
  "technocore_url enabled setting_url argument_url =
     (if enabled \<and> (setting_url \<noteq> [] \<or> argument_url \<noteq> [])
      then Some (if argument_url \<noteq> [] then argument_url else setting_url) else None)"

section \<open>What a call guarantees\<close>

fun type_ok :: "string option \<Rightarrow> pyval \<Rightarrow> bool" where
  "type_ok t v =
     ((t = Some ''string'' \<longrightarrow> is_str v) \<and> (t = Some ''integer'' \<longrightarrow> is_int v) \<and>
      (t = Some ''object'' \<longrightarrow> is_dict v))"

definition valid_call :: "schema \<Rightarrow> pydict \<Rightarrow> bool" where
  "valid_call sc kw \<longleftrightarrow>
     list_all (\<lambda>r. map_of kw r \<noteq> None) (sc_required sc) \<and>
     list_all (\<lambda>(k, v). (sc_props sc = [] \<or> map_of (sc_props sc) k \<noteq> None) \<and>
                        type_ok (map_of (sc_props sc) k) v) kw"

lemma check_required_None: "check_required n rs kw = None \<longleftrightarrow> list_all (\<lambda>r. map_of kw r \<noteq> None) rs"
  by (induction rs) auto

lemma check_args_None:
  "check_args n props kw = None \<longleftrightarrow>
   list_all (\<lambda>(k, v). (props = [] \<or> map_of props k \<noteq> None) \<and> type_ok (map_of props k) v) kw"
  by (induction n props kw rule: check_args.induct) (auto simp: Let_def)

text \<open>
  A registered function is entered only with arguments its schema allows. A call of a
  registered tool is the call of its function when every required argument is present and every
  argument is known and of its type; in every other case it is an error that names the tool, and a
  tool that is not registered is never called.
\<close>

theorem call_tool_guarded:
  "(case map_of (rg_fns reg) name of
      None \<Rightarrow> call_tool reg name kw = Inl (UnregisteredTool name)
    | Some fn \<Rightarrow>
        if valid_call (tool_schema name reg) kw then call_tool reg name kw = fn kw
        else (\<exists>a. call_tool reg name kw \<in> {Inl (MissingArgument name a), Inl (UnknownArgument name a),
               Inl (NotAString name a), Inl (NotAnInteger name a), Inl (NotAnObject name a)}))"
proof (cases "map_of (rg_fns reg) name")
  case None
  then show ?thesis by (simp add: call_tool_def)
next
  case (Some fn)
  let ?sc = "tool_schema name reg"
  have req: "\<exists>a. e = MissingArgument name a" if "check_required name rs kw = Some e" for rs e
    using that by (induction rs) (auto split: if_splits)
  have arg: "\<exists>a. e \<in> {UnknownArgument name a, NotAString name a, NotAnInteger name a, NotAnObject name a}"
    if "check_args name props kw = Some e" for props e kw
    using that by (induction name props kw rule: check_args.induct) (auto simp: Let_def split: if_splits)
  show ?thesis
  proof (cases "check_required name (sc_required ?sc) kw")
    case c: None
    show ?thesis
    proof (cases "check_args name (sc_props ?sc) kw")
      case None
      then have "valid_call ?sc kw"
        using c by (simp add: valid_call_def check_required_None check_args_None)
      then show ?thesis using Some c None by (simp add: call_tool_def Let_def)
    next
      case e: (Some e)
      then have "\<not> valid_call ?sc kw"
        unfolding valid_call_def check_args_None [of name, symmetric] by simp
      moreover have "call_tool reg name kw = Inl e"
        using Some c e by (simp add: call_tool_def Let_def)
      ultimately show ?thesis using Some arg [OF e] by simp blast
    qed
  next
    case e: (Some e)
    then have "\<not> valid_call ?sc kw"
      unfolding valid_call_def check_required_None [of name, symmetric] by simp
    moreover have "call_tool reg name kw = Inl e"
      using Some e by (simp add: call_tool_def Let_def)
    ultimately show ?thesis using Some req [OF e] by simp blast
  qed
qed

lemma default_tools:
  "map fst (rg_fns (build_default_registry cn)) =
     [''http_json_read'', ''github_repo_read'', ''internal_health'', ''technocore_read'',
      ''technocore_signed_write'']"
  by (simp add: build_default_registry_def register_def empty_registry_def)

text \<open>
  The registry and the policy agree. Every tool of the default registry is classified by the
  policy engine, so none of them is denied as unknown, and the only one that is not free to run
  unattended is the signed write, which needs an approval.
\<close>

theorem registered_tools_classified:
  "map (\<lambda>(t, f). pd_decision (decide [] t)) (rg_fns (build_default_registry cn)) =
     [''ALLOW'', ''ALLOW'', ''ALLOW'', ''ALLOW'', ''REQUIRE_APPROVAL'']"
  by (simp add: build_default_registry_def register_def empty_registry_def decide_def
      TOOL_TO_ACTION_def GATED_def)

end
