(* ===== verification/Events.thy ===== *)
theory Events
  imports Models
begin

text \<open>
  The single write path for run events: \<open>packages/observability/events.py\<close>. An append reads the
  highest sequence number of the run in a snapshot and inserts into the current rows; on PostgreSQL
  the advisory lock makes the two the same, on SQLite another session may have written in between,
  which the unique constraints turn into an \<open>IntegrityError\<close> that the wrapper retries.
\<close>

datatype event_error = UnsupportedDialect string | EventIntegrity

definition event_clash :: "run_event \<Rightarrow> run_event \<Rightarrow> bool" where
  "event_clash e f \<longleftrightarrow> e_run e = e_run f \<and> e_seq e = e_seq f \<or> e_gseq e = e_gseq f"

definition add_event :: "run_event \<Rightarrow> db \<Rightarrow> db option" where
  "add_event e s =
     (if list_ex (event_clash e) (events s) then None else Some (s\<lparr>events := events s @ [e]\<rparr>))"

definition events_of :: "uuid \<Rightarrow> db \<Rightarrow> run_event list" where
  "events_of rid s = filter (\<lambda>e. e_run e = rid) (events s)"

definition max_from :: "int \<Rightarrow> int list \<Rightarrow> int" where
  "max_from a xs = fold max xs a"

definition is_sqlite :: "string \<Rightarrow> bool" where
  "is_sqlite d \<longleftrightarrow> contains ''sqlite'' d"

definition is_postgres :: "string \<Rightarrow> bool" where
  "is_postgres d \<longleftrightarrow> contains ''postgresql'' d \<or> contains ''postgres'' d \<or> startswith d ''pg''"

text \<open>
  \<open>s0\<close> is the snapshot the maxima are read in, \<open>s\<close> the rows at the flush. An identity value is used
  up by the insert on PostgreSQL.
\<close>

definition append_run_event_in_session ::
  "string \<Rightarrow> uuid \<Rightarrow> string \<Rightarrow> pydict \<Rightarrow> db \<Rightarrow> db \<Rightarrow> event_error + run_event \<times> db" where
  "append_run_event_in_session bind_dialect rid etype payload s0 s =
     (let dialect = strip (lower bind_dialect) in
      if \<not> is_sqlite dialect \<and> \<not> is_postgres dialect then Inl (UnsupportedDialect dialect)
      else
        let nxt = max_from (-1) (map e_seq (events_of rid s0)) + 1;
            g = (if is_sqlite dialect then max_from 0 (map e_gseq (events s0)) + 1 else next_gseq s);
            e = \<lparr>e_run = rid, e_seq = nxt, e_gseq = g, e_type = etype, e_payload = payload\<rparr>;
            s1 = (if is_sqlite dialect then s else s\<lparr>next_gseq := next_gseq s + 1\<rparr>)
        in case add_event e s1 of None \<Rightarrow> Inl EventIntegrity | Some s2 \<Rightarrow> Inr (e, s2))"

text \<open>
  The wrapper: attempt \<open>k\<close> of \<open>max_retries\<close> meets the snapshot and rows \<open>att k\<close>. It returns the
  committed rows, or nothing when no attempt was allowed.
\<close>

function safe_from ::
  "string \<Rightarrow> uuid \<Rightarrow> string \<Rightarrow> pydict \<Rightarrow> nat \<Rightarrow> (nat \<Rightarrow> db \<times> db) \<Rightarrow> nat \<Rightarrow> event_error + db option" where
  "safe_from d rid etype payload max_retries att k =
     (if max_retries \<le> k then (if max_retries = 0 then Inr None else Inl EventIntegrity)
      else (case append_run_event_in_session d rid etype payload (fst (att k)) (snd (att k)) of
              Inr (e, s') \<Rightarrow> Inr (Some s')
            | Inl EventIntegrity \<Rightarrow> safe_from d rid etype payload max_retries att (Suc k)
            | Inl err \<Rightarrow> Inl err))"
  by pat_completeness auto
termination
  by (relation "measure (\<lambda>(d, rid, etype, payload, m, att, k). m - k)") auto

declare safe_from.simps [simp del]

definition append_run_event_safe ::
  "string \<Rightarrow> uuid \<Rightarrow> string \<Rightarrow> pydict \<Rightarrow> nat \<Rightarrow> (nat \<Rightarrow> db \<times> db) \<Rightarrow> event_error + db option" where
  "append_run_event_safe d rid etype payload max_retries att =
     safe_from d rid etype payload max_retries att 0"

section \<open>The log of a run\<close>

text \<open>
  Well-formed rows: the events of a run are numbered from 0 without a gap in the order of their
  insertion, the global numbers grow, and where they are identity values (\<open>sq\<close> is false) the next
  one is above them.
\<close>

definition events_wf :: "bool \<Rightarrow> db \<Rightarrow> bool" where
  "events_wf sq s \<longleftrightarrow>
     (\<forall>rid. map e_seq (events_of rid s) = map int [0..<length (events_of rid s)]) \<and>
     sorted_wrt (<) (map e_gseq (events s)) \<and> (\<forall>e \<in> set (events s). sq \<or> e_gseq e < next_gseq s)"

definition supported :: "string \<Rightarrow> bool" where
  "supported d \<longleftrightarrow> is_sqlite (strip (lower d)) \<or> is_postgres (strip (lower d))"

lemma fold_max_start: "(a::int) \<le> fold max xs a"
proof (induction xs arbitrary: a)
  case (Cons y xs)
  have "a \<le> max y a" by simp
  also have "\<dots> \<le> fold max xs (max y a)" by (rule Cons.IH)
  finally show ?case by simp
qed simp

lemma max_from_ge: "x \<in> insert a (set xs) \<Longrightarrow> x \<le> max_from a xs"
  unfolding max_from_def
proof (induction xs arbitrary: a)
  case (Cons y xs)
  have "max y a \<le> fold max xs (max y a)" by (rule fold_max_start)
  with Cons show ?case by fastforce
qed simp

lemma max_from_in: "max_from a xs \<in> insert a (set xs)"
  unfolding max_from_def by (induction xs arbitrary: a) (fastforce simp: max_def)+

lemma max_from_upt: "max_from (-1) (map int [0..<n]) = int n - 1"
  unfolding max_from_def by (induction n) auto

lemma next_seq: "events_wf sq s \<Longrightarrow> max_from (-1) (map e_seq (events_of rid s)) + 1 = int (length (events_of rid s))"
  unfolding events_wf_def by (simp add: max_from_upt)

lemma seq_bound:
  assumes "events_wf sq s" and "e \<in> set (events s)"
  shows "e_seq e < int (length (events_of (e_run e) s))"
proof -
  have "e_seq e \<in> set (map e_seq (events_of (e_run e) s))"
    using assms(2) by (simp add: events_of_def)
  then show ?thesis
    using assms(1) unfolding events_wf_def by (metis (no_types, lifting) imageE atLeastLessThan_iff
        of_nat_less_iff set_map set_upt)
qed

lemma append_shape:
  "append_run_event_in_session d rid et p s0 s = Inr (e, s') \<Longrightarrow>
   events s' = events s @ [e] \<and> e_run e = rid \<and> e_type e = et \<and> e_payload e = p \<and>
   \<not> list_ex (event_clash e) (events s)"
  by (auto simp: append_run_event_in_session_def add_event_def Let_def
      split: if_splits option.splits)

lemma append_frame [simp]:
  assumes "append_run_event_in_session d rid et p s0 s = Inr (e, s')"
  shows "runs s' = runs s" "approvals s' = approvals s" "executions s' = executions s"
    "outbox s' = outbox s" "tasks s' = tasks s"
  using assms by (auto simp: append_run_event_in_session_def add_event_def Let_def
      split: if_splits option.splits)

lemma append_errors:
  "supported d \<Longrightarrow> append_run_event_in_session d rid et p s0 s = Inl err \<Longrightarrow> err = EventIntegrity"
  by (auto simp: append_run_event_in_session_def supported_def Let_def split: if_splits option.splits)

lemma events_wf_snoc:
  assumes wf: "events_wf sq s" and s': "events s' = events s @ [e]"
    and seq: "e_seq e = int (length (events_of (e_run e) s))"
    and above: "\<And>f. f \<in> set (events s) \<Longrightarrow> e_gseq f < e_gseq e"
    and ident: "sq \<or> e_gseq e < next_gseq s' \<and> next_gseq s \<le> next_gseq s'"
  shows "events_wf sq s'"
proof -
  have "map e_seq (events_of rid s') = map int [0..<length (events_of rid s')]" for rid
    using wf seq by (cases "e_run e = rid") (auto simp: events_wf_def events_of_def s')
  moreover have "sorted_wrt (<) (map e_gseq (events s'))"
    using wf above by (auto simp: events_wf_def s' sorted_wrt_append)
  moreover have "\<forall>f \<in> set (events s'). sq \<or> e_gseq f < next_gseq s'"
    using wf ident by (fastforce simp: events_wf_def s')
  ultimately show ?thesis by (simp add: events_wf_def)
qed

lemma events_put_gseq [simp]: "events_of rid (s\<lparr>next_gseq := n\<rparr>) = events_of rid s"
  by (simp add: events_of_def)

lemma no_clash:
  assumes "events_wf sq s" and "e_seq e = int (length (events_of (e_run e) s))"
    and "\<And>f. f \<in> set (events s) \<Longrightarrow> e_gseq f < e_gseq e"
  shows "\<not> list_ex (event_clash e) (events s)"
proof
  assume "list_ex (event_clash e) (events s)"
  then obtain f where f: "f \<in> set (events s)" "event_clash e f" by (auto simp: list_ex_iff)
  then show False
    using seq_bound [OF assms(1) f(1)] assms(2) assms(3) [OF f(1)] by (auto simp: event_clash_def)
qed

lemma append_ok:
  assumes wf: "events_wf (is_sqlite (strip (lower d))) s" and "supported d"
  shows "\<exists>e s'. append_run_event_in_session d rid et p s s = Inr (e, s') \<and>
    events s' = events s @ [e] \<and> e_seq e = int (length (events_of rid s)) \<and>
    (\<forall>f \<in> set (events s). e_gseq f < e_gseq e) \<and> events_wf (is_sqlite (strip (lower d))) s'"
proof -
  define sq where "sq = is_sqlite (strip (lower d))"
  define g where "g = (if sq then max_from 0 (map e_gseq (events s)) + 1 else next_gseq s)"
  define e where "e = \<lparr>e_run = rid, e_seq = int (length (events_of rid s)), e_gseq = g, e_type = et, e_payload = p\<rparr>"
  define s1 where "s1 = (if sq then s else s\<lparr>next_gseq := next_gseq s + 1\<rparr>)"
  have e: "e_run e = rid" "e_gseq e = g" "e_seq e = int (length (events_of rid s))"
    by (simp_all add: e_def)
  have s1: "events s1 = events s" by (simp add: s1_def)
  have wf': "events_wf sq s" using wf by (simp add: sq_def)
  have above: "e_gseq f < g" if "f \<in> set (events s)" for f
    using that wf' max_from_ge [of "e_gseq f" 0 "map e_gseq (events s)"]
    by (auto simp: events_wf_def g_def)
  have "\<not> list_ex (event_clash e) (events s)"
    using no_clash [OF wf'] above e by simp
  then have add: "add_event e s1 = Some (s1\<lparr>events := events s @ [e]\<rparr>)"
    by (simp add: add_event_def s1)
  have app: "append_run_event_in_session d rid et p s s = Inr (e, s1\<lparr>events := events s @ [e]\<rparr>)"
    using assms(2) add
    unfolding append_run_event_in_session_def supported_def next_seq [OF wf'] Let_def
    by (simp add: sq_def [symmetric] g_def [symmetric] e_def [symmetric] s1_def [symmetric])
  have "sq \<or> g < next_gseq s1 \<and> next_gseq s \<le> next_gseq s1"
    by (simp add: g_def s1_def)
  then have "events_wf sq (s1\<lparr>events := events s @ [e]\<rparr>)"
    using above by (intro events_wf_snoc [OF wf']) (auto simp: e)
  with app e above show ?thesis
    unfolding sq_def by (intro exI [of _ e] exI [of _ "s1\<lparr>events := events s @ [e]\<rparr>"]) (simp add: list_all_iff)
qed

section \<open>Sequences of appends\<close>

fun append_all :: "string \<Rightarrow> (uuid \<times> string \<times> pydict) list \<Rightarrow> db \<Rightarrow> event_error + db" where
  "append_all d [] s = Inr s"
| "append_all d ((rid, et, p) # xs) s =
     (case append_run_event_in_session d rid et p s s of
        Inl err \<Rightarrow> Inl err | Inr (e, s') \<Rightarrow> append_all d xs s')"



section \<open>The retrying wrapper\<close>

lemma safe_from_reaches:
  assumes "supported d" and "j < m" and "fst (att j) = snd (att j)"
    and "events_wf (is_sqlite (strip (lower d))) (snd (att j))" and "k \<le> j"
  shows "\<exists>s'. safe_from d rid et p m att k = Inr (Some s')"
  using assms(5)
proof (induction "j - k" arbitrary: k)
  case 0
  then have "k = j" by simp
  then show ?case
    using append_ok [OF assms(4,1), of rid et p] assms(2,3)
    by (subst safe_from.simps) (auto split: prod.splits)
next
  case (Suc n)
  then have k: "k < j" by simp
  show ?case
  proof (cases "append_run_event_in_session d rid et p (fst (att k)) (snd (att k))")
    case (Inl err)
    moreover have "err = EventIntegrity" by (rule append_errors [OF assms(1) Inl])
    moreover have "\<exists>s'. safe_from d rid et p m att (Suc k) = Inr (Some s')"
      using Suc k by (intro Suc.hyps(1)) auto
    ultimately show ?thesis using k assms(2) by (subst safe_from.simps) auto
  next
    case (Inr r)
    then show ?thesis using k assms(2) by (subst safe_from.simps) (auto split: prod.splits)
  qed
qed



end
