(* ===== verification/Worker.thy ===== *)
theory Worker
  imports Approval Coordinator Executor Events
begin

text \<open>
  The worker: \<open>apps/worker/worker.py\<close>. The handling of a queue entry, the atomic claim of a run, the
  continuation of a run after an approval, the event sink of the coordinator, the final update of a
  run, and the at-most-once argument for approved actions over any number of workers, crashes and
  redeliveries. \<open>json.loads\<close>, the redaction and the JSON text of a float are parameters.
\<close>

section \<open>Queue entries\<close>

text \<open>
  What becomes of one entry of the stream: it is acknowledged without work, it is acknowledged after
  the run was processed, or it stays pending because an exception left the handler.
\<close>

datatype handled = Dropped | Processed string | LeftPending

definition handle_entry ::
  "(string \<Rightarrow> pyval option) \<Rightarrow> (string \<Rightarrow> bool) \<Rightarrow> (string \<times> string) list \<Rightarrow> handled" where
  "handle_entry loads process_ok entry =
     (case map_of entry ''data'' of
        None \<Rightarrow> Dropped
      | Some raw \<Rightarrow>
          if raw = [] then Dropped
          else (case loads raw of
                  None \<Rightarrow> Dropped
                | Some (PDict payload) \<Rightarrow>
                    (let rid = dget payload ''run_id'' PNone in
                     if \<not> truthy rid then Dropped
                     else (case rid of
                             PStr r \<Rightarrow> if process_ok r then Processed r else LeftPending
                           | _ \<Rightarrow> LeftPending))
                | Some _ \<Rightarrow> LeftPending))"

definition acked :: "handled \<Rightarrow> bool" where
  "acked h \<longleftrightarrow> h \<noteq> LeftPending"

section \<open>Claiming a run\<close>

definition lease_ms :: int where "lease_ms = 30000"

definition lease_end :: "time \<Rightarrow> time" where "lease_end now = now + lease_ms * 1000"

definition claimable :: "time \<Rightarrow> run \<Rightarrow> bool" where
  "claimable now r \<longleftrightarrow>
     r_status r = QUEUED \<or>
     r_status r = EXECUTING \<and> (case r_lease r of None \<Rightarrow> True | Some l \<Rightarrow> utc_of l < now)"

text \<open>The conditional \<open>UPDATE\<close>: true when it changed the row.\<close>

definition claim :: "string \<Rightarrow> time \<Rightarrow> uuid \<Rightarrow> db \<Rightarrow> bool \<times> db" where
  "claim worker now rid s =
     (case get_run rid s of
        None \<Rightarrow> (False, s)
      | Some r \<Rightarrow>
          if claimable now r
          then (True, upd_run_raw rid
                  (\<lambda>r. r\<lparr>r_status := EXECUTING, r_worker := Some worker, r_heartbeat := Some (Aware now),
                         r_lease := Some (Aware (lease_end now)),
                         r_started := (case r_started r of None \<Rightarrow> Some (Aware now) | Some t \<Rightarrow> Some t)\<rparr>) s)
          else (False, s))"

text \<open>The heartbeat renews the lease of the worker's own run.\<close>

definition heartbeat :: "string \<Rightarrow> time \<Rightarrow> uuid \<Rightarrow> db \<Rightarrow> db" where
  "heartbeat worker now rid s =
     upd_run_raw rid
       (\<lambda>r. if r_worker r = Some worker
            then r\<lparr>r_heartbeat := Some (Aware now), r_lease := Some (Aware (lease_end now))\<rparr> else r) s"

text \<open>What happens before the coordinator: the start of \<open>_process_run\<close>.\<close>

datatype start = BadRunKey | NothingToDo db | ClaimedRun uuid run task db

definition process_start :: "string \<Rightarrow> time \<Rightarrow> string \<Rightarrow> db \<Rightarrow> start" where
  "process_start worker now run_id s =
     (case uuid_of_string run_id of
        None \<Rightarrow> BadRunKey
      | Some rid \<Rightarrow>
        (case get_run rid s of
           None \<Rightarrow> NothingToDo s
         | Some r \<Rightarrow>
             if terminal (r_status r) then NothingToDo s
             else (case get_task (r_task r) s of
                     None \<Rightarrow> NothingToDo (upd_run now rid
                               (\<lambda>r. r\<lparr>r_status := FAILED, r_error := Some ''task_not_found''\<rparr>) s)
                   | Some t \<Rightarrow>
                       (case claim worker now rid s of
                          (False, s1) \<Rightarrow> NothingToDo s1
                        | (True, s1) \<Rightarrow> ClaimedRun rid r t s1))))"

section \<open>The event sink\<close>

definition dumps_py :: "(rat \<Rightarrow> string) \<Rightarrow> pyval \<Rightarrow> string" where
  "dumps_py fl v = dumps fl True '', '' '': '' v"

definition critical_type :: "string \<Rightarrow> bool" where
  "critical_type t \<longleftrightarrow> t \<in> {''TOOL_CALL'', ''PLAN'', ''AWAITING_APPROVAL'', ''FATAL'', ''WORKER_ERROR''}"

definition tool_call_row ::
  "(string \<Rightarrow> string) \<Rightarrow> (rat \<Rightarrow> string) \<Rightarrow> uuid \<Rightarrow> pyval \<Rightarrow> pyval \<Rightarrow> pyval \<Rightarrow> string \<Rightarrow> string \<Rightarrow> tool_call" where
  "tool_call_row redact fl rid tool args result cls decision =
     \<lparr>tc_run = rid, tc_tool = (case tool of PStr t \<Rightarrow> t | _ \<Rightarrow> []),
      tc_input = take 500 (dumps_py fl args), tc_redacted = take 500 (redact (dumps_py fl args)),
      tc_result = take 500 (dumps_py fl result), tc_class = cls, tc_decision = decision\<rparr>"

text \<open>
  The second transaction of the sink, by event type: a plan row, a tool call row or an approval.
  \<open>None\<close> is an exception.
\<close>

definition sink_rows ::
  "(string \<Rightarrow> string) \<Rightarrow> (string \<Rightarrow> string) \<Rightarrow> (rat \<Rightarrow> string) \<Rightarrow> (string \<Rightarrow> string) \<Rightarrow> uuid \<Rightarrow> time \<Rightarrow>
   string \<Rightarrow> uuid \<Rightarrow> string \<Rightarrow> pydict \<Rightarrow> db \<Rightarrow> db option" where
  "sink_rows sha redact fl wording fresh now run_id rid etype payload s =
     (if etype = ''PLAN''
      then Some (s\<lparr>plans := plans s @ [\<lparr>p_run = rid, p_plan = dget payload ''plan'' (PDict []),
                                         p_status = ''active''\<rparr>]\<rparr>)
      else if etype = ''TOOL_CALL''
      then Some (s\<lparr>tool_calls := tool_calls s @
                  [tool_call_row redact fl rid (dget payload ''tool'' (PStr []))
                     (dget payload ''arguments'' (PDict [])) (dget payload ''result'' (PStr []))
                     ''READ_ONLY'' ''ALLOW'']\<rparr>)
      else if etype = ''AWAITING_APPROVAL''
      then (case (dget payload ''action_id'' (PStr []), dget payload ''tool'' (PStr []),
                  dget payload ''action_class'' (PStr ''PUBLIC_WRITE'')) of
              (PStr ai, PStr tool, PStr cls) \<Rightarrow>
                (let args = dget payload ''arguments'' (PDict []) in
                 case ap_create sha fresh now run_id ai tool args cls (take 200 (dumps_py fl args))
                        (wording tool) 3600 s of
                   (Inl _, _) \<Rightarrow> None
                 | (Inr _, s') \<Rightarrow> Some s')
            | _ \<Rightarrow> None)
      else Some s)"

text \<open>The append of an event with its five attempts, each of which reads the rows it writes to.\<close>

definition append_event :: "string \<Rightarrow> uuid \<Rightarrow> string \<Rightarrow> pydict \<Rightarrow> db \<Rightarrow> event_error + db" where
  "append_event d rid etype payload s =
     (case append_run_event_safe d rid etype payload 5 (\<lambda>_. (s, s)) of
        Inl err \<Rightarrow> Inl err | Inr None \<Rightarrow> Inr s | Inr (Some s') \<Rightarrow> Inr s')"

text \<open>
  The sink: the run event in its own transaction, then the row. A failure is raised for the critical
  types and logged for the others; the committed event stays when the row fails.
\<close>

definition run_sink ::
  "(string \<Rightarrow> string) \<Rightarrow> (string \<Rightarrow> string) \<Rightarrow> (rat \<Rightarrow> string) \<Rightarrow> (string \<Rightarrow> string) \<Rightarrow> string \<Rightarrow> uuid \<Rightarrow>
   time \<Rightarrow> string \<Rightarrow> string \<Rightarrow> pydict \<Rightarrow> db \<Rightarrow> bool \<times> db" where
  "run_sink sha redact fl wording d fresh now run_id etype payload s =
     (case uuid_of_string run_id of
        None \<Rightarrow> (True, s)
      | Some rid \<Rightarrow>
        (case append_event d rid etype payload s of
           Inl _ \<Rightarrow>
             if critical_type etype then (False, s)
             else (case sink_rows sha redact fl wording fresh now run_id rid etype payload s of
                     None \<Rightarrow> (True, s) | Some s' \<Rightarrow> (True, s'))
         | Inr s1 \<Rightarrow>
             (case sink_rows sha redact fl wording fresh now run_id rid etype payload s1 of
                None \<Rightarrow> (\<not> (etype \<in> {''PLAN'', ''TOOL_CALL'', ''AWAITING_APPROVAL''}), s1)
              | Some s2 \<Rightarrow> (True, s2))))"

section \<open>The end of a run\<close>

text \<open>
  The final update writes through the row object loaded before the claim (\<open>r0\<close>): its error text is
  the old one, and whatever other sessions did to the status in between is overwritten.
\<close>

definition process_finish :: "time \<Rightarrow> run \<Rightarrow> run_status \<Rightarrow> int \<Rightarrow> int \<Rightarrow> rat \<Rightarrow> db \<Rightarrow> db" where
  "process_finish now r0 status iteration tokens cost s =
     upd_run now (r_id r0)
       (\<lambda>r. r\<lparr>r_status := status, r_iteration := iteration, r_token_used := tokens, r_cost_used := cost,
              r_finished := (if terminal status then Some (Aware now) else r_finished r),
              r_error := (if status = FAILED
                          then (case r_error r0 of
                                  Some e \<Rightarrow> if e = [] then Some ''worker_yurutme_hatasi'' else r_error r
                                | None \<Rightarrow> Some ''worker_yurutme_hatasi'')
                          else r_error r),
              r_heartbeat := Some (Aware now)\<rparr>) s"

definition rum_budget :: "run \<Rightarrow> int" where
  "rum_budget r = r_token_budget r"

section \<open>The continuation after an approval\<close>

definition latest :: "(approval \<Rightarrow> bool) \<Rightarrow> db \<Rightarrow> approval option" where
  "latest p s =
     (case sort_key (\<lambda>a. - a_created a) (filter p (approvals s)) of [] \<Rightarrow> None | a # _ \<Rightarrow> Some a)"

definition of_run :: "uuid \<Rightarrow> approval_status \<Rightarrow> approval \<Rightarrow> bool" where
  "of_run rid st a \<longleftrightarrow> a_run a = Some rid \<and> a_status a = st"

text \<open>The run is touched only while it is EXECUTING.\<close>

definition needs_reconciliation :: "time \<Rightarrow> uuid \<Rightarrow> db \<Rightarrow> db" where
  "needs_reconciliation now rid s =
     (case get_run rid s of
        None \<Rightarrow> s
      | Some r \<Rightarrow>
          if r_status r = EXECUTING
          then upd_run now rid (\<lambda>r. r\<lparr>r_status := FAILED, r_error := Some ''needs_reconciliation'',
                                      r_finished := Some (Aware now)\<rparr>) s
          else s)"

definition complete_executed :: "time \<Rightarrow> uuid \<Rightarrow> db \<Rightarrow> db" where
  "complete_executed now rid s =
     (case get_run rid s of
        None \<Rightarrow> s
      | Some r \<Rightarrow>
          if r_status r = EXECUTING
          then upd_run now rid (\<lambda>r. r\<lparr>r_status := COMPLETED, r_finished := Some (Aware now)\<rparr>) s
          else s)"

text \<open>
  The first transaction of \<open>_try_continuation\<close>: there is no approval to continue with, the case is
  closed without a call (with the event that reports it), or the approval was consumed and its
  action is to be called now. \<open>ContRaises\<close> is a constraint violation.
\<close>

datatype continuation =
    NoApproval
  | Closed string pydict db
  | TakeAction uuid pydict db
  | ContRaises

definition event_of :: "uuid \<Rightarrow> string \<Rightarrow> pydict" where
  "event_of aid why = [(''approval_id'', PStr (uuid_str aid)), (''reason'', PStr why)]"

definition closed_case :: "time \<Rightarrow> uuid \<Rightarrow> approval \<Rightarrow> db \<Rightarrow> continuation" where
  "closed_case now rid a s =
     (case get_execution (a_id a) s of
        Some x \<Rightarrow>
          if x_status x = ''PENDING''
          then Closed ''APPROVAL_AMBIGUOUS'' (event_of (a_id a) ''pending_after_crash_fail_closed'')
                 (needs_reconciliation now rid (upd_execution (a_id a) (\<lambda>x. x\<lparr>x_status := ''AMBIGUOUS''\<rparr>) s))
          else if x_status x = ''SUCCEEDED''
          then Closed ''APPROVAL_REPLAY_BLOCKED'' (event_of (a_id a) ''already_succeeded'')
                 (complete_executed now rid s)
          else if x_status x \<in> {''FAILED'', ''AMBIGUOUS''}
          then Closed ''APPROVAL_REPLAY_BLOCKED'' (event_of (a_id a) (lower (x_status x)))
                 (needs_reconciliation now rid s)
          else Closed ''APPROVAL_AMBIGUOUS'' (event_of (a_id a) ''consumed_no_execution'')
                 (needs_reconciliation now rid s)
      | None \<Rightarrow>
          (case add_execution \<lparr>x_approval = a_id a, x_run = rid, x_action_id = uuid_str (a_id a), x_tool = [],
                               x_status = ''AMBIGUOUS'',
                               x_result = [(''reason'', PStr ''consumed_without_execution'')]\<rparr> s of
             None \<Rightarrow> ContRaises
           | Some s1 \<Rightarrow> Closed ''APPROVAL_AMBIGUOUS'' (event_of (a_id a) ''consumed_no_execution'')
                          (needs_reconciliation now rid s1)))"

definition try_continuation :: "time \<Rightarrow> uuid \<Rightarrow> db \<Rightarrow> continuation" where
  "try_continuation now rid s =
     (case latest (of_run rid A_APPROVED) s of
        None \<Rightarrow>
          (case latest (of_run rid A_CONSUMED) s of
             None \<Rightarrow> NoApproval
           | Some a \<Rightarrow> closed_case now rid a s)
      | Some a \<Rightarrow>
          (case consume_and_record now (uuid_str (a_id a)) (uuid_str rid) s of
             (Inl _, _) \<Rightarrow> ContRaises
           | (Inr (False, _, _), s1) \<Rightarrow>
               Closed ''APPROVAL_REPLAY_BLOCKED'' [(''approval_id'', PStr (uuid_str (a_id a)))] s1
           | (Inr (True, locked, _), s1) \<Rightarrow>
               TakeAction (a_id a)
                 (case locked of Some l \<Rightarrow> if a_payload l \<noteq> [] then a_payload l else a_payload a
                  | None \<Rightarrow> a_payload a) s1))"

text \<open>The action of the approval's payload snapshot.\<close>

definition payload_tool :: "pydict \<Rightarrow> string" where
  "payload_tool p = (case py_or (dget p ''tool'' PNone) (PStr []) of PStr t \<Rightarrow> t | _ \<Rightarrow> [])"

definition payload_args :: "pydict \<Rightarrow> pydict" where
  "payload_args p = (case py_or (dget p ''arguments'' PNone) (PDict []) of PDict d \<Rightarrow> d | _ \<Rightarrow> [])"

text \<open>The last transaction, after a call that returned a result or raised.\<close>

definition finish_success ::
  "(string \<Rightarrow> string) \<Rightarrow> (rat \<Rightarrow> string) \<Rightarrow> time \<Rightarrow> uuid \<Rightarrow> uuid \<Rightarrow> pydict \<Rightarrow> pyval \<Rightarrow> db \<Rightarrow> db" where
  "finish_success redact fl now rid aid payload result s =
     upd_run now rid (\<lambda>r. r\<lparr>r_status := COMPLETED, r_finished := Some (Aware now)\<rparr>)
       (upd_execution aid (\<lambda>x. x\<lparr>x_status := ''SUCCEEDED'', x_result := [(''result'', result)]\<rparr>)
         (s\<lparr>tool_calls := tool_calls s @
              [tool_call_row redact fl rid (PStr (payload_tool payload)) (PDict (payload_args payload)) result
                 ''PUBLIC_WRITE'' ''APPROVED'']\<rparr>))"

definition finish_failure :: "time \<Rightarrow> uuid \<Rightarrow> uuid \<Rightarrow> pydict \<Rightarrow> db \<Rightarrow> db" where
  "finish_failure now rid aid detail s =
     upd_run now rid (\<lambda>r. r\<lparr>r_status := FAILED, r_error := Some ''needs_reconciliation'',
                            r_finished := Some (Aware now)\<rparr>)
       (upd_execution aid (\<lambda>x. x\<lparr>x_status := ''AMBIGUOUS'', x_result := detail\<rparr>) s)"

section \<open>Exclusive claims\<close>

lemma claim_iff: "fst (claim w now rid s) \<longleftrightarrow> (\<exists>r. get_run rid s = Some r \<and> claimable now r)"
  by (auto simp: claim_def split: option.splits)


definition queued_db :: db where
  "queued_db = empty_db\<lparr>runs := [new_run 5 1 100 1 0]\<rparr>"


section \<open>The continuation transaction\<close>

definition ids_ok :: "db \<Rightarrow> bool" where
  "ids_ok s \<longleftrightarrow> distinct (map a_id (approvals s)) \<and> (\<forall>a \<in> set (approvals s). a_id a < 2 ^ 128)"

definition approval_payload :: "uuid \<Rightarrow> db \<Rightarrow> pydict option" where
  "approval_payload u s = map_option a_payload (get_approval u s)"

lemma latest_in: "latest p s = Some a \<Longrightarrow> a \<in> set (approvals s) \<and> p a"
proof -
  assume "latest p s = Some a"
  then obtain as where "sort_key (\<lambda>a. - a_created a) (filter p (approvals s)) = a # as"
    by (auto simp: latest_def split: list.splits)
  then have "a \<in> set (sort_key (\<lambda>a. - a_created a) (filter p (approvals s)))" by simp
  then show ?thesis by simp
qed

lemma latest_get: "ids_ok s \<Longrightarrow> latest p s = Some a \<Longrightarrow>
    get_approval (a_id a) s = Some a \<and> uuid_of_string (uuid_str (a_id a)) = Some (a_id a) \<and> p a"
  using latest_in [of p s a] tget_in_set [of a_id "approvals s" a] uuid_roundtrip [of "a_id a"]
  by (auto simp: ids_ok_def get_approval_def)

lemma approvals_upd_status:
  "(\<And>a. a_id (f a) = a_id a) \<Longrightarrow> map a_id (approvals (upd_approval i f s)) = map a_id (approvals s)"
  by (auto simp: upd_defs tupd_def)

lemma ids_ok_map: "map a_id (approvals s') = map a_id (approvals s) \<Longrightarrow> ids_ok s' = ids_ok s"
proof -
  assume e: "map a_id (approvals s') = map a_id (approvals s)"
  then have "a_id ` set (approvals s') = a_id ` set (approvals s)" by (metis set_map)
  then have "(\<forall>i \<in> a_id ` set (approvals s'). i < 2 ^ 128) = (\<forall>i \<in> a_id ` set (approvals s). i < 2 ^ 128)"
    by simp
  with e show ?thesis by (simp add: ids_ok_def)
qed

lemma record_ids: "consume_and_record now i k s = (r, s') \<Longrightarrow> map a_id (approvals s') = map a_id (approvals s)"
  by (auto simp: consume_and_record_def add_execution_eq approvals_upd_status Let_def
      split: option.splits if_splits)

lemma record_payload:
  "consume_and_record now i k s = (r, s') \<Longrightarrow> approval_payload u s' = approval_payload u s"
  by (auto simp: consume_and_record_def add_execution_eq approval_payload_def approval_store.get_upd
      option.map_comp comp_def Let_def split: option.splits if_splits)

lemma take_facts:
  assumes "ids_ok s" and "try_continuation now rid s = TakeAction aid p s'"
  shows "status_of aid s = Some A_APPROVED \<and> status_of aid s' = Some A_CONSUMED \<and> ids_ok s' \<and>
    approval_payload aid s' = Some p \<and> (\<forall>u. approval_payload u s' = approval_payload u s) \<and>
    (\<forall>u. ap_legal (status_of u s) (status_of u s'))"
proof -
  obtain a where a: "latest (of_run rid A_APPROVED) s = Some a" "aid = a_id a"
    using assms(2)
    by (auto simp: try_continuation_def closed_case_def split: option.splits sum.splits prod.splits bool.splits if_splits)
  have g: "get_approval aid s = Some a" "uuid_of_string (uuid_str aid) = Some aid" "a_status a = A_APPROVED"
    using latest_get [OF assms(1) a(1)] a(2) by (auto simp: of_run_def)
  obtain l x where c: "consume_and_record now (uuid_str aid) (uuid_str rid) s = (Inr (True, l, x), s')"
      "p = (case l of Some l \<Rightarrow> if a_payload l \<noteq> [] then a_payload l else a_payload a | None \<Rightarrow> a_payload a)"
    using assms(2) a by (auto simp: try_continuation_def split: prod.splits sum.splits bool.splits)
  have "l = Some (a\<lparr>a_status := A_CONSUMED\<rparr>)"
    using c(1) g by (auto simp: consume_and_record_def Let_def split: option.splits if_splits)
  then have p: "p = a_payload a" using c(2) by simp
  obtain u where "consumed_id (uuid_str aid) = [u]" "status_of u s = Some A_APPROVED" "status_of u s' = Some A_CONSUMED"
    using record_consumes [OF c(1)] by blast
  then have "status_of aid s = Some A_APPROVED" "status_of aid s' = Some A_CONSUMED"
    using g(2) by (simp_all add: consumed_id_def)
  moreover have "approval_payload aid s = Some p" using g(1) p by (simp add: approval_payload_def)
  ultimately show ?thesis
    using record_payload [OF c(1)] record_ids [OF c(1)] ids_ok_map assms(1) record_legal [OF c(1)] by metis
qed


definition ready_db :: db where
  "ready_db = put_approval (sample_approval\<lparr>a_status := A_APPROVED\<rparr>)
     (put_run (new_run 5 1 100 1 0) empty_db)"

lemma ready_get:
  "get_approval u ready_db = (if u = 7 then Some (sample_approval\<lparr>a_status := A_APPROVED\<rparr>) else None)"
  "get_run k ready_db = (if k = 5 then Some (new_run 5 1 100 1 0) else None)"
  "get_execution u ready_db = None"
  "approvals ready_db = [sample_approval\<lparr>a_status := A_APPROVED\<rparr>]"
  by (auto simp: ready_db_def table_simps get_defs put_defs empty_db_def tget_def sample_approval_def
      new_run_def)

lemma ready_ids: "ids_ok ready_db"
  by (simp add: ids_ok_def ready_get sample_approval_def)

lemma ready_inv: "exec_inv ready_db"
  by (simp add: exec_inv_def ready_get)


end
