(* ===== verification/Cluster.thy ===== *)
theory Cluster
  imports Worker
begin

text \<open>
  Any number of workers over one database, as a step relation: claims, the transactions of the
  continuation, the external call of an approved action, crashes at every point, calls of the
  approval service by anybody, and every other change of the database that leaves the approval rows
  alone (the coordinator's rows, the scheduler, the API). \<open>sy_calls\<close> is the record of the external
  calls: approval, tool and arguments.
\<close>

datatype pc =
    Idle
  | Claimed uuid
  | Holding uuid uuid pydict
  | Returned uuid uuid pydict

record sys =
  sy_db :: db
  sy_pc :: "nat \<Rightarrow> pc"
  sy_calls :: "(uuid \<times> string \<times> pydict) list"

definition fresh_ok :: "ap_op \<Rightarrow> bool" where
  "fresh_ok op \<longleftrightarrow> (case op of ApCreate f _ _ _ _ _ _ _ _ _ \<Rightarrow> f < 2 ^ 128 | _ \<Rightarrow> True)"

definition approvals_kept :: "db \<Rightarrow> db \<Rightarrow> bool" where
  "approvals_kept s s' \<longleftrightarrow> approvals s' = approvals s"

inductive wstep :: "(string \<Rightarrow> string) \<Rightarrow> sys \<Rightarrow> sys \<Rightarrow> bool" for sha where
  claims: "sy_pc S w = Idle \<Longrightarrow> claim name now rid (sy_db S) = (True, s') \<Longrightarrow>
    wstep sha S (S\<lparr>sy_db := s', sy_pc := (sy_pc S)(w := Claimed rid)\<rparr>)"
| plans_anew: "sy_pc S w = Claimed rid \<Longrightarrow> try_continuation now rid (sy_db S) = NoApproval \<Longrightarrow>
    wstep sha S (S\<lparr>sy_pc := (sy_pc S)(w := Idle)\<rparr>)"
| closes: "sy_pc S w = Claimed rid \<Longrightarrow> try_continuation now rid (sy_db S) = Closed t p s' \<Longrightarrow>
    wstep sha S (S\<lparr>sy_db := s', sy_pc := (sy_pc S)(w := Idle)\<rparr>)"
| takes: "sy_pc S w = Claimed rid \<Longrightarrow> try_continuation now rid (sy_db S) = TakeAction aid p s' \<Longrightarrow>
    wstep sha S (S\<lparr>sy_db := s', sy_pc := (sy_pc S)(w := Holding rid aid p)\<rparr>)"
| calls: "sy_pc S w = Holding rid aid p \<Longrightarrow>
    wstep sha S (S\<lparr>sy_calls := sy_calls S @ [(aid, payload_tool p, payload_args p)],
                  sy_pc := (sy_pc S)(w := Returned rid aid p)\<rparr>)"
| succeeds: "sy_pc S w = Returned rid aid p \<Longrightarrow>
    wstep sha S (S\<lparr>sy_db := finish_success redact fl now rid aid p result (sy_db S),
                  sy_pc := (sy_pc S)(w := Idle)\<rparr>)"
| fails: "sy_pc S w = Returned rid aid p \<Longrightarrow>
    wstep sha S (S\<lparr>sy_db := finish_failure now rid aid detail (sy_db S), sy_pc := (sy_pc S)(w := Idle)\<rparr>)"
| crashes: "wstep sha S (S\<lparr>sy_pc := (sy_pc S)(w := Idle)\<rparr>)"
| serves: "fresh_ok (fst op) \<Longrightarrow> wstep sha S (S\<lparr>sy_db := ap_step sha op (sy_db S)\<rparr>)"
| others: "approvals_kept (sy_db S) s' \<Longrightarrow> wstep sha S (S\<lparr>sy_db := s'\<rparr>)"

section \<open>What the transactions keep\<close>

text \<open>\<open>keeps\<close>: identifiers stay well formed, statuses move legally, payloads never change.\<close>

definition keeps :: "db \<Rightarrow> db \<Rightarrow> bool" where
  "keeps s s' \<longleftrightarrow>
     (ids_ok s \<longrightarrow> ids_ok s') \<and>
     (\<forall>u. ap_legal (status_of u s) (status_of u s')) \<and>
     (\<forall>u p. approval_payload u s = Some p \<longrightarrow> approval_payload u s' = Some p)"

lemma keeps_same: "approvals s' = approvals s \<Longrightarrow> keeps s s'"
  by (simp add: keeps_def ids_ok_def status_of_def approval_payload_def get_approval_def)

lemma keeps_consumed: "keeps s s' \<Longrightarrow> status_of u s = Some A_CONSUMED \<Longrightarrow> status_of u s' = Some A_CONSUMED"
  using legal_consumed unfolding keeps_def by metis

lemma approvals_needs_reconciliation [simp]: "approvals (needs_reconciliation now rid s) = approvals s"
  by (simp add: needs_reconciliation_def split: option.split)

lemma approvals_complete_executed [simp]: "approvals (complete_executed now rid s) = approvals s"
  by (simp add: complete_executed_def split: option.split)

lemma approvals_claim: "claim w now rid s = (b, s') \<Longrightarrow> approvals s' = approvals s"
  by (auto simp: claim_def split: option.splits if_splits)

lemma approvals_finish [simp]:
  "approvals (finish_success redact fl now rid aid p result s) = approvals s"
  "approvals (finish_failure now rid aid detail s) = approvals s"
  by (simp_all add: finish_success_def finish_failure_def)

lemma closed_case_approvals: "closed_case now rid a s = Closed t p s' \<Longrightarrow> approvals s' = approvals s"
  by (auto simp: closed_case_def add_execution_eq split: option.splits if_splits)

lemma record_keeps: "consume_and_record now i k s = (r, s') \<Longrightarrow> keeps s s'"
  using record_ids [of now i k s r s'] ids_ok_map record_payload [of now i k s r s']
    record_legal [of now i k s r s']
  unfolding keeps_def by (metis (no_types, lifting))

lemma closed_keeps: "try_continuation now rid s = Closed t p s' \<Longrightarrow> keeps s s'"
  using closed_case_approvals record_keeps keeps_same
  by (fastforce simp: try_continuation_def split: option.splits sum.splits prod.splits bool.splits)

lemma take_keeps: "try_continuation now rid s = TakeAction aid p s' \<Longrightarrow> keeps s s'"
proof -
  assume t: "try_continuation now rid s = TakeAction aid p s'"
  then obtain a where a: "latest (of_run rid A_APPROVED) s = Some a"
    by (auto simp: try_continuation_def closed_case_def
        split: option.splits sum.splits prod.splits bool.splits if_splits)
  obtain r s1 where c: "consume_and_record now (uuid_str (a_id a)) (uuid_str rid) s = (r, s1)"
    by fastforce
  then have "s1 = s'"
    using t a by (auto simp: try_continuation_def split: sum.splits prod.splits bool.splits)
  with c show ?thesis using record_keeps by blast
qed

lemma decide_ids:
  "ap_decide now i d w s = (r, s') \<Longrightarrow> map a_id (approvals s') = map a_id (approvals s)"
  by (auto simp: ap_decide_def approvals_upd_status split: option.splits if_splits)

lemma decide_payload:
  "ap_decide now i d w s = (r, s') \<Longrightarrow> approval_payload u s' = approval_payload u s"
  by (auto simp: ap_decide_def approval_payload_def approval_store.get_upd set_decision_def
      option.map_comp comp_def split: option.splits if_splits)

lemma continue_approvals: "ap_continue now d a s = (r, s') \<Longrightarrow> approvals s' = approvals s"
  by (auto simp: ap_continue_def add_outbox_eq Let_def split: option.splits if_splits)

lemma consume_ids:
  "ap_consume i s = (r, s') \<Longrightarrow>
   map a_id (approvals s') = map a_id (approvals s) \<and> approval_payload u s' = approval_payload u s"
  by (auto simp: ap_consume_def approvals_upd_status approval_payload_def approval_store.get_upd
      option.map_comp comp_def split: option.splits if_splits)

lemma ids_ok_put:
  "get_approval (a_id x) s = None \<Longrightarrow> a_id x < 2 ^ 128 \<Longrightarrow> ids_ok s \<Longrightarrow> ids_ok (put_approval x s)"
  unfolding ids_ok_def get_approval_def tget_None_iff by (simp add: put_defs)

lemma create_put:
  assumes "ap_create h f now k ai t ar c tg im ttl s = (r, s')"
  obtains "s' = s" | x where "a_id x = f" and "get_approval (a_id x) s = None" and "s' = put_approval x s"
proof -
  have "s' = s \<or> (\<exists>x. r = Inr x \<and> a_id x = f \<and> get_approval (a_id x) s = None \<and> s' = put_approval x s)"
    using assms by (simp add: ap_create_def Let_def add_approval_eq split: option.splits if_splits) auto
  with that show thesis by blast
qed

lemma create_ids:
  assumes "ap_create h f now k ai t ar c tg im ttl s = (r, s')" and "ids_ok s" and "f < 2 ^ 128"
  shows "ids_ok s'"
proof (rule create_put [OF assms(1)])
  fix x
  assume "a_id x = f" and "get_approval (a_id x) s = None" and "s' = put_approval x s"
  then show ?thesis using ids_ok_put [OF _ _ assms(2)] assms(3) by simp
qed (simp add: assms(2))

lemma create_payload:
  assumes "ap_create h f now k ai t ar c tg im ttl s = (r, s')" and "approval_payload u s = Some p"
  shows "approval_payload u s' = Some p"
  by (rule create_put [OF assms(1)]) (use assms(2) in \<open>auto simp: approval_payload_def get_put_approval\<close>)

lemma mark_approvals: "approvals (mark_execution_result i st r s) = approvals s"
  by (simp add: mark_execution_result_def split: option.split)

lemma keepsI:
  assumes "map a_id (approvals s') = map a_id (approvals s)" and "\<And>u. ap_legal (status_of u s) (status_of u s')"
    and "\<And>u. approval_payload u s' = approval_payload u s"
  shows "keeps s s'"
  using ids_ok_map [OF assms(1)] assms(2,3) by (simp add: keeps_def)

lemma exec_keeps:
  assumes "fresh_ok op"
  shows "keeps s (snd (ap_exec h op s))"
proof (cases op)
  case (ApCreate f now k ai t ar c tg im ttl)
  obtain r s' where c: "ap_create h f now k ai t ar c tg im ttl s = (r, s')" by fastforce
  have "snd (ap_exec h op s) = s'" using ApCreate c by (simp split: sum.split)
  moreover have "f < 2 ^ 128" using assms ApCreate by (simp add: fresh_ok_def)
  ultimately show ?thesis
    using create_ids [OF c] create_payload [OF c] create_legal [OF c] by (simp add: keeps_def)
next
  case (ApDecide now i d w)
  obtain r s1 where r: "ap_decide now i d w s = (r, s1)" by fastforce
  have k1: "keeps s s1"
    by (rule keepsI) (use decide_ids [OF r] decide_payload [OF r] decide_legal [OF r] in simp_all)
  show ?thesis
  proof (cases r)
    case (Inl e)
    then show ?thesis using ApDecide r k1 by (simp add: decide_with_continuation_def)
  next
    case (Inr a)
    obtain r2 s2 where c: "ap_continue now d a s1 = (r2, s2)" by fastforce
    have "snd (ap_exec h op s) = s2"
      using ApDecide r Inr c by (simp add: decide_with_continuation_def split: sum.split)
    moreover have "keeps s s2"
      using k1 continue_approvals [OF c]
      by (simp add: keeps_def ids_ok_def status_of_def approval_payload_def get_approval_def)
    ultimately show ?thesis by simp
  qed
next
  case (ApConsume i)
  obtain b s' where c: "ap_consume i s = (b, s')" by fastforce
  have "keeps s s'" by (rule keepsI) (use consume_ids [OF c] consume_legal [OF c] in simp_all)
  then show ?thesis using ApConsume c by simp
next
  case (ApRecord now i k)
  obtain r s' where c: "consume_and_record now i k s = (r, s')" by fastforce
  have "snd (ap_exec h op s) = s'" using ApRecord c by (simp split: sum.split prod.split)
  then show ?thesis using record_keeps [OF c] by simp
next
  case (ApMark i st r)
  then show ?thesis by (simp add: keeps_same mark_approvals)
qed

section \<open>At most one call per approval\<close>

definition used :: "sys \<Rightarrow> uuid set" where
  "used S = fst ` set (sy_calls S)"

definition safe :: "sys \<Rightarrow> bool" where
  "safe S \<longleftrightarrow>
     ids_ok (sy_db S) \<and> distinct (map fst (sy_calls S)) \<and>
     (\<forall>(aid, t, args) \<in> set (sy_calls S). status_of aid (sy_db S) = Some A_CONSUMED \<and>
        (\<exists>p. approval_payload aid (sy_db S) = Some p \<and> t = payload_tool p \<and> args = payload_args p)) \<and>
     (\<forall>w rid aid p. sy_pc S w = Holding rid aid p \<longrightarrow>
        status_of aid (sy_db S) = Some A_CONSUMED \<and> approval_payload aid (sy_db S) = Some p \<and>
        aid \<notin> used S) \<and>
     (\<forall>w w' rid rid' aid p p'. sy_pc S w = Holding rid aid p \<and> sy_pc S w' = Holding rid' aid p' \<longrightarrow> w = w')"

text \<open>The database may change as \<open>keeps\<close> says, and workers may drop what they hold.\<close>

lemma safeD:
  assumes "safe S"
  shows "ids_ok (sy_db S)" "distinct (map fst (sy_calls S))"
    "(aid, t, args) \<in> set (sy_calls S) \<Longrightarrow> status_of aid (sy_db S) = Some A_CONSUMED"
    "(aid, t, args) \<in> set (sy_calls S) \<Longrightarrow>
       \<exists>p. approval_payload aid (sy_db S) = Some p \<and> t = payload_tool p \<and> args = payload_args p"
    "sy_pc S w = Holding rid aid p \<Longrightarrow> status_of aid (sy_db S) = Some A_CONSUMED"
    "sy_pc S w = Holding rid aid p \<Longrightarrow> approval_payload aid (sy_db S) = Some p"
    "sy_pc S w = Holding rid aid p \<Longrightarrow> aid \<notin> used S"
    "sy_pc S w = Holding rid aid p \<Longrightarrow> sy_pc S w' = Holding rid' aid p' \<Longrightarrow> w = w'"
  using assms unfolding safe_def by blast+

lemma safeI:
  assumes "ids_ok (sy_db S)" and "distinct (map fst (sy_calls S))"
    and "\<And>aid t args. (aid, t, args) \<in> set (sy_calls S) \<Longrightarrow> status_of aid (sy_db S) = Some A_CONSUMED"
    and "\<And>aid t args. (aid, t, args) \<in> set (sy_calls S) \<Longrightarrow>
       \<exists>p. approval_payload aid (sy_db S) = Some p \<and> t = payload_tool p \<and> args = payload_args p"
    and "\<And>w rid aid p. sy_pc S w = Holding rid aid p \<Longrightarrow>
       status_of aid (sy_db S) = Some A_CONSUMED \<and> approval_payload aid (sy_db S) = Some p \<and> aid \<notin> used S"
    and "\<And>w w' rid rid' aid p p'. sy_pc S w = Holding rid aid p \<Longrightarrow> sy_pc S w' = Holding rid' aid p' \<Longrightarrow> w = w'"
  shows "safe S"
  unfolding safe_def using assms by (auto 0 0)

lemma keepsD:
  assumes "keeps s s'"
  shows "ids_ok s \<Longrightarrow> ids_ok s'" "approval_payload u s = Some p \<Longrightarrow> approval_payload u s' = Some p"
  using assms by (simp_all add: keeps_def)

lemma safe_keeps:
  assumes "safe S" and "keeps (sy_db S) s'"
    and "\<And>w rid aid p. f w = Holding rid aid p \<Longrightarrow> sy_pc S w = Holding rid aid p"
  shows "safe (S\<lparr>sy_db := s', sy_pc := f\<rparr>)"
proof (rule safeI, goal_cases)
  case 1 show ?case using safeD(1) [OF assms(1)] keepsD(1) [OF assms(2)] by simp
next
  case 2 show ?case using safeD(2) [OF assms(1)] by simp
next
  case (3 aid t args)
  then show ?case using safeD(3) [OF assms(1)] keeps_consumed [OF assms(2)] by simp
next
  case (4 aid t args)
  then show ?case using safeD(4) [OF assms(1), of aid t args] keepsD(2) [OF assms(2)] by auto
next
  case (5 w rid aid p)
  then have "sy_pc S w = Holding rid aid p" using assms(3) by simp
  from safeD(5,6,7) [OF assms(1) this] show ?case
    using keeps_consumed [OF assms(2)] keepsD(2) [OF assms(2)] by (simp add: used_def)
next
  case (6 w w' rid rid' aid p p')
  then show ?case using assms(3) safeD(8) [OF assms(1)] by simp
qed

text \<open>A worker taking up an action gets an approval nobody has called or holds.\<close>

lemma safe_takes:
  assumes S: "safe S" and t: "try_continuation now rid (sy_db S) = TakeAction aid p s'"
  shows "safe (S\<lparr>sy_db := s', sy_pc := (sy_pc S)(w := Holding rid aid p)\<rparr>)"
proof -
  have f: "status_of aid (sy_db S) = Some A_APPROVED" "status_of aid s' = Some A_CONSUMED"
    "approval_payload aid s' = Some p"
    using take_facts [OF safeD(1) [OF S] t] by blast+
  have k: "keeps (sy_db S) s'" using take_keeps [OF t] .
  have fresh: "aid \<notin> used S" using safeD(3) [OF S] f(1) by (fastforce simp: used_def)
  have other: "aid' \<noteq> aid" if "sy_pc S v = Holding rid' aid' p'" for v rid' aid' p'
    using safeD(5) [OF S that] f(1) by auto
  show ?thesis
  proof (rule safeI, goal_cases)
    case 1 show ?case using safeD(1) [OF S] keepsD(1) [OF k] by simp
  next
    case 2 show ?case using safeD(2) [OF S] by simp
  next
    case (3 i t args)
    then show ?case using safeD(3) [OF S] keeps_consumed [OF k] by simp
  next
    case (4 i t args)
    then show ?case using safeD(4) [OF S, of i t args] keepsD(2) [OF k] by auto
  next
    case (5 v r i q)
    show ?case
    proof (cases "v = w")
      case True then show ?thesis using 5 f fresh by (simp add: used_def)
    next
      case False
      then have h: "sy_pc S v = Holding r i q" using 5 by simp
      from safeD(5,6,7) [OF S h] show ?thesis
        using keeps_consumed [OF k] keepsD(2) [OF k] by (simp add: used_def)
    qed
  next
    case (6 v v' r r' i q q')
    then have "v \<noteq> w \<Longrightarrow> sy_pc S v = Holding r i q" "v' \<noteq> w \<Longrightarrow> sy_pc S v' = Holding r' i q'"
      "v = w \<Longrightarrow> i = aid" "v' = w \<Longrightarrow> i = aid" by (auto split: if_splits)
    then show ?case using other safeD(8) [OF S] by blast
  qed
qed

lemma safe_calls:
  assumes S: "safe S" and h: "sy_pc S w = Holding rid aid p"
  shows "safe (S\<lparr>sy_calls := sy_calls S @ [(aid, payload_tool p, payload_args p)],
                sy_pc := (sy_pc S)(w := Returned rid aid p)\<rparr>)"
proof (rule safeI, goal_cases)
  case 1 show ?case using safeD(1) [OF S] by simp
next
  case 2 show ?case using safeD(2) [OF S] safeD(7) [OF S h] by (simp add: used_def)
next
  case (3 i t args)
  then show ?case using safeD(3) [OF S] safeD(5) [OF S h] by auto
next
  case (4 i t args)
  then show ?case using safeD(4) [OF S] safeD(6) [OF S h] by auto
next
  case (5 v r i q)
  then have v: "v \<noteq> w" and hv: "sy_pc S v = Holding r i q" by (auto split: if_splits)
  have "i \<noteq> aid" using safeD(8) [OF S hv] h v by blast
  with safeD(5,6,7) [OF S hv] show ?case by (simp add: used_def)
next
  case (6 v v' r r' i q q')
  then have "sy_pc S v = Holding r i q" "sy_pc S v' = Holding r' i q'" by (auto split: if_splits)
  then show ?case using safeD(8) [OF S] by blast
qed

lemma safe_step: "wstep sha S S' \<Longrightarrow> safe S \<Longrightarrow> safe S'"
proof (induction rule: wstep.induct)
  case (claims S w name now rid s')
  show ?case
    by (rule safe_keeps [OF claims(3) keeps_same [OF approvals_claim [OF claims(2)]]]) (simp split: if_splits)
next
  case (plans_anew S w rid now)
  have "safe (S\<lparr>sy_db := sy_db S, sy_pc := (sy_pc S)(w := Idle)\<rparr>)"
    by (rule safe_keeps [OF plans_anew(3)]) (auto simp: keeps_same split: if_splits)
  then show ?case by simp
next
  case (closes S w rid now t p s')
  show ?case by (rule safe_keeps [OF closes(3) closed_keeps [OF closes(2)]]) (simp split: if_splits)
next
  case (takes S w rid now aid p s')
  then show ?case using safe_takes by blast
next
  case (calls S w rid aid p)
  then show ?case using safe_calls by blast
next
  case (succeeds S w rid aid p redact fl now result)
  show ?case by (rule safe_keeps [OF succeeds(2)]) (simp_all add: keeps_same split: if_splits)
next
  case (fails S w rid aid p now detail)
  show ?case by (rule safe_keeps [OF fails(2)]) (simp_all add: keeps_same split: if_splits)
next
  case (crashes S w)
  have "safe (S\<lparr>sy_db := sy_db S, sy_pc := (sy_pc S)(w := Idle)\<rparr>)"
    by (rule safe_keeps [OF crashes]) (auto simp: keeps_same split: if_splits)
  then show ?case by simp
next
  case (serves op S)
  have "keeps (sy_db S) (ap_step sha op (sy_db S))"
    using exec_keeps [OF serves(1)] by (simp add: ap_step_def keeps_same)
  from safe_keeps [OF serves(2) this, of "sy_pc S"] show ?case by simp
next
  case (others S s')
  from safe_keeps [OF others(2) keeps_same, of s' "sy_pc S"] others(1) show ?case
    by (simp add: approvals_kept_def)
qed

text \<open>The start: no worker is busy and nothing was called.\<close>

definition idle_sys :: "db \<Rightarrow> sys" where
  "idle_sys s = \<lparr>sy_db = s, sy_pc = (\<lambda>_. Idle), sy_calls = []\<rparr>"

lemma safe_idle: "ids_ok s \<Longrightarrow> safe (idle_sys s)"
  by (rule safeI) (simp_all add: idle_sys_def)

lemma safe_reach: "(wstep sha)\<^sup>*\<^sup>* S S' \<Longrightarrow> safe S \<Longrightarrow> safe S'"
  by (induction rule: rtranclp_induct) (simp_all add: safe_step)

lemmas safe_run = safe_reach [OF _ safe_idle]

text \<open>
  C1: the worker pool calls an approved action at most once. Whatever the workers, the operators
  and the rest of the system do and wherever workers crash, no approval occurs twice among the
  external calls, and each call runs the tool and the arguments of the payload its approval shows,
  an approval that is CONSUMED by then.
\<close>

theorem one_call_per_approval:
  assumes "ids_ok s" and "(wstep sha)\<^sup>*\<^sup>* (idle_sys s) S"
  shows "distinct (map fst (sy_calls S)) \<and>
    (\<forall>aid t args. (aid, t, args) \<in> set (sy_calls S) \<longrightarrow>
       (\<exists>p. approval_payload aid (sy_db S) = Some p \<and> t = payload_tool p \<and> args = payload_args p) \<and>
       status_of aid (sy_db S) = Some A_CONSUMED)"
  using safeD(2-4) [OF safe_run [OF assms(2,1)]] by blast

definition called_sys :: "db \<Rightarrow> sys" where
  "called_sys s = \<lparr>sy_db = s, sy_pc = (\<lambda>_. Idle)(0 := Returned 5 7 (a_payload sample_approval)),
     sy_calls = [(7, payload_tool (a_payload sample_approval), payload_args (a_payload sample_approval))]\<rparr>"

lemma ready_trace: "\<exists>s. (wstep sha)\<^sup>*\<^sup>* (idle_sys ready_db) (called_sys s)"
proof -
  obtain s1 where c: "claim ''w'' 10 5 ready_db = (True, s1)"
    by (simp add: claim_def ready_get claimable_def new_run_def)
  have a1: "approvals s1 = approvals ready_db" using approvals_claim [OF c] .
  have x1: "get_execution 7 s1 = None"
    using c by (auto simp: claim_def ready_get claimable_def new_run_def)
  obtain s2 where t: "try_continuation 20 5 s1 = TakeAction 7 (a_payload sample_approval) s2"
    using a1 x1
    by (simp add: try_continuation_def latest_def of_run_def ready_get sample_approval_def
        consume_and_record_def get_approval_def tget_def add_execution_eq new_execution_def
        expired_def uuid_roundtrip Let_def table_simps)
  let ?S1 = "\<lparr>sy_db = s1, sy_pc = (\<lambda>_. Idle)(0 := Claimed 5), sy_calls = []\<rparr>"
  let ?S2 = "\<lparr>sy_db = s2, sy_pc = (\<lambda>_. Idle)(0 := Holding 5 7 (a_payload sample_approval)), sy_calls = []\<rparr>"
  have "wstep sha (idle_sys ready_db) ?S1"
    using wstep.claims [of "idle_sys ready_db" 0 "''w''" 10 5 s1 sha] c by (simp add: idle_sys_def)
  moreover have "wstep sha ?S1 ?S2"
    using wstep.takes [of ?S1 0 5 20 7 "a_payload sample_approval" s2 sha] t by simp
  moreover have "wstep sha ?S2 (called_sys s2)"
    using wstep.calls [of ?S2 0 5 7 "a_payload sample_approval" sha] by (simp add: called_sys_def)
  ultimately show ?thesis by (meson converse_rtranclp_into_rtranclp r_into_rtranclp)
qed

theorem one_call_per_approval_witness:
  "\<exists>S. (wstep (\<lambda>x. x))\<^sup>*\<^sup>* (idle_sys ready_db) S \<and> map fst (sy_calls S) = [7] \<and>
     status_of 7 (sy_db S) = Some A_CONSUMED"
proof -
  obtain s where t: "(wstep (\<lambda>x. x))\<^sup>*\<^sup>* (idle_sys ready_db) (called_sys s)"
    using ready_trace by blast
  show ?thesis
    using one_call_per_approval [OF ready_ids t] t by (auto simp: called_sys_def)
qed

section \<open>The specification: a token per approval\<close>

text \<open>
  What the pool promises, without rows, runs or leases: the status of every approval, the tokens in
  the hands of workers and the calls made so far. A token is issued by the step that turns an
  APPROVED approval CONSUMED, and a call spends it.
\<close>

record tokens =
  t_status :: "uuid \<Rightarrow> approval_status option"
  t_held :: "uuid set"
  t_called :: "uuid list"

inductive tstep :: "tokens \<Rightarrow> tokens \<Rightarrow> bool" where
  decides: "\<forall>u. ap_legal (t_status T u) (st u) \<Longrightarrow> H \<subseteq> t_held T \<Longrightarrow>
    tstep T (T\<lparr>t_status := st, t_held := H\<rparr>)"
| issues: "t_status T u = Some A_APPROVED \<Longrightarrow> st u = Some A_CONSUMED \<Longrightarrow>
    \<forall>v. ap_legal (t_status T v) (st v) \<Longrightarrow> tstep T (T\<lparr>t_status := st, t_held := insert u (t_held T)\<rparr>)"
| spends: "u \<in> t_held T \<Longrightarrow>
    tstep T (T\<lparr>t_held := t_held T - {u}, t_called := t_called T @ [u]\<rparr>)"

definition held :: "(nat \<Rightarrow> pc) \<Rightarrow> uuid set" where
  "held f = {aid. \<exists>w rid p. f w = Holding rid aid p}"

definition tokens_of :: "sys \<Rightarrow> tokens" where
  "tokens_of S = \<lparr>t_status = (\<lambda>u. status_of u (sy_db S)), t_held = held (sy_pc S),
                  t_called = map fst (sy_calls S)\<rparr>"

lemma tokens_keeps:
  assumes "keeps (sy_db S) s'" and "held f \<subseteq> held (sy_pc S)"
  shows "tstep (tokens_of S) (tokens_of (S\<lparr>sy_db := s', sy_pc := f\<rparr>))"
  using tstep.decides [of "tokens_of S" "\<lambda>u. status_of u s'" "held f"] assms
  by (simp add: tokens_of_def keeps_def)

lemma held_drop: "(\<forall>r a p. c \<noteq> Holding r a p) \<Longrightarrow> held (f(w := c)) \<subseteq> held f"
  by (auto simp: held_def split: if_splits)

lemma held_take: "(\<forall>r a p. f w \<noteq> Holding r a p) \<Longrightarrow> held (f(w := Holding rid aid q)) = insert aid (held f)"
proof (intro set_eqI iffI)
  fix u
  assume free: "\<forall>r a p. f w \<noteq> Holding r a p" and "u \<in> insert aid (held f)"
  then show "u \<in> held (f(w := Holding rid aid q))"
    by (cases "u = aid") (use free in \<open>force simp: held_def\<close>)+
qed (auto simp: held_def split: if_splits)

lemma held_spend:
  assumes "safe S" and "sy_pc S w = Holding rid aid p"
  shows "held ((sy_pc S)(w := Returned rid aid p)) = held (sy_pc S) - {aid}"
proof (intro set_eqI iffI)
  fix u
  assume "u \<in> held ((sy_pc S)(w := Returned rid aid p))"
  then obtain v r q where v: "v \<noteq> w" "sy_pc S v = Holding r u q"
    by (auto simp: held_def split: if_splits)
  then have "u \<noteq> aid" using safeD(8) [OF assms(1) v(2)] assms(2) by blast
  with v show "u \<in> held (sy_pc S) - {aid}" by (auto simp: held_def)
next
  fix u
  assume "u \<in> held (sy_pc S) - {aid}"
  then obtain v r q where "sy_pc S v = Holding r u q" "u \<noteq> aid" by (auto simp: held_def)
  moreover from this have "v \<noteq> w" using assms(2) by auto
  ultimately show "u \<in> held ((sy_pc S)(w := Returned rid aid p))" by (auto simp: held_def)
qed

lemma refines_step: "wstep sha S S' \<Longrightarrow> safe S \<Longrightarrow> tstep (tokens_of S) (tokens_of S')"
proof (induction rule: wstep.induct)
  case (claims S w name now rid s')
  show ?case
    by (rule tokens_keeps [OF keeps_same [OF approvals_claim [OF claims(2)]]]) (rule held_drop, simp)
next
  case (plans_anew S w rid now)
  show ?case
    using tokens_keeps [where S = S and s' = "sy_db S" and f = "(sy_pc S)(w := Idle)"] held_drop
    by (simp add: keeps_same)
next
  case (closes S w rid now t p s')
  show ?case by (rule tokens_keeps [OF closed_keeps [OF closes(2)]]) (rule held_drop, simp)
next
  case (takes S w rid now aid p s')
  have "held ((sy_pc S)(w := Holding rid aid p)) = insert aid (held (sy_pc S))"
    by (rule held_take) (simp add: takes(1))
  then show ?case
    using tstep.issues [of "tokens_of S" aid "\<lambda>u. status_of u s'"] take_facts [OF safeD(1) [OF takes(3)] takes(2)]
    by (simp add: tokens_of_def)
next
  case (calls S w rid aid p)
  have "aid \<in> held (sy_pc S)" using calls(1) by (auto simp: held_def)
  then show ?case
    using tstep.spends [of aid "tokens_of S"] held_spend [OF calls(2,1)] by (simp add: tokens_of_def)
next
  case (succeeds S w rid aid p redact fl now result)
  show ?case by (rule tokens_keeps) (simp add: keeps_same, rule held_drop, simp)
next
  case (fails S w rid aid p now detail)
  show ?case by (rule tokens_keeps) (simp add: keeps_same, rule held_drop, simp)
next
  case (crashes S w)
  show ?case
    using tokens_keeps [where S = S and s' = "sy_db S" and f = "(sy_pc S)(w := Idle)"] held_drop
    by (simp add: keeps_same)
next
  case (serves op S)
  have "keeps (sy_db S) (ap_step sha op (sy_db S))"
    using exec_keeps [OF serves(1)] by (simp add: ap_step_def keeps_same)
  from tokens_keeps [OF this, where f = "sy_pc S"] show ?case by simp
next
  case (others S s')
  from tokens_keeps [where S = S and s' = s' and f = "sy_pc S"] others(1) show ?case
    by (simp add: approvals_kept_def keeps_same)
qed

text \<open>
  C5: the pool refines the token machine. Every run of the pool from a start with well formed rows
  is, seen through \<open>tokens_of\<close>, a run of the specification.
\<close>

theorem pool_refines_tokens:
  assumes "ids_ok s" and "(wstep sha)\<^sup>*\<^sup>* (idle_sys s) S"
  shows "tstep\<^sup>*\<^sup>* (tokens_of (idle_sys s)) (tokens_of S)"
  using assms(2)
proof (induction rule: rtranclp_induct)
  case (step S1 S2)
  then show ?case
    using refines_step [OF step(2) safe_run [OF step(1) assms(1)]] by (rule_tac rtranclp.rtrancl_into_rtrancl)
qed simp

theorem pool_refines_tokens_witness:
  "\<exists>s. tstep\<^sup>*\<^sup>* (tokens_of (idle_sys ready_db)) (tokens_of (called_sys s)) \<and>
     t_called (tokens_of (called_sys s)) = [7]"
proof -
  obtain s where t: "(wstep (\<lambda>x. x))\<^sup>*\<^sup>* (idle_sys ready_db) (called_sys s)"
    using ready_trace by blast
  show ?thesis
    using pool_refines_tokens [OF ready_ids t] by (auto simp: called_sys_def tokens_of_def)
qed

section \<open>A decision that comes too early\<close>

text \<open>
  The approval row is visible while its run is still EXECUTING. An approval given then does not touch
  the run, and the worker's final update parks it as WAITING_APPROVAL, where no claim succeeds.
\<close>

lemma early_approval_is_lost:
  assumes "decide_with_continuation now i ''approve'' w s = (Inr a, s1)"
    and "get_run rid s = Some r" and "r_status r = EXECUTING" and "r_id r0 = rid"
  shows "claim v t rid (process_finish now2 r0 WAITING_APPROVAL it tk c s1)
    = (False, process_finish now2 r0 WAITING_APPROVAL it tk c s1)"
  by (auto simp: claim_def process_finish_def get_upd_run claimable_def assms(4) split: option.splits)

end
