(* ===== verification/Planner.thy ===== *)
theory Planner
  imports Coordinator Executor
begin

text \<open>
  The planner: \<open>packages/agent_core/planner.py\<close>. The language model is a parameter that answers with
  a text and usage figures or raises; \<open>json.loads\<close> is the parameter \<open>loads\<close> (\<open>None\<close> when it
  raises). The validation of the parsed plan by the two Pydantic models is written out: the fields
  are strict about their types, ignore unknown keys and fall back to their defaults.
\<close>

definition KNOWN_TOOLS :: "string list" where
  "KNOWN_TOOLS =
     [''technocore_read'', ''github_repo_read'', ''http_json_read'', ''internal_health'',
      ''technocore_signed_write'']"

text \<open>The pattern \<open>^action_\d+$\<close>.\<close>

definition action_id_ok :: "string \<Rightarrow> bool" where
  "action_id_ok s \<longleftrightarrow>
     startswith s ''action_'' \<and> drop 7 s \<noteq> [] \<and> list_all is_digit (drop 7 s)"

text \<open>A field of type \<open>str\<close> and one of type \<open>list[str]\<close>, with their defaults.\<close>

definition str_field :: "pydict \<Rightarrow> string \<Rightarrow> string option \<Rightarrow> string option" where
  "str_field d k dflt = (case map_of d k of None \<Rightarrow> dflt | Some v \<Rightarrow> as_str v)"

fun all_strs :: "pyval list \<Rightarrow> string list option" where
  "all_strs [] = Some []"
| "all_strs (PStr s # vs) = map_option ((#) s) (all_strs vs)"
| "all_strs (_ # vs) = None"

definition strs_field :: "pydict \<Rightarrow> string \<Rightarrow> string list option" where
  "strs_field d k =
     (case map_of d k of None \<Rightarrow> Some [] | Some (PList vs) \<Rightarrow> all_strs vs | Some _ \<Rightarrow> None)"

definition parse_action :: "pyval \<Rightarrow> plan_action option" where
  "parse_action v =
     (case v of
        PDict d \<Rightarrow>
          (case (str_field d ''action_id'' None, str_field d ''tool'' None,
                 (case map_of d ''arguments'' of None \<Rightarrow> Some [] | Some (PDict a) \<Rightarrow> Some a | Some _ \<Rightarrow> None),
                 str_field d ''reason'' (Some []), strs_field d ''expected_evidence'',
                 str_field d ''action_class'' (Some ''READ_ONLY'')) of
             (Some i, Some t, Some a, Some r, Some ev, Some c) \<Rightarrow>
               if action_id_ok i \<and> t \<in> set KNOWN_TOOLS
               then Some \<lparr>pa_id = i, pa_tool = t, pa_args = a, pa_reason = r, pa_expected = ev, pa_class = c\<rparr>
               else None
           | _ \<Rightarrow> None)
      | _ \<Rightarrow> None)"

fun parse_actions :: "pyval list \<Rightarrow> plan_action list option" where
  "parse_actions [] = Some []"
| "parse_actions (v # vs) =
     (case (parse_action v, parse_actions vs) of (Some a, Some as) \<Rightarrow> Some (a # as) | _ \<Rightarrow> None)"

text \<open>\<open>TaskPlan(**parsed)\<close>: goal, assumptions, success criteria and 1 to 12 actions.\<close>

definition parse_plan :: "pydict \<Rightarrow> (string \<times> string list \<times> string list \<times> plan_action list) option" where
  "parse_plan d =
     (case (str_field d ''goal'' None, strs_field d ''assumptions'', strs_field d ''success_criteria'',
            (case map_of d ''actions'' of Some (PList vs) \<Rightarrow> parse_actions vs | _ \<Rightarrow> None)) of
        (Some g, Some as, Some cs, Some acts) \<Rightarrow>
          if 1 \<le> length acts \<and> length acts \<le> 12 then Some (g, as, cs, acts) else None
      | _ \<Rightarrow> None)"

section \<open>The plan\<close>

definition template_plan :: "pyval \<Rightarrow> run_plan" where
  "template_plan goal =
     \<lparr>pl_goal = goal, pl_assumptions = [], pl_criteria = [''evidence collected''],
      pl_actions = [Act \<lparr>pa_id = ''action_1'', pa_tool = ''internal_health'', pa_args = [],
                         pa_reason = ''Check internal service health'',
                         pa_expected = [''health status''], pa_class = ''READ_ONLY''\<rparr>],
      pl_tools = [], pl_usage = None\<rparr>"

definition strip_fence :: "string \<Rightarrow> string" where
  "strip_fence text =
     (let t = strip text in
      if startswith t ''```''
      then (let u = rstrip_by (\<lambda>c. c = CHR ''`'') (lstrip_by (\<lambda>c. c = CHR ''`'') t)
            in if startswith u ''json'' then drop 4 u else u)
      else t)"

text \<open>An action of the parsed list that reads a repository while no default repository is set.\<close>

definition unwanted_repo :: "string \<Rightarrow> pyval \<Rightarrow> bool" where
  "unwanted_repo default_repo v =
     (case v of
        PDict d \<Rightarrow> map_of d ''tool'' = Some (PStr ''github_repo_read'') \<and> default_repo = []
      | _ \<Rightarrow> False)"

definition repo_without_name :: "plan_action \<Rightarrow> bool" where
  "repo_without_name a \<longleftrightarrow>
     pa_tool a = ''github_repo_read'' \<and> \<not> truthy (dget (pa_args a) ''repo'' PNone)"

definition plan_from_dict :: "string \<Rightarrow> pyval \<Rightarrow> pydict \<Rightarrow> pydict \<Rightarrow> run_plan option" where
  "plan_from_dict default_repo goal usage parsed =
     (case parse_plan parsed of
        None \<Rightarrow> None
      | Some (g, as, cs, acts) \<Rightarrow>
          (let kept = filter (\<lambda>a. \<not> repo_without_name a) acts in
           if kept = [] then Some (template_plan goal)
           else Some \<lparr>pl_goal = PStr g, pl_assumptions = as, pl_criteria = cs,
                      pl_actions = map Act kept, pl_tools = [], pl_usage = Some usage\<rparr>))"

text \<open>\<open>None\<close>: some exception, after which the planner falls back.\<close>

definition plan_from_text ::
  "string \<Rightarrow> (string \<Rightarrow> pyval option) \<Rightarrow> pyval \<Rightarrow> pydict \<Rightarrow> string \<Rightarrow> run_plan option" where
  "plan_from_text default_repo loads goal usage text =
     (case loads (strip_fence text) of
        Some (PDict parsed) \<Rightarrow>
          (case map_of parsed ''actions'' of
             Some (PList vs) \<Rightarrow>
               (let vs' = filter (\<lambda>v. \<not> unwanted_repo default_repo v) vs in
                if vs' = [] then Some (template_plan goal)
                else plan_from_dict default_repo goal usage (dset ''actions'' (PList vs') parsed))
           | _ \<Rightarrow> plan_from_dict default_repo goal usage parsed)
      | _ \<Rightarrow> None)"

type_synonym chat = "string \<Rightarrow> string \<Rightarrow> (string + string \<times> pydict)"

record plan_task =
  pt_kind :: pyval
  pt_title :: string
  pt_prompt :: string

definition make_plan ::
  "string \<Rightarrow> (string \<Rightarrow> pyval option) \<Rightarrow> chat option \<Rightarrow> plan_task \<Rightarrow> run_plan" where
  "make_plan default_repo loads provider task =
     (let goal = pt_kind task in
      case provider of
        None \<Rightarrow> template_plan goal
      | Some chat \<Rightarrow>
          (case chat (pt_title task) (pt_prompt task) of
             Inl _ \<Rightarrow> template_plan goal
           | Inr (text, usage) \<Rightarrow>
               if text = [] then template_plan goal
               else (case plan_from_text default_repo loads goal usage text of
                       None \<Rightarrow> template_plan goal
                     | Some p \<Rightarrow> p)))"

section \<open>What every plan satisfies\<close>

definition good_action :: "string \<Rightarrow> plan_entry \<Rightarrow> bool" where
  "good_action default_repo e \<longleftrightarrow>
     (case e of Junk _ \<Rightarrow> False
      | Act a \<Rightarrow> pa_tool a \<in> set KNOWN_TOOLS \<and> action_id_ok (pa_id a) \<and>
          (if pa_tool a = ''github_repo_read''
           then default_repo \<noteq> [] \<and> truthy (dget (pa_args a) ''repo'' PNone) else True))"

definition good_plan :: "string \<Rightarrow> run_plan \<Rightarrow> bool" where
  "good_plan default_repo p \<longleftrightarrow>
     1 \<le> length (pl_actions p) \<and> length (pl_actions p) \<le> 12 \<and>
     list_all (good_action default_repo) (pl_actions p)"

lemma template_good: "good_plan r (template_plan g)"
  by (simp add: good_plan_def template_plan_def good_action_def KNOWN_TOOLS_def action_id_ok_def
      startswith_def is_digit_def cp_def)

lemma parse_action_good:
  "parse_action v = Some a \<Longrightarrow>
   pa_tool a \<in> set KNOWN_TOOLS \<and> action_id_ok (pa_id a) \<and>
   (\<exists>d. v = PDict d \<and> map_of d ''tool'' = Some (PStr (pa_tool a)))"
  by (cases v)
    (auto simp: parse_action_def str_field_def split: option.splits if_splits elim!: as_str.elims)

lemma parse_actions_good:
  "parse_actions vs = Some as \<Longrightarrow>
   length as = length vs \<and>
   (\<forall>a \<in> set as. pa_tool a \<in> set KNOWN_TOOLS \<and> action_id_ok (pa_id a) \<and>
      (\<exists>d. PDict d \<in> set vs \<and> map_of d ''tool'' = Some (PStr (pa_tool a))))"
proof (induction vs arbitrary: as)
  case Nil
  then show ?case by simp
next
  case (Cons v vs)
  then obtain a bs where "parse_action v = Some a" "parse_actions vs = Some bs" "as = a # bs"
    by (auto split: option.splits)
  then show ?case using Cons.IH [of bs] parse_action_good [of v a] by auto
qed

lemma plan_from_dict_good:
  assumes "plan_from_dict r g u d = Some p"
    and repo: "\<And>vs v. map_of d ''actions'' = Some (PList vs) \<Longrightarrow> v \<in> set vs \<Longrightarrow> \<not> unwanted_repo r v"
  shows "good_plan r p"
proof -
  obtain gl as cs acts where pp: "parse_plan d = Some (gl, as, cs, acts)"
    using assms(1) by (auto simp: plan_from_dict_def split: option.splits)
  then obtain vs where vs: "map_of d ''actions'' = Some (PList vs)" "parse_actions vs = Some acts"
      "length acts \<le> 12"
    by (auto simp: parse_plan_def split: option.splits pyval.splits if_splits)
  let ?kept = "filter (\<lambda>a. \<not> repo_without_name a) acts"
  have good: "good_action r (Act a)" if a: "a \<in> set ?kept" for a
  proof -
    obtain e where e: "PDict e \<in> set vs" "map_of e ''tool'' = Some (PStr (pa_tool a))"
      "pa_tool a \<in> set KNOWN_TOOLS" "action_id_ok (pa_id a)"
      using a parse_actions_good [OF vs(2)] by auto
    have "\<not> unwanted_repo r (PDict e)" using repo [OF vs(1) e(1)] .
    then show ?thesis
      using a e by (auto simp: good_action_def unwanted_repo_def repo_without_name_def)
  qed
  have "length ?kept \<le> 12" using vs(3) length_filter_le [of _ acts] le_trans by blast
  moreover have "p = template_plan g \<or>
      ?kept \<noteq> [] \<and> pl_actions p = map Act ?kept"
    using assms(1) pp by (auto simp: plan_from_dict_def Let_def split: if_splits)
  ultimately show ?thesis
    using good template_good by (auto simp: good_plan_def list_all_iff Suc_le_eq)
qed

lemma plan_from_text_good:
  assumes "plan_from_text r loads g u t = Some p"
  shows "good_plan r p"
proof -
  obtain d where d: "loads (strip_fence t) = Some (PDict d)"
    using assms by (auto simp: plan_from_text_def split: option.splits pyval.splits)
  show ?thesis
  proof (cases "\<exists>vs. map_of d ''actions'' = Some (PList vs)")
    case True
    then obtain vs where vs: "map_of d ''actions'' = Some (PList vs)" by blast
    let ?vs = "filter (\<lambda>v. \<not> unwanted_repo r v) vs"
    have "p = template_plan g \<or> plan_from_dict r g u (dset ''actions'' (PList ?vs) d) = Some p"
      using assms d vs by (auto simp: plan_from_text_def Let_def split: if_splits)
    then show ?thesis
    proof
      assume q: "plan_from_dict r g u (dset ''actions'' (PList ?vs) d) = Some p"
      show ?thesis
        by (rule plan_from_dict_good [OF q]) auto
    qed (simp add: template_good)
  next
    case False
    have "plan_from_text r loads g u t = plan_from_dict r g u d"
    proof (cases "map_of d ''actions''")
      case None
      then show ?thesis using d by (simp add: plan_from_text_def)
    next
      case (Some v)
      then show ?thesis using d False by (cases v) (simp_all add: plan_from_text_def)
    qed
    then have "plan_from_dict r g u d = Some p" using assms by simp
    then show ?thesis using plan_from_dict_good [of r g u d p] False by blast
  qed
qed

lemma make_plan_is_good: "good_plan r (make_plan r loads provider task)"
  using template_good plan_from_text_good
  by (auto simp: make_plan_def Let_def split: option.splits sum.splits)

text \<open>
  C30: whatever the language model answers, the planner returns a plan of 1 to 12 actions with well
  formed identifiers whose tools are all known, and it plans the reading of a repository only when
  a default repository is configured and the action names a repository.
\<close>

theorem make_plan_sound:
  "1 \<le> length (pl_actions (make_plan default_repo loads provider task)) \<and>
   length (pl_actions (make_plan default_repo loads provider task)) \<le> 12 \<and>
   list_all (\<lambda>e. case e of Junk _ \<Rightarrow> False
     | Act a \<Rightarrow> pa_tool a \<in> set KNOWN_TOOLS \<and> action_id_ok (pa_id a) \<and>
         (if pa_tool a = ''github_repo_read''
          then default_repo \<noteq> [] \<and> truthy (dget (pa_args a) ''repo'' PNone) else True))
     (pl_actions (make_plan default_repo loads provider task))"
  using make_plan_is_good [of default_repo loads provider task]
  unfolding good_plan_def good_action_def [abs_def] .

lemma known_tools_registered:
  "set KNOWN_TOOLS = set (map fst (rg_fns (build_default_registry cn)))"
  unfolding default_tools by (simp add: KNOWN_TOOLS_def insert_commute)

lemma known_tool_decision:
  "t \<in> set KNOWN_TOOLS \<Longrightarrow> pd_decision (decide [] t) \<in> {''ALLOW'', ''REQUIRE_APPROVAL''}"
  by (auto simp: KNOWN_TOOLS_def decide_def TOOL_TO_ACTION_def GATED_def)


text \<open>
  The planner, the registry and the policy share one vocabulary. The planner's tools are the
  tools of the default registry, and no action of any plan is denied by the default policy: every
  one of them is either allowed or asks for an approval.
\<close>

theorem plans_are_permitted:
  "set KNOWN_TOOLS = set (map fst (rg_fns (build_default_registry cn))) \<and>
   list_all (\<lambda>e. case e of Junk _ \<Rightarrow> False
     | Act a \<Rightarrow> pd_decision (decide [] (pa_tool a)) \<in> {''ALLOW'', ''REQUIRE_APPROVAL''})
     (pl_actions (make_plan default_repo loads provider task))"
proof -
  have "list_all (good_action default_repo) (pl_actions (make_plan default_repo loads provider task))"
    using make_plan_is_good [of default_repo loads provider task] by (simp add: good_plan_def)
  then show ?thesis
    using known_tools_registered known_tool_decision
    by (auto simp: list_all_iff good_action_def split: plan_entry.splits)
qed

end
