(* ===== verification/Assembler.thy ===== *)
theory Assembler
  imports Py_Base
begin

text \<open>
  The context assembler: \<open>packages/context_engine/assembler.py\<close>. Segments are collected in order,
  marked when they are untrusted, and selected under a token budget. The scrubbing of secrets and
  the optional \<open>tiktoken\<close> encoder are parameters, and so is the wording of an inclusion reason.
\<close>

datatype seg_reason = R_Selected string | R_Untrusted_Full | R_Budget_Full

record segment =
  sg_type :: string
  sg_source :: string
  sg_title :: string
  sg_content :: string
  sg_tokens :: int
  sg_relevance :: rat
  sg_freshness :: time
  sg_confidence :: rat
  sg_reason :: seg_reason
  sg_untrusted :: bool
  sg_redactions :: nat

definition estimate_tokens :: "(string \<Rightarrow> int) option \<Rightarrow> string \<Rightarrow> int" where
  "estimate_tokens encoder text =
     (case encoder of
        Some f \<Rightarrow> max 1 (f text)
      | None \<Rightarrow> max 1 (int (length text) div 4))"

definition OUTPUT_RESERVE_TOKENS :: int where "OUTPUT_RESERVE_TOKENS = 2048"

definition SEQUENCE :: "string list" where
  "SEQUENCE =
     [''system_policy'', ''task_goal'', ''conversation_window'', ''episodic_memory'',
      ''semantic_memory'', ''procedural_memory'', ''memory'', ''tool_schemas'', ''untrusted'']"

definition UNTRUSTED_BEGIN :: string where "UNTRUSTED_BEGIN = ''<<<UNTRUSTED_DATA_BEGIN>>>''"
definition UNTRUSTED_END :: string where "UNTRUSTED_END = ''<<<UNTRUSTED_DATA_END>>>''"

text \<open>The number of matches of \<open><[^>]*REDACTED[^>]*>\<close>.\<close>

function count_redacted :: "string \<Rightarrow> nat" where
  "count_redacted [] = 0"
| "count_redacted (c # s) =
     (if c = CHR ''<'' \<and> dropWhile (\<lambda>x. x \<noteq> CHR ''>'') s \<noteq> [] \<and>
         contains ''REDACTED'' (takeWhile (\<lambda>x. x \<noteq> CHR ''>'') s)
      then 1 + count_redacted (tl (dropWhile (\<lambda>x. x \<noteq> CHR ''>'') s))
      else count_redacted s)"
  by pat_completeness auto
termination
proof (relation "measure length")
  fix c :: char and s :: string
  have "length (tl (dropWhile (\<lambda>x. x \<noteq> CHR ''>'') s)) \<le> length s"
    using length_dropWhile_le [of "\<lambda>x. x \<noteq> CHR ''>''" s] by simp
  then show "(tl (dropWhile (\<lambda>x. x \<noteq> CHR ''>'') s), c # s) \<in> measure length" by simp
qed auto

record assembler =
  as_max :: int
  as_segments :: "segment list"

definition new_assembler :: "int \<Rightarrow> assembler" where
  "new_assembler max_tokens = \<lparr>as_max = max (OUTPUT_RESERVE_TOKENS + 1024) max_tokens, as_segments = []\<rparr>"

text \<open>Untrusted content is put between the markers unless it already contains the first of them.\<close>

definition isolate :: "string \<Rightarrow> string" where
  "isolate content =
     (if contains UNTRUSTED_BEGIN content then content
      else UNTRUSTED_BEGIN @ ''\<newline>'' @ content @ ''\<newline>'' @ UNTRUSTED_END)"

definition is_untrusted :: "string \<Rightarrow> bool \<Rightarrow> bool" where
  "is_untrusted t untrusted \<longleftrightarrow> untrusted \<or> t \<in> {''untrusted'', ''tool_output'', ''external_data''}"

definition add_segment ::
  "(string \<Rightarrow> string) \<Rightarrow> (string \<Rightarrow> int) option \<Rightarrow> time \<Rightarrow> string \<Rightarrow> string \<Rightarrow> string \<Rightarrow> string \<Rightarrow>
   rat \<Rightarrow> rat \<Rightarrow> bool \<Rightarrow> assembler \<Rightarrow> assembler" where
  "add_segment scrub encoder now t content title source_id relevance confidence untrusted a =
     (let u = is_untrusted t untrusted;
          body = (if u then isolate (scrub content) else scrub content)
      in a\<lparr>as_segments := as_segments a @
             [\<lparr>sg_type = t, sg_source = source_id, sg_title = title, sg_content = body,
               sg_tokens = estimate_tokens encoder body, sg_relevance = relevance,
               sg_freshness = now, sg_confidence = confidence, sg_reason = R_Selected t,
               sg_untrusted = u, sg_redactions = count_redacted body\<rparr>]\<rparr>)"

section \<open>Selection\<close>

text \<open>
  The order: the types of \<open>SEQUENCE\<close> in turn, then all other segments, grouped by type in the order
  of the first segment of each type and stably sorted by decreasing relevance. Positions come along
  so that the reasons of skipped segments can be written back.
\<close>

definition other_types :: "segment list \<Rightarrow> string list" where
  "other_types ss = rev (remdups (rev (filter (\<lambda>t. t \<notin> set SEQUENCE) (map sg_type ss))))"

definition of_type :: "(nat \<times> segment) list \<Rightarrow> string \<Rightarrow> (nat \<times> segment) list" where
  "of_type ps t = filter (\<lambda>p. sg_type (snd p) = t) ps"

definition in_order :: "segment list \<Rightarrow> (nat \<times> segment) list" where
  "in_order ss =
     (let ps = enumerate 0 ss in
      concat (map (of_type ps) SEQUENCE)
      @ sort_key (\<lambda>p. - sg_relevance (snd p)) (concat (map (of_type ps) (other_types ss))))"

definition critical :: "segment \<Rightarrow> bool" where
  "critical g \<longleftrightarrow> sg_type g \<in> {''system_policy'', ''task_goal''}"

text \<open>The loop: what is taken, and the reasons of what is skipped.\<close>

fun select ::
  "int \<Rightarrow> int \<Rightarrow> int \<Rightarrow> int \<Rightarrow> (nat \<times> segment) list \<Rightarrow> segment list \<times> (nat \<times> seg_reason) list" where
  "select budget ubudget used uused [] = ([], [])"
| "select budget ubudget used uused ((i, g) # ps) =
     (if sg_untrusted g \<and> uused + sg_tokens g > ubudget
      then (let (os, rs) = select budget ubudget used uused ps in (os, (i, R_Untrusted_Full) # rs))
      else if used + sg_tokens g > budget \<and> \<not> critical g
      then (let (os, rs) = select budget ubudget used uused ps in (os, (i, R_Budget_Full) # rs))
      else (let (os, rs) = select budget ubudget (used + sg_tokens g)
                             (if sg_untrusted g then uused + sg_tokens g else uused) ps
            in (g # os, rs)))"

definition write_reasons :: "(nat \<times> seg_reason) list \<Rightarrow> segment list \<Rightarrow> segment list" where
  "write_reasons rs ss =
     map (\<lambda>(i, g). case map_of rs i of None \<Rightarrow> g | Some r \<Rightarrow> g\<lparr>sg_reason := r\<rparr>) (enumerate 0 ss)"

definition render :: "(seg_reason \<Rightarrow> string) \<Rightarrow> segment \<Rightarrow> string" where
  "render wording g =
     ''### '' @ sg_type g @ (if sg_untrusted g then '' [UNTRUSTED]'' else []) @ '' ('' @
     wording (sg_reason g) @ '')\<newline>'' @ sg_content g"

definition assemble :: "(seg_reason \<Rightarrow> string) \<Rightarrow> assembler \<Rightarrow> segment list \<times> string \<times> assembler" where
  "assemble wording a =
     (let budget = as_max a - OUTPUT_RESERVE_TOKENS;
          (ordered, skipped) = select budget (budget div 4) 0 0 (in_order (as_segments a))
      in (ordered, join_with ''\<newline>\<newline>'' (map (render wording) ordered),
          a\<lparr>as_segments := write_reasons skipped (as_segments a)\<rparr>))"

definition inspector_metadata :: "(seg_reason \<Rightarrow> string) \<Rightarrow> (time \<Rightarrow> string) \<Rightarrow> assembler \<Rightarrow> pyval" where
  "inspector_metadata wording stamp a =
     PList (map (\<lambda>g. PDict
       [(''segment_type'', PStr (sg_type g)), (''title'', PStr (sg_title g)),
        (''token_count'', PInt (sg_tokens g)), (''relevance_score'', PFloat (sg_relevance g)),
        (''freshness'', PStr (stamp (sg_freshness g))), (''confidence'', PFloat (sg_confidence g)),
        (''included_reason'', PStr (wording (sg_reason g))),
        (''contains_untrusted_input'', PBool (sg_untrusted g)),
        (''redaction_count'', PInt (int (sg_redactions g)))]) (as_segments a))"

definition layer_token_counts :: "assembler \<Rightarrow> (string \<times> int) list" where
  "layer_token_counts a =
     fold (\<lambda>g d. dset (sg_type g)
              ((case map_of d (sg_type g) of None \<Rightarrow> 0 | Some n \<Rightarrow> n) + sg_tokens g) d)
       (as_segments a) []"

section \<open>Budgets\<close>

definition tokens :: "segment list \<Rightarrow> int" where
  "tokens gs = sum_list (map sg_tokens gs)"

definition wf_assembler :: "assembler \<Rightarrow> bool" where
  "wf_assembler a \<longleftrightarrow> OUTPUT_RESERVE_TOKENS + 1024 \<le> as_max a \<and> (\<forall>g \<in> set (as_segments a). 1 \<le> sg_tokens g)"

lemma wf_new: "wf_assembler (new_assembler n)"
  by (simp add: wf_assembler_def new_assembler_def)

lemma wf_add: "wf_assembler a \<Longrightarrow> wf_assembler (add_segment f e now t c ti src r cf u a)"
  by (auto simp: wf_assembler_def add_segment_def Let_def estimate_tokens_def split: option.splits)

abbreviation picked :: "int \<Rightarrow> int \<Rightarrow> int \<Rightarrow> int \<Rightarrow> (nat \<times> segment) list \<Rightarrow> segment list" where
  "picked b ub u uu ps \<equiv> fst (select b ub u uu ps)"

lemma picked_Cons:
  "picked b ub u uu (p # ps) =
     (if sg_untrusted (snd p) \<and> uu + sg_tokens (snd p) > ub then picked b ub u uu ps
      else if u + sg_tokens (snd p) > b \<and> \<not> critical (snd p) then picked b ub u uu ps
      else snd p # picked b ub (u + sg_tokens (snd p))
                     (if sg_untrusted (snd p) then uu + sg_tokens (snd p) else uu) ps)"
  by (cases p) (simp add: case_prod_beta Let_def)

declare select.simps(2) [simp del]

lemma tokens_simps [simp]: "tokens [] = 0" "tokens (g # gs) = sg_tokens g + tokens gs"
  by (simp_all add: tokens_def)

lemma select_untrusted:
  "uu \<le> ub \<Longrightarrow> uu + tokens (filter sg_untrusted (picked b ub u uu ps)) \<le> ub"
proof (induction ps arbitrary: u uu)
  case (Cons p ps)
  show ?case
    using Cons.IH [of uu u] Cons.IH [of "uu + sg_tokens (snd p)" "u + sg_tokens (snd p)"]
      Cons.IH [of uu "u + sg_tokens (snd p)"] Cons.prems
    by (auto simp: picked_Cons)
qed simp

lemma select_trivial:
  "list_all (\<lambda>p. \<not> critical (snd p)) ps \<Longrightarrow>
   u + tokens (picked b ub u uu ps) \<le> max u b \<and> filter critical (picked b ub u uu ps) = []"
proof (induction ps arbitrary: u uu)
  case (Cons p ps)
  show ?case
    using Cons.IH [of u uu] Cons.IH [of "u + sg_tokens (snd p)" "uu + sg_tokens (snd p)"]
      Cons.IH [of "u + sg_tokens (snd p)" uu] Cons.prems
    by (auto simp: picked_Cons)
qed simp

lemma select_critical_total:
  assumes "list_all (\<lambda>p. \<not> critical (snd p)) ps"
  shows "list_all (\<lambda>p. critical (snd p)) cs \<Longrightarrow>
   u + tokens (picked b ub u uu (cs @ ps)) \<le>
     max b (u + tokens (filter critical (picked b ub u uu (cs @ ps))))"
proof (induction cs arbitrary: u uu)
  case Nil
  then show ?case using select_trivial [OF assms, of u b ub uu] by (simp add: max.commute)
next
  case (Cons p cs)
  show ?case
    using Cons.IH [of u uu] Cons.IH [of "u + sg_tokens (snd p)" "uu + sg_tokens (snd p)"]
      Cons.IH [of "u + sg_tokens (snd p)" uu] Cons.prems
    by (simp add: picked_Cons add.assoc)
qed

lemma select_keeps_critical:
  assumes "p \<in> set ps" and "critical (snd p)" and "\<not> sg_untrusted (snd p)"
  shows "snd p \<in> set (picked b ub u uu ps)"
  using assms(1)
proof (induction ps arbitrary: u uu)
  case (Cons q ps)
  then show ?case using assms(2,3) by (auto simp: picked_Cons)
qed simp

text \<open>The order starts with the critical segments.\<close>

lemma in_order_split:
  "\<exists>cs ps. in_order ss = cs @ ps \<and> list_all (\<lambda>p. critical (snd p)) cs \<and>
     list_all (\<lambda>p. \<not> critical (snd p)) ps"
proof -
  let ?ps = "enumerate 0 ss"
  let ?rest = "concat (map (of_type ?ps) (drop 2 SEQUENCE)) @
      sort_key (\<lambda>p. - sg_relevance (snd p)) (concat (map (of_type ?ps) (other_types ss)))"
  have "in_order ss = (of_type ?ps ''system_policy'' @ of_type ?ps ''task_goal'') @ ?rest"
    by (simp add: in_order_def Let_def SEQUENCE_def)
  moreover have "list_all (\<lambda>p. critical (snd p)) (of_type ?ps ''system_policy'' @ of_type ?ps ''task_goal'')"
    by (auto simp: of_type_def critical_def list_all_iff)
  moreover have "list_all (\<lambda>p. \<not> critical (snd p)) ?rest"
    by (auto simp: of_type_def critical_def list_all_iff SEQUENCE_def other_types_def)
  ultimately show ?thesis by blast
qed

lemma in_order_complete: "g \<in> set ss \<Longrightarrow> \<exists>i. (i, g) \<in> set (in_order ss)"
proof -
  assume "g \<in> set ss"
  then obtain i where "i < length ss" "ss ! i = g" by (auto simp: in_set_conv_nth)
  then have i: "(i, g) \<in> set (enumerate 0 ss)" by (simp add: in_set_enumerate_eq)
  show ?thesis
  proof (cases "sg_type g \<in> set SEQUENCE")
    case True
    then show ?thesis
      using i by (intro exI [of _ i]) (auto simp: in_order_def Let_def of_type_def)
  next
    case False
    then have "sg_type g \<in> set (other_types ss)" using \<open>g \<in> set ss\<close> by (auto simp: other_types_def)
    then show ?thesis
      using i by (intro exI [of _ i]) (auto simp: in_order_def Let_def of_type_def)
  qed
qed

lemma assemble_ordered:
  "fst (assemble w a) =
     picked (as_max a - OUTPUT_RESERVE_TOKENS) ((as_max a - OUTPUT_RESERVE_TOKENS) div 4) 0 0
       (in_order (as_segments a))"
  by (simp add: assemble_def Let_def case_prod_beta)

text \<open>
  C31: the prompt respects its budget. For an assembler with at least its minimal size, untrusted
  segments take at most a quarter of the budget left after the output reserve; all segments together
  exceed that budget only if the critical ones (system policy and task goal) do so on their own; and
  every trusted critical segment is in the prompt.
\<close>

theorem assemble_budget:
  assumes "wf_assembler a"
  shows "tokens (filter sg_untrusted (fst (assemble wording a))) \<le> (as_max a - OUTPUT_RESERVE_TOKENS) div 4 \<and>
    tokens (fst (assemble wording a)) \<le>
      max (as_max a - OUTPUT_RESERVE_TOKENS) (tokens (filter critical (fst (assemble wording a)))) \<and>
    list_all (\<lambda>g. g \<in> set (fst (assemble wording a)))
      (filter (\<lambda>g. critical g \<and> \<not> sg_untrusted g) (as_segments a))"
proof (intro conjI)
  let ?b = "as_max a - OUTPUT_RESERVE_TOKENS"
  have b: "0 \<le> ?b" using assms by (simp add: wf_assembler_def)
  show "tokens (filter sg_untrusted (fst (assemble wording a))) \<le> ?b div 4"
    using b select_untrusted [of 0 "?b div 4" ?b 0 "in_order (as_segments a)"]
    by (simp add: assemble_ordered)
  obtain cs ps where "in_order (as_segments a) = cs @ ps" "list_all (\<lambda>p. critical (snd p)) cs"
      "list_all (\<lambda>p. \<not> critical (snd p)) ps"
    using in_order_split by blast
  then show "tokens (fst (assemble wording a)) \<le> max ?b (tokens (filter critical (fst (assemble wording a))))"
    using select_critical_total [of ps cs 0 ?b "?b div 4" 0] by (simp add: assemble_ordered)
  show "list_all (\<lambda>g. g \<in> set (fst (assemble wording a)))
      (filter (\<lambda>g. critical g \<and> \<not> sg_untrusted g) (as_segments a))"
  proof (clarsimp simp: list_all_iff assemble_ordered)
    fix g assume g: "g \<in> set (as_segments a)" "critical g" "\<not> sg_untrusted g"
    then obtain i where "(i, g) \<in> set (in_order (as_segments a))" using in_order_complete by blast
    then show "g \<in> set (picked ?b (?b div 4) 0 0 (in_order (as_segments a)))"
      using select_keeps_critical [of "(i, g)" _ ?b "?b div 4" 0 0] g by simp
  qed
qed

theorem assemble_budget_witness:
  "tokens (fst (assemble (\<lambda>_. []) (add_segment id None 0 ''task_goal'' ''hello'' [] [] 1 1 False (new_assembler 0)))) \<le>
     max 1024 (tokens (filter critical (fst (assemble (\<lambda>_. [])
       (add_segment id None 0 ''task_goal'' ''hello'' [] [] 1 1 False (new_assembler 0))))))"
proof -
  let ?a = "add_segment id None 0 ''task_goal'' ''hello'' [] [] 1 1 False (new_assembler 0)"
  have "as_max ?a - OUTPUT_RESERVE_TOKENS = 1024"
    by (simp add: add_segment_def Let_def new_assembler_def OUTPUT_RESERVE_TOKENS_def)
  then show ?thesis
    using assemble_budget [OF wf_add [OF wf_new], of "\<lambda>_. []" id None 0 "''task_goal''" "''hello''" "[]" "[]" 1 1 False 0]
    by simp
qed

section \<open>Isolation\<close>

text \<open>
  Untrusted content is marked. Every segment added as untrusted, or of an untrusted type,
  contains the begin marker, is flagged, and is rendered with the \<open>[UNTRUSTED]\<close> tag; content without
  the marker is enclosed between both markers.
\<close>

theorem untrusted_is_marked:
  "(\<lambda>g. sg_untrusted g = is_untrusted t u \<and>
        (if is_untrusted t u
         then sublist UNTRUSTED_BEGIN (sg_content g) \<and>
              prefix (''### '' @ t @ '' [UNTRUSTED] ('') (render wording g) \<and>
              (if sublist UNTRUSTED_BEGIN (scrub content) then sg_content g = scrub content
               else sg_content g = UNTRUSTED_BEGIN @ ''\<newline>'' @ scrub content @ ''\<newline>'' @ UNTRUSTED_END)
         else sg_content g = scrub content))
     (last (as_segments (add_segment scrub encoder now t content title src r cf u a)))"
  by (auto simp: add_segment_def Let_def isolate_def contains_sublist render_def prefix_def)

text \<open>
  The enclosing can be avoided by the content itself: text that brings both markers along is taken
  over as it is, and whatever follows its end marker stands outside of them.
\<close>

lemma isolation_escape:
  "isolate (UNTRUSTED_BEGIN @ UNTRUSTED_END @ payload) = UNTRUSTED_BEGIN @ UNTRUSTED_END @ payload"
  by (simp add: isolate_def contains_sublist)

end
