(* ===== verification/Memory.thy ===== *)
theory Memory
  imports Models Lifecycle "HOL-Library.Multiset"
begin

text \<open>
  The memory service: \<open>packages/memory/service.py\<close>. The life cycle of a memory item, the search that
  feeds the context of a run, the search by vectors, the expiry sweep and the automatic promotion. The
  redaction of secrets is the parameter \<open>redact\<close>; the distance of an item's vector to the one searched,
  which pgvector computes, is the parameter \<open>distance\<close>. Rows of equal rank keep the order of the table, which SQL leaves open.
\<close>

definition retrieval_allowed :: "memory_status \<Rightarrow> bool" where
  "retrieval_allowed st \<longleftrightarrow> st \<in> {M_ACTIVE, M_APPROVED, M_AUTO_APPROVED}"

section \<open>Pattern matching\<close>

text \<open>\<open>_escape_ilike\<close>: the backslash first, then the two wildcards.\<close>

definition bsl :: char where "bsl = CHR 0x5C"

definition escape_ilike :: "string \<Rightarrow> string" where
  "escape_ilike q =
     replace_all ''_'' [bsl, CHR ''_''] (replace_all ''%'' [bsl, CHR ''%''] (replace_all [bsl] [bsl, bsl] q))"

text \<open>\<open>LIKE ... ESCAPE '\'\<close>, and \<open>ILIKE\<close> as \<open>LIKE\<close> of the lowered texts.\<close>

function like :: "string \<Rightarrow> string \<Rightarrow> bool" where
  "like [] s = (s = [])"
| "like (p # ps) s =
     (if p = CHR ''%''
      then like ps s \<or> (case s of [] \<Rightarrow> False | c # cs \<Rightarrow> like (p # ps) cs)
      else if p = bsl
      then (case ps of [] \<Rightarrow> False
            | q # qs \<Rightarrow> (case s of [] \<Rightarrow> False | c # cs \<Rightarrow> q = c \<and> like qs cs))
      else (case s of [] \<Rightarrow> False | c # cs \<Rightarrow> (p = CHR ''_'' \<or> p = c) \<and> like ps cs))"
  by pat_completeness auto
termination
  by (relation "measure (\<lambda>(p, s). length p + length s)") auto

definition ilike :: "string \<Rightarrow> string \<Rightarrow> bool" where
  "ilike text pat = like (lower pat) (lower text)"

section \<open>Operations\<close>

definition clamp :: "rat \<Rightarrow> rat" where
  "clamp r = max 0 (min 1 r)"

definition create_candidate ::
  "(string \<Rightarrow> string) \<Rightarrow> uuid \<Rightarrow> time \<Rightarrow> string \<Rightarrow> string \<Rightarrow> rat \<Rightarrow> int option \<Rightarrow> string option \<Rightarrow>
   time option \<Rightarrow> db \<Rightarrow> (memory_item \<times> db) option" where
  "create_candidate redact fresh now content source confidence ttl category observed s =
     (let m = \<lparr>m_id = fresh, m_content = redact content, m_source = redact source,
               m_observed = Some (case observed of None \<Rightarrow> now | Some t \<Rightarrow> t),
               m_confidence = clamp confidence, m_ttl = ttl, m_status = M_CANDIDATE,
               m_verification = ''unverified'', m_category = category,
               m_expires = (case ttl of None \<Rightarrow> None
                            | Some n \<Rightarrow> if n = 0 then None else Some (now + seconds n)),
               m_created = now\<rparr>
      in map_option (\<lambda>s'. (m, s')) (add_memory m s))"

definition mem_approve :: "uuid \<Rightarrow> bool \<Rightarrow> db \<Rightarrow> memory_item option \<times> db" where
  "mem_approve i auto_ok s =
     (case get_memory i s of
        None \<Rightarrow> (None, s)
      | Some m \<Rightarrow>
          if m_status m \<noteq> M_CANDIDATE then (None, s)
          else (let f = (\<lambda>m. m\<lparr>m_status := if auto_ok then M_AUTO_APPROVED else M_APPROVED,
                               m_verification := ''verified''\<rparr>)
                in (Some (f m), upd_memory i f s)))"

definition mem_reject :: "uuid \<Rightarrow> db \<Rightarrow> db" where
  "mem_reject i s = upd_memory i (\<lambda>m. m\<lparr>m_status := M_REJECTED\<rparr>) s"

definition mark_active :: "uuid \<Rightarrow> db \<Rightarrow> db" where
  "mark_active i s =
     (case get_memory i s of
        None \<Rightarrow> s
      | Some m \<Rightarrow>
          if m_status m \<in> {M_APPROVED, M_AUTO_APPROVED}
          then upd_memory i (\<lambda>m. m\<lparr>m_status := M_ACTIVE, m_verification := ''verified''\<rparr>) s
          else s)"

definition supersede :: "uuid \<Rightarrow> uuid \<Rightarrow> db \<Rightarrow> db" where
  "supersede old_id new_id s =
     (case get_memory new_id s of
        None \<Rightarrow> s
      | Some n \<Rightarrow>
          if m_status n \<noteq> M_ACTIVE then s
          else (case get_memory old_id s of
                  None \<Rightarrow> s
                | Some old \<Rightarrow>
                    if old_id = new_id then s
                    else upd_memory old_id (\<lambda>m. m\<lparr>m_status := M_SUPERSEDED\<rparr>)
                           (s\<lparr>relations := relations s @
                                [\<lparr>mr_from = new_id, mr_to = old_id, mr_type = ''supersedes''\<rparr>]\<rparr>)))"

definition link_contradiction :: "uuid \<Rightarrow> uuid \<Rightarrow> db \<Rightarrow> db" where
  "link_contradiction a b s =
     s\<lparr>relations := relations s @ [\<lparr>mr_from = a, mr_to = b, mr_type = ''contradicts''\<rparr>]\<rparr>"

section \<open>Search\<close>

definition unexpired :: "time \<Rightarrow> memory_item \<Rightarrow> bool" where
  "unexpired now m = (case m_expires m of None \<Rightarrow> True | Some t \<Rightarrow> t > now)"

definition search_filter ::
  "time \<Rightarrow> string \<Rightarrow> string option \<Rightarrow> bool \<Rightarrow> bool \<Rightarrow> memory_item \<Rightarrow> bool" where
  "search_filter now q status verified_only allow_expired m \<longleftrightarrow>
     ilike (m_content m) (''%'' @ escape_ilike q @ ''%'') \<and>
     (if verified_only
      then (case status of
              Some st \<Rightarrow> (if st \<noteq> [] then memory_status_value (m_status m) = st
                          else retrieval_allowed (m_status m))
            | None \<Rightarrow> retrieval_allowed (m_status m)) \<and> m_verification m = ''verified''
      else (case status of
              Some st \<Rightarrow> (if st \<noteq> [] then memory_status_value (m_status m) = st else True)
            | None \<Rightarrow> True)) \<and>
     (allow_expired \<or> unexpired now m \<and> m_status m \<noteq> M_EXPIRED)"

text \<open>The items found are redacted again, which also rewrites their rows.\<close>

definition search ::
  "(string \<Rightarrow> string) \<Rightarrow> time \<Rightarrow> string \<Rightarrow> string option \<Rightarrow> nat \<Rightarrow> bool \<Rightarrow> bool \<Rightarrow> db \<Rightarrow>
   memory_item list \<times> db" where
  "search redact now q status limit verified_only allow_expired s =
     (let found = take limit (sort_key (\<lambda>m. - m_confidence m)
                    (filter (search_filter now q status verified_only allow_expired) (memories s)));
          f = (\<lambda>m. m\<lparr>m_content := redact (m_content m)\<rparr>)
      in (map f found, fold (\<lambda>m. upd_memory (m_id m) f) found s))"

definition retrieve_for_context ::
  "(string \<Rightarrow> string) \<Rightarrow> time \<Rightarrow> string \<Rightarrow> nat \<Rightarrow> db \<Rightarrow> memory_item list \<times> db" where
  "retrieve_for_context redact now q limit s = search redact now q None limit True False s"

definition all_statuses :: "memory_status list" where
  "all_statuses = [M_CANDIDATE, M_APPROVED, M_AUTO_APPROVED, M_ACTIVE, M_SUPERSEDED, M_EXPIRED,
                   M_REJECTED, M_DELETED]"

definition list_status :: "time \<Rightarrow> string \<Rightarrow> nat \<Rightarrow> db \<Rightarrow> memory_item list" where
  "list_status now status limit s =
     (if status \<notin> set (map memory_status_value all_statuses) then []
      else take limit (sort_key (\<lambda>m. - m_created m)
             (filter (\<lambda>m. memory_status_value (m_status m) = status \<and> unexpired now m) (memories s))))"

text \<open>
  The search by vectors: the identifiers are selected in the order of the distance (\<open>None\<close> for a row without a
  vector), the rows in a second query without an order. Without pgvector the query fails and the result is empty.
\<close>

definition vector_ids :: "(uuid \<Rightarrow> rat option) \<Rightarrow> time \<Rightarrow> nat \<Rightarrow> db \<Rightarrow> uuid list" where
  "vector_ids distance now limit s =
     map m_id (take limit (sort_key (\<lambda>m. the (distance (m_id m)))
       (filter (\<lambda>m. m_verification m = ''verified'' \<and> retrieval_allowed (m_status m) \<and> unexpired now m \<and>
                    distance (m_id m) \<noteq> None) (memories s))))"

definition vector_search :: "bool \<Rightarrow> (uuid \<Rightarrow> rat option) \<Rightarrow> time \<Rightarrow> nat \<Rightarrow> db \<Rightarrow> memory_item list" where
  "vector_search available distance now limit s =
     (if \<not> available then []
      else let ids = vector_ids distance now limit s in filter (\<lambda>m. m_id m \<in> set ids) (memories s))"

section \<open>Sweeps\<close>

definition sweep :: "(memory_item \<Rightarrow> bool) \<Rightarrow> (memory_item \<Rightarrow> memory_item) \<Rightarrow> db \<Rightarrow> nat \<times> db" where
  "sweep p f s =
     (length (filter p (memories s)), s\<lparr>memories := map (\<lambda>m. if p m then f m else m) (memories s)\<rparr>)"

definition expirable :: "time \<Rightarrow> memory_item \<Rightarrow> bool" where
  "expirable now m \<longleftrightarrow>
     (case m_expires m of None \<Rightarrow> False | Some t \<Rightarrow> t \<le> now) \<and>
     m_status m \<notin> {M_EXPIRED, M_DELETED, M_SUPERSEDED}"

definition expire_sweep :: "time \<Rightarrow> db \<Rightarrow> nat \<times> db" where
  "expire_sweep now s = sweep (expirable now) (\<lambda>m. m\<lparr>m_status := M_EXPIRED\<rparr>) s"

definition promotable :: "time \<Rightarrow> rat \<Rightarrow> memory_item \<Rightarrow> bool" where
  "promotable now thr m \<longleftrightarrow> m_status m = M_CANDIDATE \<and> m_confidence m > thr \<and> unexpired now m"

definition auto_promote_candidates :: "time \<Rightarrow> rat \<Rightarrow> nat \<Rightarrow> db \<Rightarrow> nat \<times> db" where
  "auto_promote_candidates now thr min_runs s =
     (if length (take min_runs (filter (\<lambda>r. r_status r = COMPLETED) (runs s))) < min_runs then (0, s)
      else sweep (promotable now thr)
             (\<lambda>m. m\<lparr>m_status := M_AUTO_APPROVED, m_verification := ''verified''\<rparr>) s)"

section \<open>A search is a substring search\<close>

lemma replace_all_char:
  "replace_all [c] r s = concat (map (\<lambda>x. if x = c then r else [x]) s)"
proof (induction s)
  case Nil
  then show ?case by (simp add: replace_all.simps)
next
  case (Cons x s)
  then show ?case by (subst replace_all.simps) auto
qed

definition esc_like :: "char \<Rightarrow> string" where
  "esc_like x = (if x = bsl \<or> x = CHR ''%'' \<or> x = CHR ''_'' then [bsl, x] else [x])"

lemma escape_ilike_concat: "escape_ilike q = concat (map esc_like q)"
proof -
  have "bsl \<noteq> CHR ''%''" "bsl \<noteq> CHR ''_''" by (simp_all add: bsl_def)
  then show ?thesis
    by (induction q) (auto simp: escape_ilike_def replace_all_char esc_like_def)
qed

lemma to_lower_special:
  "to_lower x = bsl \<longleftrightarrow> x = bsl" "to_lower x = CHR ''%'' \<longleftrightarrow> x = CHR ''%''"
  "to_lower x = CHR ''_'' \<longleftrightarrow> x = CHR ''_''"
proof -
  have *: "to_lower x = c \<longleftrightarrow> x = c" if "cp c < 65 \<or> 90 < cp c \<and> cp c < 97" for c :: char
  proof (cases "(65 \<le> cp x \<and> cp x \<le> 90) \<or> (192 \<le> cp x \<and> cp x \<le> 222 \<and> cp x \<noteq> 215)")
    case True
    then have "cp (to_lower x) = (cp x + 32) mod 256"
      by (simp add: to_lower_def) (simp add: cp_def)
    with True have "cp (to_lower x) = cp x + 32" by auto
    with True that show ?thesis by auto
  next
    case False
    then have "to_lower x = x" by (auto simp: to_lower_def)
    then show ?thesis by simp
  qed
  show "to_lower x = bsl \<longleftrightarrow> x = bsl" "to_lower x = CHR ''%'' \<longleftrightarrow> x = CHR ''%''"
    "to_lower x = CHR ''_'' \<longleftrightarrow> x = CHR ''_''"
    by (rule *; simp add: cp_def bsl_def)+
qed

lemma lower_escape: "lower (escape_ilike q) = escape_ilike (lower q)"
proof -
  have "map to_lower (esc_like x) = esc_like (to_lower x)" for x
    using to_lower_special [of x] to_lower_special(1) [of bsl] by (simp add: esc_like_def)
  then show ?thesis by (induction q) (simp_all add: escape_ilike_concat lower_def)
qed

lemma bsl_neq [simp]: "bsl \<noteq> CHR ''%''" "bsl \<noteq> CHR ''_''" "CHR ''%'' \<noteq> bsl" "CHR ''_'' \<noteq> bsl"
  by (simp_all add: bsl_def)

lemma like_esc_step: "like (esc_like x @ p) s \<longleftrightarrow> (case s of [] \<Rightarrow> False | c # cs \<Rightarrow> x = c \<and> like p cs)"
  by (cases s) (simp_all add: esc_like_def)

lemma like_escaped: "like (concat (map esc_like w) @ ''%'') s \<longleftrightarrow> prefix w s"
proof (induction w arbitrary: s)
  case Nil
  have "like ''%'' s" by (induction s) auto
  then show ?case by simp
next
  case (Cons x w)
  then show ?case by (cases s) (simp_all add: like_esc_step)
qed

lemma like_percent: "like (CHR ''%'' # p) s \<longleftrightarrow> (\<exists>t. suffix t s \<and> like p t)"
proof (induction s)
  case Nil
  then show ?case by auto
next
  case (Cons c s)
  then show ?case by (auto simp: suffix_Cons)
qed

lemma ilike_substring:
  "ilike text (''%'' @ escape_ilike q @ ''%'') \<longleftrightarrow> sublist (lower q) (lower text)"
proof -
  have "lower (''%'' @ escape_ilike q @ ''%'') = CHR ''%'' # (escape_ilike (lower q) @ ''%'')"
    by (simp add: lower_escape [symmetric]) (simp add: lower_def to_lower_def cp_def)
  then show ?thesis
    by (simp add: ilike_def like_percent like_escaped escape_ilike_concat del: like.simps)
      (auto simp: sublist_altdef')
qed

text \<open>
  User input cannot act as a wildcard. The pattern search built from a query finds exactly the
  texts that contain the query as a substring, up to the case of ASCII letters, whatever wildcards
  and backslashes the query contains.
\<close>

theorem search_pattern_is_substring:
  "ilike content (''%'' @ escape_ilike q @ ''%'') = (\<exists>a b. lower content = a @ lower q @ b)"
  unfolding ilike_substring sublist_def ..

section \<open>What a retrieval returns\<close>

lemma search_filter_verified:
  "search_filter now q None True False m \<longleftrightarrow>
     (\<exists>a b. lower (m_content m) = a @ lower q @ b) \<and> retrieval_allowed (m_status m) \<and>
     m_verification m = ''verified'' \<and> unexpired now m"
  unfolding search_filter_def ilike_substring
  by (auto simp: sublist_def retrieval_allowed_def)

definition relevant :: "time \<Rightarrow> string \<Rightarrow> memory_item \<Rightarrow> bool" where
  "relevant now q m \<longleftrightarrow>
     (\<exists>a b. lower (m_content m) = a @ lower q @ b) \<and> m_verification m = ''verified'' \<and>
     m_status m \<in> {M_ACTIVE, M_APPROVED, M_AUTO_APPROVED} \<and>
     (m_expires m = None \<or> (\<exists>t. m_expires m = Some t \<and> now < t))"

lemma relevant_filter: "search_filter now q None True False = relevant now q"
  by (rule ext) (auto simp: search_filter_verified relevant_def retrieval_allowed_def unexpired_def
      split: option.splits)

text \<open>
  What a run gets from the memory. The items retrieved for a context are, after redaction, the
  first \<open>limit\<close> in order of decreasing confidence of exactly those rows that contain the query, are
  verified, approved or active, and not expired; no other item enters the context.
\<close>

theorem retrieval_exact:
  "\<exists>found. fst (retrieve_for_context redact now q limit s) =
       map (\<lambda>m. m\<lparr>m_content := redact (m_content m)\<rparr>) (take limit found) \<and>
     mset found = mset (filter (relevant now q) (memories s)) \<and>
     sorted_wrt (\<lambda>a b. m_confidence a \<ge> m_confidence b) found"
proof (intro exI conjI)
  let ?found = "sort_key (\<lambda>m. - m_confidence m) (filter (relevant now q) (memories s))"
  show "fst (retrieve_for_context redact now q limit s) =
      map (\<lambda>m. m\<lparr>m_content := redact (m_content m)\<rparr>) (take limit ?found)"
    by (simp add: retrieve_for_context_def search_def relevant_filter Let_def)
  show "mset ?found = mset (filter (relevant now q) (memories s))" by simp
  have "sorted (map (\<lambda>m. - m_confidence m) ?found)" by simp
  then show "sorted_wrt (\<lambda>a b. m_confidence a \<ge> m_confidence b) ?found"
    by (simp add: sorted_map)
qed

section \<open>The life cycle\<close>

datatype mem_op =
    MemCreate uuid time string string rat "int option" "string option" "time option"
  | MemApprove uuid bool
  | MemReject uuid
  | MemActivate uuid
  | MemSupersede uuid uuid
  | MemContradict uuid uuid
  | MemSearch time string "string option" nat bool bool
  | MemExpire time
  | MemPromote time rat nat

fun mem_step :: "(string \<Rightarrow> string) \<Rightarrow> mem_op \<Rightarrow> db \<Rightarrow> db" where
  "mem_step redact (MemCreate f now c src cf ttl cat ob) s =
     (case create_candidate redact f now c src cf ttl cat ob s of None \<Rightarrow> s | Some (m, s') \<Rightarrow> s')"
| "mem_step redact (MemApprove i a) s = snd (mem_approve i a s)"
| "mem_step redact (MemReject i) s = mem_reject i s"
| "mem_step redact (MemActivate i) s = mark_active i s"
| "mem_step redact (MemSupersede i j) s = supersede i j s"
| "mem_step redact (MemContradict i j) s = link_contradiction i j s"
| "mem_step redact (MemSearch now q st n v x) s = snd (search redact now q st n v x s)"
| "mem_step redact (MemExpire now) s = snd (expire_sweep now s)"
| "mem_step redact (MemPromote now thr n) s = snd (auto_promote_candidates now thr n s)"

definition mstatus :: "uuid \<Rightarrow> db \<Rightarrow> memory_status option" where
  "mstatus i s = map_option m_status (get_memory i s)"

inductive mem_next :: "memory_status \<Rightarrow> memory_status \<Rightarrow> bool" where
  "mem_next M_CANDIDATE M_APPROVED"
| "mem_next M_CANDIDATE M_AUTO_APPROVED"
| "mem_next M_APPROVED M_ACTIVE"
| "mem_next M_AUTO_APPROVED M_ACTIVE"
| "mem_next st M_REJECTED"
| "mem_next st M_SUPERSEDED"
| "st \<notin> {M_EXPIRED, M_DELETED, M_SUPERSEDED} \<Longrightarrow> mem_next st M_EXPIRED"

inductive_simps mem_next_to: "mem_next st M_CANDIDATE" "mem_next st M_APPROVED"
  "mem_next st M_AUTO_APPROVED" "mem_next st M_ACTIVE" "mem_next st M_EXPIRED" "mem_next st M_REJECTED"
  "mem_next st M_SUPERSEDED" "mem_next st M_DELETED"

abbreviation mem_legal :: "memory_status option \<Rightarrow> memory_status option \<Rightarrow> bool" where
  "mem_legal \<equiv> legal (\<lambda>st. st = M_CANDIDATE) mem_next"

lemma mstatus_upd:
  "(\<And>m. m_id (f m) = m_id m) \<Longrightarrow>
   mstatus j (upd_memory i f s) =
     (if i = j then map_option (m_status \<circ> f) (get_memory j s) else mstatus j s)"
  by (simp add: mstatus_def memory_store.get_upd option.map_comp)

lemma mstatus_relations [simp]: "mstatus j (s\<lparr>relations := r\<rparr>) = mstatus j s"
  by (simp add: mstatus_def get_defs)

lemma find_map:
  "(\<And>x. P (g x) = P x) \<Longrightarrow> find P (map g xs) = map_option g (find P xs)"
  by (induction xs) auto

lemma get_sweep:
  assumes "\<And>m. m_id (f m) = m_id m"
  shows "get_memory j (snd (sweep p f s)) = map_option (\<lambda>m. if p m then f m else m) (get_memory j s)"
  using assms by (simp add: sweep_def get_defs tget_def find_map)

lemma mstatus_search: "mstatus j (snd (search redact now q st n v x s)) = mstatus j s"
proof -
  have "mstatus j (fold (\<lambda>m. upd_memory (m_id m) (\<lambda>m. m\<lparr>m_content := redact (m_content m)\<rparr>)) ms s) = mstatus j s"
    for ms s
  proof (induction ms arbitrary: s)
    case (Cons a ms)
    have "mstatus j (upd_memory (m_id a) (\<lambda>m. m\<lparr>m_content := redact (m_content m)\<rparr>) s) = mstatus j s"
      by (simp add: mstatus_upd) (simp add: mstatus_def comp_def)
    with Cons show ?case by simp
  qed simp
  then show ?thesis by (simp add: search_def Let_def)
qed

lemma mem_step_legal: "mem_legal (mstatus j s) (mstatus j (mem_step redact op s))"
proof (cases op)
  case (MemCreate f now c src cf ttl cat ob)
  then show ?thesis
    by (auto simp: create_candidate_def Let_def add_memory_eq mstatus_def get_put_memory legal_def
        split: option.splits)
next
  case (MemApprove i a)
  then show ?thesis
    by (auto simp: mem_approve_def mstatus_upd Let_def split: option.splits)
      (auto simp: mstatus_def legal_def mem_next_to)
next
  case (MemReject i)
  then show ?thesis
    by (auto simp: mem_reject_def mstatus_upd)
      (auto simp: mstatus_def legal_def mem_next_to split: option.splits)
next
  case (MemActivate i)
  then show ?thesis
    by (auto simp: mark_active_def mstatus_upd split: option.splits)
      (auto simp: mstatus_def legal_def mem_next_to)
next
  case (MemSupersede i k)
  then show ?thesis
    by (auto simp: supersede_def mstatus_upd split: option.splits)
      (auto simp: mstatus_def legal_def mem_next_to get_defs split: option.splits)
next
  case (MemContradict i k)
  then show ?thesis by (simp add: link_contradiction_def)
next
  case (MemSearch now q st n v x)
  then show ?thesis by (simp add: mstatus_search)
next
  case (MemExpire now)
  then show ?thesis
    by (auto simp: expire_sweep_def mstatus_def get_sweep legal_def mem_next_to expirable_def
        split: option.splits)
next
  case (MemPromote now thr n)
  then show ?thesis
    by (auto simp: auto_promote_candidates_def mstatus_def get_sweep legal_def mem_next_to
        promotable_def split: option.splits)
qed

interpretation memories: lifecycle "mem_step redact" mstatus "\<lambda>st. st = M_CANDIDATE" mem_next for redact
  by unfold_locales (rule mem_step_legal)

section \<open>Nothing unapproved enters a context\<close>

definition promotes :: "uuid \<Rightarrow> mem_op \<Rightarrow> bool" where
  "promotes i op \<longleftrightarrow>
     (case op of MemApprove j a \<Rightarrow> j = i | MemPromote now thr n \<Rightarrow> True | _ \<Rightarrow> False)"

definition barred :: "uuid \<Rightarrow> db \<Rightarrow> bool" where
  "barred i s \<longleftrightarrow> (\<forall>m \<in> set (memories s). m_id m = i \<longrightarrow> \<not> retrieval_allowed (m_status m))"

lemma memories_upd: "memories (upd_memory i f s) = map (\<lambda>m. if m_id m = i then f m else m) (memories s)"
  by (simp add: upd_defs tupd_def)

lemma barred_upd:
  assumes "barred j s" and "\<And>m. m_id (f m) = m_id m"
    and "\<And>m. i = j \<Longrightarrow> retrieval_allowed (m_status (f m)) \<Longrightarrow> retrieval_allowed (m_status m)"
  shows "barred j (upd_memory i f s)"
  unfolding barred_def memories_upd
proof (intro ballI impI)
  fix x
  assume "x \<in> set (map (\<lambda>m. if m_id m = i then f m else m) (memories s))" and x: "m_id x = j"
  then obtain m where m: "m \<in> set (memories s)" "x = (if m_id m = i then f m else m)" by auto
  then have "m_id m = j" using x assms(2) by (simp split: if_splits)
  then have "\<not> retrieval_allowed (m_status m)" using assms(1) m(1) by (simp add: barred_def)
  then show "\<not> retrieval_allowed (m_status x)"
    using m(2) assms(3) [of m] \<open>m_id m = j\<close> by (cases "i = j") auto
qed

lemma get_memory_in: "get_memory i s = Some m \<Longrightarrow> m \<in> set (memories s) \<and> m_id m = i"
  by (auto simp: get_memory_def dest: tget_Some_key tget_Some_set)

lemma barred_step:
  assumes "barred j s" and "\<not> promotes j op"
  shows "barred j (mem_step redact op s)"
proof (cases op)
  case (MemCreate f now c src cf ttl cat ob)
  then show ?thesis
    using assms by (auto simp: create_candidate_def Let_def add_memory_eq barred_def put_defs
        retrieval_allowed_def split: option.splits)
next
  case (MemApprove i a)
  then show ?thesis
    using assms by (auto simp: mem_approve_def Let_def promotes_def intro!: barred_upd split: option.splits)
next
  case (MemReject i)
  then show ?thesis
    using assms by (auto simp: mem_reject_def retrieval_allowed_def intro!: barred_upd)
next
  case (MemActivate i)
  have "i \<noteq> j" if "get_memory i s = Some m" "m_status m \<in> {M_APPROVED, M_AUTO_APPROVED}" for m
    using get_memory_in [OF that(1)] that(2) assms(1) by (auto simp: barred_def retrieval_allowed_def)
  then show ?thesis
    using assms MemActivate by (auto simp: mark_active_def intro!: barred_upd split: option.splits)
next
  case (MemSupersede i k)
  have "barred j (s\<lparr>relations := r\<rparr>)" for r
    using assms(1) by (simp add: barred_def)
  then show ?thesis
    using assms MemSupersede
    by (auto simp: supersede_def retrieval_allowed_def intro!: barred_upd split: option.splits)
next
  case (MemContradict i k)
  then show ?thesis using assms by (simp add: link_contradiction_def barred_def)
next
  case (MemSearch now q st n v x)
  have "barred j (fold (\<lambda>m. upd_memory (m_id m) (\<lambda>m. m\<lparr>m_content := redact (m_content m)\<rparr>)) ms s)" for ms
    using assms(1)
  proof (induction ms arbitrary: s)
    case (Cons a ms)
    have "barred j (upd_memory (m_id a) (\<lambda>m. m\<lparr>m_content := redact (m_content m)\<rparr>) s)"
      by (rule barred_upd [OF Cons.prems]) simp_all
    then show ?case using Cons.IH by simp
  qed simp
  then show ?thesis using MemSearch by (simp add: search_def Let_def)
next
  case (MemExpire now)
  then show ?thesis
    using assms by (auto simp: expire_sweep_def sweep_def barred_def retrieval_allowed_def)
next
  case (MemPromote now thr n)
  then show ?thesis using assms by (simp add: promotes_def)
qed

text \<open>
  C27: the model cannot write permanent knowledge. After any sequence of operations of the memory
  service that contains neither an approval of an item nor an automatic promotion, an item that no
  row showed as approved or active before is not retrieved into any context.
\<close>

theorem unapproved_not_retrieved:
  assumes "list_all (\<lambda>m. \<not> (m_id m = i \<and> retrieval_allowed (m_status m))) (memories s)"
    and "list_all (\<lambda>op. \<not> promotes i op) ops"
  shows "i \<notin> m_id ` set (fst (retrieve_for_context redact now q n (fold (mem_step redact) ops s)))"
proof -
  have "barred i s" using assms(1) by (auto simp: barred_def list_all_iff)
  then have "barred i (fold (mem_step redact) ops s)"
    using assms(2) by (induction ops arbitrary: s) (auto simp: barred_step)
  then show ?thesis
    by (auto simp: retrieve_for_context_def search_def relevant_filter relevant_def barred_def
        retrieval_allowed_def Let_def dest!: in_set_takeD)
qed

theorem unapproved_not_retrieved_witness:
  "7 \<notin> m_id ` set (fst (retrieve_for_context id 5 ''a'' 10
     (fold (mem_step id) [MemCreate 7 0 ''abc'' ''run'' (9 / 10) None None None, MemActivate 7] empty_db)))"
  by (rule unapproved_not_retrieved) (simp_all add: empty_db_def promotes_def)

text \<open>
  The expiry sweep is exact and idempotent: it changes precisely the items that are due, reports
  their number, and a second sweep at the same time changes nothing and reports 0.
\<close>

theorem expire_sweep_idempotent:
  "expire_sweep now s =
     (length (filter (expirable now) (memories s)),
      s\<lparr>memories := map (\<lambda>m. if expirable now m then m\<lparr>m_status := M_EXPIRED\<rparr> else m) (memories s)\<rparr>) \<and>
   expire_sweep now (snd (expire_sweep now s)) = (0, snd (expire_sweep now s))"
proof -
  let ?g = "\<lambda>m. if expirable now m then m\<lparr>m_status := M_EXPIRED\<rparr> else m"
  have "\<not> expirable now (m\<lparr>m_status := M_EXPIRED\<rparr>)" for m
    by (simp add: expirable_def)
  then have "filter (expirable now) (map ?g ms) = []" "map ?g (map ?g ms) = map ?g ms" for ms
    by (auto simp: filter_empty_conv)
  then show ?thesis by (simp add: expire_sweep_def sweep_def)
qed

section \<open>The search by vectors\<close>

lemma vector_search_sound:
  assumes "m \<in> set (vector_search available distance now limit s)" and "distinct (map m_id (memories s))"
  shows "m_verification m = ''verified'' \<and> retrieval_allowed (m_status m) \<and> unexpired now m \<and> distance (m_id m) \<noteq> None"
proof -
  from assms(1) obtain m' where "m \<in> set (memories s)" "m_id m' = m_id m" "m' \<in> set (memories s)"
      "m_verification m' = ''verified''" "retrieval_allowed (m_status m')" "unexpired now m'" "distance (m_id m') \<noteq> None"
    by (auto simp: vector_search_def vector_ids_def Let_def split: if_splits dest!: in_set_takeD)
  moreover from this have "m' = m" using assms(2) by (auto simp: distinct_map dest: inj_onD)
  ultimately show ?thesis by simp
qed

text \<open>The ranking is lost between the two queries: with two items, the answer is the same whichever is nearer.\<close>

lemma vector_search_loses_ranking:
  assumes "memories s = [a, b]" and "m_id a \<noteq> m_id b" and "distance (m_id a) \<noteq> None" and "distance (m_id b) \<noteq> None"
    and "\<And>m. m \<in> {a, b} \<Longrightarrow> m_verification m = ''verified'' \<and> retrieval_allowed (m_status m) \<and> unexpired now m"
  shows "vector_search True distance now 10 s = [a, b]"
  using assms by (simp add: vector_search_def vector_ids_def Let_def)

end
