(* ===== verification/Config.thy ===== *)
theory Config
  imports Py_Base
begin

text \<open>
  The central configuration: \<open>packages/observability/config.py\<close>. The settings the other components
  read, the parsing of the Telegram allowlist and of the monitored rooms, the choice of the secrets
  file and the fail-closed validation of a production configuration. Reading the environment and
  the \<open>.env\<close> file is the work of \<open>pydantic_settings\<close> and is not modelled.
\<close>

record settings =
  app_env :: string
  app_timezone :: string
  schema_version :: int
  database_url :: string
  redis_url :: string
  jwt_secret :: string
  session_master_key :: string
  telegram_webhook_secret :: string
  cloudflare_access_aud :: string
  cloudflare_access_cert_pem_path :: string
  postgres_user :: string
  postgres_db :: string
  postgres_password :: string
  admin_email :: string
  admin_password_hash :: string
  session_ttl_seconds :: int
  rate_limit_per_minute :: int
  rate_limit_task_per_minute :: int
  max_request_body_bytes :: int
  telegram_bot_token :: string
  telegram_allowed_user_ids :: string
  telegram_group_enabled :: bool
  llm_provider :: string
  llm_base_url :: string
  llm_model :: string
  llm_api_key :: string
  default_github_repo :: string
  run_max_iterations :: int
  run_max_tool_calls :: int
  run_max_wall_seconds :: int
  run_max_token_budget :: int
  run_max_cost_budget :: rat
  connector_allowed_hosts :: string
  connector_max_response_bytes :: int
  connector_max_redirects :: int
  embedding_model :: string
  embedding_dim :: int
  memory_auto_promote_threshold :: rat
  technocore_enabled :: bool
  technocore_base_url :: string
  technocore_room_claim :: string
  technocore_monitored_rooms :: string
  technocore_key_path :: string
  api_host :: string
  api_port :: int
  worker_port :: int
  scheduler_port :: int
  vite_api_base :: string

definition default_settings :: settings where
  "default_settings =
     \<lparr>app_env = ''development'', app_timezone = ''UTC'', schema_version = 1,
      database_url = [], redis_url = ''redis://localhost:6379/0'',
      jwt_secret = [], session_master_key = [], telegram_webhook_secret = [],
      cloudflare_access_aud = [], cloudflare_access_cert_pem_path = [],
      postgres_user = ''lumi'', postgres_db = ''lumi'',
      postgres_password = [], admin_email = ''admin@example.com'', admin_password_hash = [],
      session_ttl_seconds = 12 * 3600, rate_limit_per_minute = 120,
      rate_limit_task_per_minute = 20, max_request_body_bytes = 1048576,
      telegram_bot_token = [], telegram_allowed_user_ids = [], telegram_group_enabled = False,
      llm_provider = ''mock'', llm_base_url = [], llm_model = [], llm_api_key = [],
      default_github_repo = [], run_max_iterations = 40, run_max_tool_calls = 80,
      run_max_wall_seconds = 900, run_max_token_budget = 200000, run_max_cost_budget = 5,
      connector_allowed_hosts = [], connector_max_response_bytes = 1048576,
      connector_max_redirects = 3, embedding_model = [], embedding_dim = 1536,
      memory_auto_promote_threshold = 85 / 100,
      technocore_enabled = False, technocore_base_url = [], technocore_room_claim = [],
      technocore_monitored_rooms = [], technocore_key_path = [], api_host = ''0.0.0.0'', api_port = 8000,
      worker_port = 8001, scheduler_port = 8002, vite_api_base = ''/api''\<rparr>"

section \<open>The Telegram allowlist\<close>

text \<open>
  One part of the comma-separated list: \<open>part.lstrip("-").isdigit()\<close> guards \<open>int(part)\<close>, which
  raises \<open>ValueError\<close> (\<open>None\<close>) on a part such as \<open>--5\<close> that the guard lets through.
\<close>

fun add_ids :: "string list \<Rightarrow> int set \<Rightarrow> int set option" where
  "add_ids [] out = Some out"
| "add_ids (part # ps) out =
     (let p = strip part in
      if p \<noteq> [] \<and> str_isdigit (lstrip_by (\<lambda>c. c = CHR ''-'') p)
      then (case py_int 10 p of None \<Rightarrow> None | Some i \<Rightarrow> add_ids ps (insert i out))
      else add_ids ps out)"

definition allowed_user_ids :: "settings \<Rightarrow> int set option" where
  "allowed_user_ids cfg =
     (let raw = strip (telegram_allowed_user_ids cfg) in
      if raw = [] \<or> raw = ''*'' then Some {} else add_ids (split_on (CHR '','') raw) {})"

definition is_production :: "settings \<Rightarrow> bool" where
  "is_production cfg \<longleftrightarrow> app_env cfg = ''production''"

definition technocore_rooms :: "settings \<Rightarrow> string list" where
  "technocore_rooms cfg =
     (let raw = strip (technocore_monitored_rooms cfg) in
      if raw = [] then []
      else map strip (filter (\<lambda>x. strip x \<noteq> []) (split_on (CHR '','') raw)))"

text \<open>The first candidate that is set and exists; \<open>exists\<close> is the file system.\<close>

definition secrets_file :: "(string \<Rightarrow> bool) \<Rightarrow> string \<Rightarrow> string" where
  "secrets_file exists env_path =
     (case find (\<lambda>c. c \<noteq> [] \<and> exists c) [env_path, ''./secrets/app.env'', ''/run/secrets/app.env''] of
        Some c \<Rightarrow> c
      | None \<Rightarrow> ''.env'')"

section \<open>Validation of a production configuration\<close>

datatype config_error = DatabaseUrlNotSet | DatabaseUrlRequired | SecretNotSet string

definition placeholders :: "string list" where
  "placeholders =
     [''CHANGE_ME'', ''dev-only-change-me'', ''dev-only-32-byte-master-key-0000000000'',
      ''dev-webhook-secret'', ''random'', []]"

definition secret_settings :: "settings \<Rightarrow> (string \<times> string) list" where
  "secret_settings cfg =
     [(''JWT_SECRET'', jwt_secret cfg),
      (''SESSION_ENCRYPTION_MASTER_KEY'', session_master_key cfg),
      (''TELEGRAM_WEBHOOK_SECRET'', telegram_webhook_secret cfg),
      (''POSTGRES_PASSWORD'', postgres_password cfg),
      (''ADMIN_PASSWORD_HASH'', admin_password_hash cfg)]"

definition bad_secret :: "string \<Rightarrow> bool" where
  "bad_secret v \<longleftrightarrow> v = [] \<or> v \<in> set placeholders \<or> contains ''CHANGE_ME'' v"

text \<open>\<open>Inl\<close> is the \<open>RuntimeError\<close> with the list of problems.\<close>

definition validate_production :: "settings \<Rightarrow> config_error list + unit" where
  "validate_production cfg =
     (if \<not> is_production cfg then Inr ()
      else
        let errors =
          (if database_url cfg = [] \<or> contains ''random'' (database_url cfg)
           then [DatabaseUrlNotSet] else [])
          @ (if database_url cfg = [] then [DatabaseUrlRequired] else [])
          @ map (\<lambda>nv. SecretNotSet (fst nv)) (filter (\<lambda>nv. bad_secret (snd nv)) (secret_settings cfg))
        in if errors = [] then Inr () else Inl errors)"

section \<open>What the validation and the parsing guarantee\<close>

definition real_secret :: "string \<Rightarrow> bool" where
  "real_secret v \<longleftrightarrow> v \<noteq> [] \<and> v \<notin> set placeholders \<and> \<not> sublist ''CHANGE_ME'' v"

lemma bad_secret_iff: "bad_secret v \<longleftrightarrow> \<not> real_secret v"
  unfolding bad_secret_def real_secret_def contains_sublist by blast

lemma no_bad_secret:
  "filter (\<lambda>nv. bad_secret (snd nv)) (secret_settings cfg) = [] \<longleftrightarrow>
     list_all real_secret
       [jwt_secret cfg, session_master_key cfg, telegram_webhook_secret cfg,
        postgres_password cfg, admin_password_hash cfg]"
  by (simp add: secret_settings_def bad_secret_iff)

text \<open>
  A configuration that is accepted is either not a production one, or it has a database URL
  without the dummy password and five secrets none of which is empty, a known placeholder or
  contains a placeholder; and the validation rejects no other configuration.
\<close>

theorem validate_production_iff:
  "validate_production cfg = Inr () \<longleftrightarrow>
     (if app_env cfg = ''production''
      then database_url cfg \<noteq> [] \<and> \<not> sublist ''random'' (database_url cfg) \<and>
           list_all real_secret
             [jwt_secret cfg, session_master_key cfg, telegram_webhook_secret cfg,
              postgres_password cfg, admin_password_hash cfg]
      else True)"
  unfolding validate_production_def is_production_def Let_def
  by (simp add: no_bad_secret contains_sublist)

lemma add_ids_mono: "add_ids ps out = Some S \<Longrightarrow> out \<subseteq> S"
  by (induction ps out rule: add_ids.induct) (auto simp: Let_def split: if_splits option.splits)

lemma add_ids_spec:
  "add_ids ps out = Some S \<Longrightarrow>
   S = out \<union> {i. \<exists>p \<in> set ps. strip p \<noteq> [] \<and>
               str_isdigit (lstrip_by (\<lambda>c. c = CHR ''-'') (strip p)) \<and> py_int 10 (strip p) = Some i}"
  by (induction ps out rule: add_ids.induct) (auto simp: Let_def split: if_splits option.splits)

text \<open>The wildcard and the empty list allow nobody.\<close>

lemma no_wildcard:
  "strip (telegram_allowed_user_ids cfg) \<in> {[], ''*''} \<Longrightarrow> allowed_user_ids cfg = Some {}"
  by (auto simp: allowed_user_ids_def Let_def)

text \<open>The guard does not protect the conversion: a doubled minus sign raises.\<close>

lemma allowed_user_ids_raises:
  "allowed_user_ids (default_settings\<lparr>telegram_allowed_user_ids := ''--5''\<rparr>) = None"
  by code_simp

end
