(* ===== verification/Process_Run.thy ===== *)
theory Process_Run
  imports Worker Planner Assembler Memory Config
begin

text \<open>
  The worker's \<open>_process_run\<close> as a whole (\<open>apps/worker/worker.py\<close>): the claim, the continuation after an
  approval, else the coordinator with the planner, the context, the default policy and the event sink over
  the database, and the final update. What other sessions commit meanwhile (the heartbeat task of the
  worker included) is part of the world the run meets.
\<close>

section \<open>The world of a run\<close>

text \<open>
  Everything \<open>_process_run\<close> meets. \<open>wo_others k\<close> is what other sessions commit before its \<open>k\<close>-th own
  transaction after the claim, \<open>wo_now k\<close> the clock and \<open>wo_fresh k\<close> the identifier a new row gets in it;
  the \<open>k\<close>-th call of the sink (from 0) comes with the number \<open>k + 1\<close>. \<open>wo_tools i\<close> are the connectors
  during the action at position \<open>i\<close>, \<open>wo_exn\<close> gives class name and text of an exception.
\<close>

record world =
  wo_cfg :: settings
  wo_name :: string
  wo_others :: "nat \<Rightarrow> db \<Rightarrow> db"
  wo_now :: "nat \<Rightarrow> time"
  wo_fresh :: "nat \<Rightarrow> uuid"
  wo_mono :: "time \<times> (nat \<Rightarrow> time) \<times> (nat \<Rightarrow> time)"
  wo_tools :: "nat \<Rightarrow> connectors"
  wo_exn :: "tool_error \<Rightarrow> string \<times> string"
  wo_chat :: "chat option"
  wo_loads :: "string \<Rightarrow> pyval option"
  wo_float :: "string \<Rightarrow> rat option"
  wo_dialect :: string
  wo_sha :: "string \<Rightarrow> string"
  wo_redact :: "string \<Rightarrow> string"
  wo_json :: "rat \<Rightarrow> string"
  wo_wording :: "string \<Rightarrow> string"
  wo_tokens :: "(string \<Rightarrow> int) option"
  wo_reason :: "seg_reason \<Rightarrow> string"
  wo_stamp :: "time \<Rightarrow> string"

definition run_budget :: "settings \<Rightarrow> budget" where
  "run_budget cfg =
     \<lparr>max_iterations = run_max_iterations cfg, max_tool_calls = run_max_tool_calls cfg,
      max_wall_seconds = run_max_wall_seconds cfg, max_tokens = run_max_token_budget cfg,
      max_cost = run_max_cost_budget cfg\<rparr>"

section \<open>Plan and context\<close>

text \<open>The executor's task has the prompt and the scope only: the planner sees no title.\<close>

definition task_of :: "task \<Rightarrow> plan_task" where
  "task_of t = \<lparr>pt_kind = dget (t_scope t) ''kind'' (PStr ''observe''), pt_title = [], pt_prompt = t_prompt t\<rparr>"

fun entry_value :: "plan_entry \<Rightarrow> pyval" where
  "entry_value (Junk v) = v"
| "entry_value (Act a) =
     PDict [(''action_id'', PStr (pa_id a)), (''tool'', PStr (pa_tool a)), (''arguments'', PDict (pa_args a)),
            (''reason'', PStr (pa_reason a)), (''expected_evidence'', PList (map PStr (pa_expected a))),
            (''action_class'', PStr (pa_class a))]"

definition plan_value :: "run_plan \<Rightarrow> pyval" where
  "plan_value p =
     PDict ([(''goal'', pl_goal p), (''assumptions'', PList (map PStr (pl_assumptions p))),
             (''success_criteria'', PList (map PStr (pl_criteria p))),
             (''actions'', PList (map entry_value (pl_actions p)))]
            @ (case pl_usage p of None \<Rightarrow> [] | Some u \<Rightarrow> [(''_llm_usage'', PDict u)]))"

definition memory_relevance :: "memory_item \<Rightarrow> rat" where
  "memory_relevance m = clamp (if m_confidence m = 0 then 1 / 2 else m_confidence m)"

definition memory_title :: "memory_item \<Rightarrow> string" where
  "memory_title m =
     ''memory:'' @ (case m_category m of None \<Rightarrow> ''genel'' | Some c \<Rightarrow> if c = [] then ''genel'' else c)"

text \<open>The goal of the task, then what the memory has about it.\<close>

definition run_context :: "world \<Rightarrow> run \<Rightarrow> task \<Rightarrow> memory_item list \<Rightarrow> assembler" where
  "run_context w r t items =
     fold (\<lambda>m. add_segment (wo_redact w) (wo_tokens w) (wo_now w 0) ''memory'' (m_content m) (memory_title m) []
                 (memory_relevance m) 0 False)
       items
       (add_segment (wo_redact w) (wo_tokens w) (wo_now w 0) ''task_goal'' (t_prompt t) (t_title t) [] 1 0 False
         (new_assembler (rum_budget r)))"

section \<open>The environment of the coordinator\<close>

text \<open>One call of the sink, after what the other sessions did.\<close>

definition sink_at :: "world \<Rightarrow> string \<Rightarrow> nat \<Rightarrow> string \<times> pydict \<Rightarrow> db \<Rightarrow> bool \<times> db" where
  "sink_at w run_id k call s =
     run_sink (wo_sha w) (wo_redact w) (wo_json w) (wo_wording w) (wo_dialect w) (wo_fresh w k) (wo_now w k)
       run_id (fst call) (snd call) (wo_others w k s)"

definition after_calls :: "world \<Rightarrow> string \<Rightarrow> db \<Rightarrow> (string \<times> pydict) list \<Rightarrow> db" where
  "after_calls w run_id s calls =
     foldl (\<lambda>s (k, call). snd (sink_at w run_id k call s)) s (enumerate 1 calls)"

definition sink_answer :: "world \<Rightarrow> string \<Rightarrow> db \<Rightarrow> (string \<times> pydict) list \<Rightarrow> (string \<times> string) option" where
  "sink_answer w run_id s calls =
     (if fst (sink_at w run_id (length calls) (last calls) (after_calls w run_id s (butlast calls)))
      then None
      else Some (''CriticalEventPersistenceError'',
                 ''critical secondary persistence failure '' @ fst (last calls)))"

text \<open>\<open>_pause_check\<close> and \<open>_stop_check\<close>: the request is read from the current row.\<close>

definition requested :: "string \<Rightarrow> string \<Rightarrow> db \<Rightarrow> bool" where
  "requested what run_id s =
     (case uuid_of_string run_id of
        None \<Rightarrow> False
      | Some rid \<Rightarrow> (case get_run rid s of None \<Rightarrow> False | Some r \<Rightarrow> r_control r = Some what))"

definition seen_after :: "world \<Rightarrow> string \<Rightarrow> db \<Rightarrow> (string \<times> pydict) list \<Rightarrow> db" where
  "seen_after w run_id s calls = wo_others w (Suc (length calls)) (after_calls w run_id s calls)"

definition worker_env :: "world \<Rightarrow> string \<Rightarrow> db \<Rightarrow> env" where
  "worker_env w run_id s =
     \<lparr>en_start = fst (wo_mono w),
      en_pause = (\<lambda>i calls. requested ''pause'' run_id (seen_after w run_id s calls)),
      en_stop = (\<lambda>i calls. requested ''stop'' run_id (seen_after w run_id s calls)),
      en_clock = fst (snd (wo_mono w)), en_fail_clock = snd (snd (wo_mono w)),
      en_exec = (\<lambda>i tool args.
        case execute (build_default_registry (wo_tools w i)) tool args of
          Inl x \<Rightarrow> Inl (wo_exn w x) | Inr v \<Rightarrow> Inr v),
      en_sink = sink_answer w run_id s\<rparr>"

definition coordinate :: "world \<Rightarrow> string \<Rightarrow> run \<Rightarrow> task \<Rightarrow> db \<Rightarrow> coord + coord" where
  "coordinate w run_id r t s =
     (let items = fst (retrieve_for_context (wo_redact w) (wo_now w 0) (t_prompt t) 10 s);
          plan = make_plan (default_github_repo (wo_cfg w)) (wo_loads w) (wo_chat w) (task_of t)
      in coord_run (run_budget (wo_cfg w)) (decide []) (verify default_checks) (wo_float w)
           (worker_env w run_id s) plan (plan_value plan)
           (inspector_metadata (wo_reason w) (wo_stamp w)
              (snd (snd (assemble (wo_reason w) (run_context w r t items)))))
           ((new_coord run_id)\<lparr>co_status := EXECUTING\<rparr>))"

section \<open>The run\<close>

text \<open>\<open>Raised\<close>: an exception leaves \<open>_process_run\<close>, so that the entry is not acknowledged.\<close>

datatype outcome = Returned db | Raised db

text \<open>
  The items the retrieval redacted are objects of the outer session: their changes are written with the
  final commit.
\<close>

definition write_redacted :: "memory_item list \<Rightarrow> db \<Rightarrow> db \<Rightarrow> db" where
  "write_redacted items s0 s =
     fold (\<lambda>m. upd_memory (m_id m) (\<lambda>r. r\<lparr>m_content := m_content m\<rparr>))
       (filter (\<lambda>m. map_option m_content (get_memory (m_id m) s0) \<noteq> Some (m_content m)) items) s"

text \<open>
  The coordinator part, from the memory retrieval to the final commit. An exception of the sink that
  leaves \<open>run\<close> is raised again. The clause for any other exception is \<open>report_fatal\<close>; nothing modelled
  here raises one, so it stands for itself.
\<close>

definition run_coordinator :: "world \<Rightarrow> string \<Rightarrow> run \<Rightarrow> task \<Rightarrow> db \<Rightarrow> outcome" where
  "run_coordinator w run_id r t s =
     (case coordinate w run_id r t s of
        Inl c \<Rightarrow> Raised (after_calls w run_id s (co_sunk c))
      | Inr c \<Rightarrow>
          Returned
            (process_finish (wo_now w (Suc (length (co_sunk c)))) r (co_status c) (co_iteration c)
               (co_tokens c) (co_cost c)
               (write_redacted (fst (retrieve_for_context (wo_redact w) (wo_now w 0) (t_prompt t) 10 s)) s
                 (seen_after w run_id s (co_sunk c)))))"

definition report_fatal :: "world \<Rightarrow> uuid \<Rightarrow> run \<Rightarrow> coord \<Rightarrow> string \<times> string \<Rightarrow> db \<Rightarrow> outcome" where
  "report_fatal w rid r c x s =
     (case append_event (wo_dialect w) rid ''FATAL''
             [(''error'', PStr (fst x)), (''detail'', PStr (take 500 (wo_redact w (snd x))))] s of
        Inl _ \<Rightarrow> Raised s
      | Inr s1 \<Rightarrow>
          Returned (process_finish (wo_now w (Suc (length (co_sunk c)))) r FAILED (co_iteration c)
                      (co_tokens c) (co_cost c) s1))"

text \<open>
  A closed continuation reports its event: after its commit, or before it where an execution is still
  PENDING, in which case a failing append undoes the transaction.
\<close>

definition report_closed :: "world \<Rightarrow> uuid \<Rightarrow> string \<Rightarrow> pydict \<Rightarrow> db \<Rightarrow> db \<Rightarrow> outcome" where
  "report_closed w rid etype payload s s1 =
     (case append_event (wo_dialect w) rid etype payload (wo_others w 1 s1) of
        Inl _ \<Rightarrow> Raised (if dget payload ''reason'' PNone = PStr ''pending_after_crash_fail_closed''
                        then wo_others w 1 s else wo_others w 1 s1)
      | Inr s2 \<Rightarrow> Returned s2)"

text \<open>The \<open>except\<close> clause of the approved action.\<close>

definition action_failed :: "world \<Rightarrow> uuid \<Rightarrow> uuid \<Rightarrow> string \<Rightarrow> string \<times> string \<Rightarrow> db \<Rightarrow> outcome" where
  "action_failed w rid aid tool x s =
     (case append_event (wo_dialect w) rid ''TOOL_ERROR''
             [(''tool'', PStr tool), (''error'', PStr (fst x)), (''approval_id'', PStr (uuid_str aid))]
             (wo_others w 1 s) of
        Inl _ \<Rightarrow> Raised (wo_others w 1 s)
      | Inr s1 \<Rightarrow>
          Returned (finish_failure (wo_now w 2) rid aid
                      [(''error'', PStr (fst x)), (''detail'', PStr (take 500 (wo_redact w (snd x))))]
                      (wo_others w 2 s1)))"

fun event_exn :: "event_error \<Rightarrow> string \<times> string" where
  "event_exn (UnsupportedDialect d) =
     (''RuntimeError'', ''unsupported dialect for RunEvent append: '' @ [CHR 0x27] @ d @ [CHR 0x27])"
| "event_exn EventIntegrity = (''IntegrityError'', [])"

text \<open>The action of the consumed approval, called once. A failing append of its event counts as its failure.\<close>

definition approved_action :: "world \<Rightarrow> uuid \<Rightarrow> uuid \<Rightarrow> pydict \<Rightarrow> db \<Rightarrow> outcome" where
  "approved_action w rid aid payload s =
     (let tool = payload_tool payload; args = payload_args payload in
      case call_tool (build_default_registry (wo_tools w 0)) tool args of
        Inl x \<Rightarrow> action_failed w rid aid tool (wo_exn w x) s
      | Inr result \<Rightarrow>
          (case append_event (wo_dialect w) rid ''TOOL_CALL''
                  [(''tool'', PStr tool), (''arguments'', PDict args), (''result'', result),
                   (''action_id'', py_or (dget payload ''action_id'' PNone) (PStr (uuid_str aid))),
                   (''approval_id'', PStr (uuid_str aid))] (wo_others w 1 s) of
             Inl err \<Rightarrow> action_failed w rid aid tool (event_exn err) s
           | Inr s1 \<Rightarrow>
               Returned (finish_success (wo_redact w) (wo_json w) (wo_now w 2) rid aid payload result
                           (wo_others w 2 s1))))"

definition process_run :: "world \<Rightarrow> string \<Rightarrow> db \<Rightarrow> outcome" where
  "process_run w run_id s =
     (case process_start (wo_name w) (wo_now w 0) run_id s of
        BadRunKey \<Rightarrow> Raised s
      | NothingToDo s1 \<Rightarrow> Returned s1
      | ClaimedRun rid r t s1 \<Rightarrow>
          (let s2 = wo_others w 0 s1 in
           case try_continuation (wo_now w 0) rid s2 of
             ContRaises \<Rightarrow> Raised s2
           | Closed etype payload s3 \<Rightarrow> report_closed w rid etype payload s2 s3
           | TakeAction aid payload s3 \<Rightarrow> approved_action w rid aid payload s3
           | NoApproval \<Rightarrow> run_coordinator w run_id r t s2))"

section \<open>What the other sessions keep\<close>

definition logged :: "db \<Rightarrow> (uuid \<times> string \<times> pydict) list" where
  "logged s = map (\<lambda>e. (e_run e, e_type e, e_payload e)) (events s)"

text \<open>The run and the action an approval is about.\<close>

definition asks_for :: "uuid \<Rightarrow> db \<Rightarrow> (uuid option \<times> pydict) option" where
  "asks_for u s = map_option (\<lambda>a. (a_run a, a_payload a)) (get_approval u s)"

text \<open>
  What a run relies on from the other sessions: they append to the event log and keep it well formed, they
  remove no run, execution or approval and keep what an approval is about, and the identifiers \<open>ours\<close> are
  not among those they give.
\<close>

locale neighbours =
  fixes other :: "nat \<Rightarrow> db \<Rightarrow> db" and sq :: bool and ours :: "uuid set"
  assumes log_wf: "events_wf sq s \<Longrightarrow> events_wf sq (other k s)"
    and log_grows: "prefix (logged s) (logged (other k s))"
    and approvals_stay: "asks_for u s \<noteq> None \<or> u \<in> ours \<Longrightarrow> asks_for u (other k s) = asks_for u s"
    and runs_stay: "get_run u s \<noteq> None \<Longrightarrow> get_run u (other k s) \<noteq> None"
    and executions_stay: "get_execution u s \<noteq> None \<Longrightarrow> get_execution u (other k s) \<noteq> None"

text \<open>
  The heartbeat task of the worker is such a session, so are the users who decide on approvals, and so are
  any two of them together.
\<close>

lemma events_wf_cong: "events s' = events s \<Longrightarrow> next_gseq s' = next_gseq s \<Longrightarrow> events_wf sq s' = events_wf sq s"
  by (simp add: events_wf_def events_of_def)

interpretation heartbeats: neighbours "\<lambda>k. heartbeat worker (now k) rid" sq ours for worker now rid sq ours
  by unfold_locales
    (auto simp: heartbeat_def logged_def asks_for_def run_store.get_upd cong: events_wf_cong
      split: option.split if_splits)

lemma decided_rows:
  "ap_decide now i d v s = (x, s') \<Longrightarrow>
   events s' = events s \<and> next_gseq s' = next_gseq s \<and> asks_for u s' = asks_for u s \<and>
   runs s' = runs s \<and> executions s' = executions s"
  by (auto simp: ap_decide_def asks_for_def approval_store.get_upd set_decision_def option.map_comp comp_def
      split: option.splits if_splits)

lemma continued_rows:
  "ap_continue now d a s = (x, s') \<Longrightarrow>
   events s' = events s \<and> next_gseq s' = next_gseq s \<and> asks_for u s' = asks_for u s \<and>
   executions s' = executions s \<and> (get_run j s \<noteq> None \<longrightarrow> get_run j s' \<noteq> None)"
  by (auto simp: ap_continue_def asks_for_def add_outbox_eq get_upd_run Let_def split: option.splits if_splits)

lemma decision_rows:
  "decide_with_continuation now i d v s = (x, s') \<Longrightarrow>
   events s' = events s \<and> next_gseq s' = next_gseq s \<and> asks_for u s' = asks_for u s \<and>
   executions s' = executions s \<and> (get_run j s \<noteq> None \<longrightarrow> get_run j s' \<noteq> None)"
  using decided_rows [of now i d v s] continued_rows [of now d]
  by (fastforce simp: decide_with_continuation_def get_run_def split: prod.splits sum.splits)

interpretation decisions: neighbours "\<lambda>k s. snd (decide_with_continuation (now k) (i k) (d k) (v k) s)" sq ours
  for now i d v sq ours
proof unfold_locales
  fix s k
  obtain x s' where d: "decide_with_continuation (now k) (i k) (d k) (v k) s = (x, s')" by fastforce
  note r = decision_rows [OF d]
  show "events_wf sq s \<Longrightarrow> events_wf sq (snd (decide_with_continuation (now k) (i k) (d k) (v k) s))"
    using r events_wf_cong [of s' s sq] by (simp add: d)
  show "prefix (logged s) (logged (snd (decide_with_continuation (now k) (i k) (d k) (v k) s)))"
    using r by (simp add: d logged_def)
  show "asks_for u (snd (decide_with_continuation (now k) (i k) (d k) (v k) s)) = asks_for u s" for u
    using r by (simp add: d)
  show "get_run u s \<noteq> None \<Longrightarrow> get_run u (snd (decide_with_continuation (now k) (i k) (d k) (v k) s)) \<noteq> None" for u
    using r by (simp add: d)
  show "get_execution u s \<noteq> None \<Longrightarrow>
      get_execution u (snd (decide_with_continuation (now k) (i k) (d k) (v k) s)) \<noteq> None" for u
    using r by (simp add: d get_execution_def)
qed

lemma neighbours_together:
  assumes "neighbours f sq ours" and "neighbours g sq ours"
  shows "neighbours (\<lambda>k s. g k (f k s)) sq ours"
proof unfold_locales
  fix s k u
  show "events_wf sq s \<Longrightarrow> events_wf sq (g k (f k s))"
    using neighbours.log_wf [OF assms(1)] neighbours.log_wf [OF assms(2)] by blast
  show "prefix (logged s) (logged (g k (f k s)))"
    using neighbours.log_grows [OF assms(1)] neighbours.log_grows [OF assms(2)] prefix_order.trans by blast
  show "asks_for u s \<noteq> None \<or> u \<in> ours \<Longrightarrow> asks_for u (g k (f k s)) = asks_for u s"
    using neighbours.approvals_stay [OF assms(1)] neighbours.approvals_stay [OF assms(2)] by metis
  show "get_run u s \<noteq> None \<Longrightarrow> get_run u (g k (f k s)) \<noteq> None"
    using neighbours.runs_stay [OF assms(1)] neighbours.runs_stay [OF assms(2)] by blast
  show "get_execution u s \<noteq> None \<Longrightarrow> get_execution u (g k (f k s)) \<noteq> None"
    using neighbours.executions_stay [OF assms(1)] neighbours.executions_stay [OF assms(2)] by blast
qed

section \<open>One append, one call of the sink\<close>

lemma append_event_ok:
  assumes "events_wf (is_sqlite (strip (lower d))) s" "supported d"
  shows "\<exists>s'. append_event d rid et p s = Inr s' \<and> logged s' = logged s @ [(rid, et, p)] \<and>
    events_wf (is_sqlite (strip (lower d))) s' \<and>
    runs s' = runs s \<and> approvals s' = approvals s \<and> executions s' = executions s"
proof -
  obtain e s' where a: "append_run_event_in_session d rid et p s s = Inr (e, s')"
    and wf: "events_wf (is_sqlite (strip (lower d))) s'"
    using append_ok [OF assms, of rid et p] by blast
  have "append_event d rid et p s = Inr s'"
    by (simp add: append_event_def append_run_event_safe_def safe_from.simps [of d rid et p 5 _ 0] a)
  then show ?thesis
    using append_shape [OF a] append_frame [OF a] wf by (simp add: logged_def)
qed

text \<open>The calls that come from a coordinator: a request for an approval is complete and of a gated tool.\<close>

definition proper_call :: "string \<times> pydict \<Rightarrow> bool" where
  "proper_call call \<longleftrightarrow> fst call = ''AWAITING_APPROVAL'' \<longrightarrow>
     (\<exists>a. pd_decision (decide [] (pa_tool a)) = ''REQUIRE_APPROVAL'' \<and>
       snd call = approval_request (decide [] (pa_tool a)) (a :: plan_action))"

lemma proper_covers: "covers (decide []) proper_call"
  by (auto simp: covers_def proper_call_def)

text \<open>What an approval row stores of a request.\<close>

definition stored_request :: "plan_action \<Rightarrow> pydict" where
  "stored_request a =
     [(''action_id'', PStr (pa_id a)), (''tool'', PStr (pa_tool a)), (''arguments'', PDict (pa_args a))]"

lemma same_approvals: "approvals s' = approvals s \<Longrightarrow> asks_for u s' = asks_for u s"
  by (simp add: asks_for_def get_approval_def)

lemma same_runs: "runs s' = runs s \<Longrightarrow> get_run u s' = get_run u s"
  by (simp add: get_run_def)

lemma no_uuid: "uuid_of_string [] = None"
  by code_simp

lemma sink_rows_ok:
  assumes "proper_call (et, p)" and "asks_for fresh s = None" and "uuid_of_string run_id = Some rid"
  shows "\<exists>s'. sink_rows sha redact fl wording fresh now run_id rid et p s = Some s' \<and>
    events s' = events s \<and> next_gseq s' = next_gseq s \<and> runs s' = runs s \<and>
    (if et = ''AWAITING_APPROVAL''
     then \<exists>a. p = approval_request (decide [] (pa_tool a)) a \<and>
       (\<forall>u. asks_for u s' = (if u = fresh then Some (Some rid, stored_request a) else asks_for u s))
     else \<forall>u. asks_for u s' = asks_for u s)"
proof (cases "et = ''AWAITING_APPROVAL''")
  case True
  then obtain a where a: "p = approval_request (decide [] (pa_tool a)) (a :: plan_action)"
    using assms(1) by (auto simp: proper_call_def)
  have r: "run_id \<noteq> []" using assms(3) no_uuid by auto
  have g: "get_approval fresh s = None" using assms(2) by (simp add: asks_for_def)
  show ?thesis
    using True r g assms(3)
    by (auto simp: a sink_rows_def ap_create_def add_approval_eq approval_request_def dget_def Let_def
        stored_request_def asks_for_def table_simps intro!: exI [of _ a] split: option.split)
next
  case False
  then show ?thesis
    by (auto simp: sink_rows_def asks_for_def get_approval_def)
qed

section \<open>A run among well-behaved sessions\<close>

definition wf_log :: "world \<Rightarrow> db \<Rightarrow> bool" where
  "wf_log w s \<longleftrightarrow> events_wf (is_sqlite (strip (lower (wo_dialect w)))) s"

text \<open>The rows during the calls of the sink; the identifiers from \<open>n\<close> on are unused.\<close>

definition ready :: "world \<Rightarrow> uuid \<Rightarrow> nat \<Rightarrow> db \<Rightarrow> bool" where
  "ready w rid n s \<longleftrightarrow> wf_log w s \<and> get_run rid s \<noteq> None \<and> (\<forall>k. n \<le> k \<longrightarrow> asks_for (wo_fresh w k) s = None)"

definition grows :: "db \<Rightarrow> db \<Rightarrow> bool" where
  "grows s s' \<longleftrightarrow> prefix (logged s) (logged s') \<and>
     (\<forall>u. asks_for u s \<noteq> None \<longrightarrow> asks_for u s' = asks_for u s)"

lemma grows_trans: "grows s s' \<Longrightarrow> grows s' s'' \<Longrightarrow> grows s s''"
  unfolding grows_def by (metis prefix_order.trans)

text \<open>A request for an approval that has its row.\<close>

definition filed :: "uuid \<Rightarrow> pydict \<Rightarrow> db \<Rightarrow> bool" where
  "filed rid p s \<longleftrightarrow> (\<exists>a u. p = approval_request (decide [] (pa_tool a)) (a :: plan_action) \<and>
     asks_for u s = Some (Some rid, stored_request a))"

lemma filed_grows: "filed rid p s \<Longrightarrow> grows s s' \<Longrightarrow> filed rid p s'"
  unfolding filed_def grows_def by (metis option.distinct(1))

lemma after_calls_snoc:
  "after_calls w run_id s (calls @ [call]) =
     snd (sink_at w run_id (Suc (length calls)) call (after_calls w run_id s calls))"
  by (simp add: after_calls_def enumerate_append_eq)

text \<open>
  A world a run can rely on: the dialect is one of the two supported ones, the identifiers of new rows are
  fresh, and the other sessions keep to the contract.
\<close>

locale good_world =
  neighbours "wo_others w" "is_sqlite (strip (lower (wo_dialect w)))" "range (wo_fresh w)" for w :: world +
  assumes dialect: "supported (wo_dialect w)" and fresh_inj: "inj (wo_fresh w)"
begin

lemma ready_other: "ready w rid n s \<Longrightarrow> ready w rid n (wo_others w k s)" "grows s (wo_others w k s)"
  using log_wf runs_stay approvals_stay log_grows by (auto simp: ready_def wf_log_def grows_def)

lemma append_in_world:
  assumes "ready w rid n s"
  shows "\<exists>s'. append_event (wo_dialect w) rid' et p s = Inr s' \<and> logged s' = logged s @ [(rid', et, p)] \<and>
    ready w rid n s' \<and> grows s s' \<and> runs s' = runs s \<and> executions s' = executions s"
proof -
  obtain s' where s': "append_event (wo_dialect w) rid' et p s = Inr s'" "logged s' = logged s @ [(rid', et, p)]"
      "wf_log w s'" "runs s' = runs s" "approvals s' = approvals s" "executions s' = executions s"
    using append_event_ok [of "wo_dialect w" s rid' et p] assms dialect unfolding ready_def wf_log_def by blast
  moreover have "ready w rid n s'" "grows s s'"
    using s' assms same_approvals [OF s'(5)] same_runs [OF s'(4)] by (simp_all add: ready_def grows_def)
  ultimately show ?thesis by blast
qed

lemma sink_in_world:
  assumes "ready w rid k s" and "proper_call call" and "uuid_of_string run_id = Some rid"
  shows "\<exists>s'. sink_at w run_id k call s = (True, s') \<and> ready w rid (Suc k) s' \<and> grows s s' \<and>
    logged s' = logged (wo_others w k s) @ [(rid, call)] \<and>
    (fst call = ''AWAITING_APPROVAL'' \<longrightarrow> filed rid (snd call) s')"
proof -
  let ?s = "wo_others w k s"
  obtain et p where call: "call = (et, p)" by (cases call)
  have s: "ready w rid k ?s" "grows s ?s" using ready_other(1) [OF assms(1)] ready_other(2) by blast+
  obtain s1 where s1: "append_event (wo_dialect w) rid et p ?s = Inr s1" "logged s1 = logged ?s @ [(rid, et, p)]"
      "ready w rid k s1" "grows ?s s1"
    using append_in_world [OF s(1)] by blast
  have fresh: "asks_for (wo_fresh w k) s1 = None" using s1(3) by (simp add: ready_def)
  obtain s2 where s2: "sink_rows (wo_sha w) (wo_redact w) (wo_json w) (wo_wording w) (wo_fresh w k) (wo_now w k)
        run_id rid et p s1 = Some s2" "events s2 = events s1" "next_gseq s2 = next_gseq s1" "runs s2 = runs s1"
      "if et = ''AWAITING_APPROVAL''
       then \<exists>a. p = approval_request (decide [] (pa_tool a)) a \<and>
         (\<forall>u. asks_for u s2 = (if u = wo_fresh w k then Some (Some rid, stored_request a) else asks_for u s1))
       else \<forall>u. asks_for u s2 = asks_for u s1"
    using sink_rows_ok [OF assms(2) [unfolded call] fresh assms(3), of "wo_sha w" "wo_redact w" "wo_json w"
        "wo_wording w" "wo_now w k"] by blast
  have l: "logged s2 = logged ?s @ [(rid, call)]" using s1(2) s2(2) by (simp add: logged_def call)
  have a: "asks_for u s2 = asks_for u s1" if "u \<noteq> wo_fresh w k" for u
    using s2(5) that by (auto split: if_splits)
  have "wo_fresh w j \<noteq> wo_fresh w k" if "Suc k \<le> j" for j
    using that injD [OF fresh_inj, of j k] by auto
  then have "ready w rid (Suc k) s2"
    using s1(3) a same_runs [OF s2(4)] events_wf_cong [OF s2(2,3)] by (auto simp: ready_def wf_log_def)
  moreover have "asks_for u s2 = asks_for u s1" if "asks_for u s1 \<noteq> None" for u
    by (rule a) (use that fresh in auto)
  then have "grows s1 s2" using s2(2) by (simp add: grows_def logged_def)
  then have "grows s s2" using grows_trans s(2) s1(4) by blast
  moreover have "sink_at w run_id k call s = (True, s2)"
    by (simp add: sink_at_def run_sink_def assms(3) call s1(1) s2(1))
  moreover have "filed rid p s2" if et: "et = ''AWAITING_APPROVAL''"
  proof -
    obtain a where "p = approval_request (decide [] (pa_tool a)) (a :: plan_action)"
        "asks_for (wo_fresh w k) s2 = Some (Some rid, stored_request a)"
      using s2(5) et by auto
    then show ?thesis unfolding filed_def by blast
  qed
  ultimately show ?thesis using l call by auto
qed

text \<open>All calls of a run: each succeeds, all are in the log in their order.\<close>

lemma calls_in_world:
  assumes "ready w rid 1 s" and "uuid_of_string run_id = Some rid"
  shows "list_all proper_call calls \<Longrightarrow>
    ready w rid (Suc (length calls)) (after_calls w run_id s calls) \<and>
    grows s (after_calls w run_id s calls) \<and>
    subseq (map (Pair rid) calls) (logged (after_calls w run_id s calls)) \<and>
    (\<forall>p. (''AWAITING_APPROVAL'', p) \<in> set calls \<longrightarrow> filed rid p (after_calls w run_id s calls))"
proof (induction calls rule: rev_induct)
  case Nil
  then show ?case using assms(1) by (simp add: after_calls_def grows_def)
next
  case (snoc call calls)
  let ?s = "after_calls w run_id s calls" and ?k = "Suc (length calls)"
  have IH: "ready w rid ?k ?s" "grows s ?s" "subseq (map (Pair rid) calls) (logged ?s)"
    using snoc by simp_all
  obtain s' where s': "sink_at w run_id ?k call ?s = (True, s')" "ready w rid (Suc ?k) s'" "grows ?s s'"
      "logged s' = logged (wo_others w ?k ?s) @ [(rid, call)]"
    and ask: "fst call = ''AWAITING_APPROVAL'' \<longrightarrow> filed rid (snd call) s'"
    using sink_in_world [OF IH(1) _ assms(2), of call] snoc.prems by auto
  have "prefix (logged ?s) (logged (wo_others w ?k ?s))" by (rule log_grows)
  then have "subseq (map (Pair rid) calls) (logged (wo_others w ?k ?s))"
    using IH(3) prefix_imp_subseq subseq_order.trans by blast
  then have "subseq (map (Pair rid) (calls @ [call])) (logged s')"
    unfolding s'(4) by (simp add: list_emb_append_mono)
  moreover have "filed rid p s'" if "(''AWAITING_APPROVAL'', p) \<in> set (calls @ [call])" for p
    using that ask snoc filed_grows [OF _ s'(3)] by auto
  moreover have "after_calls w run_id s (calls @ [call]) = s'" by (simp add: after_calls_snoc s'(1))
  ultimately show ?case
    using s'(2) grows_trans [OF IH(2) s'(3)] by simp
qed

lemma quiet_world:
  assumes "ready w rid 1 s" and "uuid_of_string run_id = Some rid"
  shows "quiet (worker_env w run_id s) proper_call"
  unfolding quiet_def
proof (intro allI impI)
  fix h call assume h: "list_all proper_call h" "proper_call call"
  have "ready w rid (Suc (length h)) (after_calls w run_id s h)"
    using calls_in_world [OF assms h(1)] by simp
  then have "fst (sink_at w run_id (Suc (length h)) call (after_calls w run_id s h))"
    using sink_in_world [OF _ h(2) assms(2)] by fastforce
  then show "en_sink (worker_env w run_id s) (h @ [call]) = None"
    by (simp add: worker_env_def sink_answer_def)
qed

end

section \<open>The claim and the final update\<close>

lemma process_start_claimed:
  assumes "process_start worker now run_id s = ClaimedRun rid r t s1"
  shows "uuid_of_string run_id = Some rid \<and> get_run rid s = Some r \<and> r_id r = rid \<and> get_run rid s1 \<noteq> None \<and>
    \<not> terminal (r_status r) \<and> logged s1 = logged s \<and> events_wf sq s1 = events_wf sq s \<and>
    (\<forall>u. asks_for u s1 = asks_for u s) \<and> approvals s1 = approvals s"
proof -
  have r: "uuid_of_string run_id = Some rid" "get_run rid s = Some r" "\<not> terminal (r_status r)"
      "claim worker now rid s = (True, s1)"
    using assms by (auto simp: process_start_def split: option.splits if_splits prod.splits bool.splits)
  then show ?thesis
    using run_store.get_key [OF r(2)]
    by (auto simp: claim_def logged_def asks_for_def run_store.get_upd cong: events_wf_cong split: if_splits)
qed

lemma write_redacted_frame [simp]:
  "events (write_redacted items s0 s) = events s" "next_gseq (write_redacted items s0 s) = next_gseq s"
  "get_run u (write_redacted items s0 s) = get_run u s"
  "get_approval u (write_redacted items s0 s) = get_approval u s"
proof -
  have "events (fold (\<lambda>m. upd_memory (m_id m) (f m)) ms s) = events s \<and>
      next_gseq (fold (\<lambda>m. upd_memory (m_id m) (f m)) ms s) = next_gseq s \<and>
      get_run u (fold (\<lambda>m. upd_memory (m_id m) (f m)) ms s) = get_run u s \<and>
      get_approval u (fold (\<lambda>m. upd_memory (m_id m) (f m)) ms s) = get_approval u s"
    for f and ms :: "memory_item list"
    by (induction ms arbitrary: s) simp_all
  then show "events (write_redacted items s0 s) = events s" "next_gseq (write_redacted items s0 s) = next_gseq s"
    "get_run u (write_redacted items s0 s) = get_run u s"
    "get_approval u (write_redacted items s0 s) = get_approval u s"
    by (simp_all add: write_redacted_def)
qed

lemma process_finish_frame [simp]:
  "events (process_finish now r st it tk cost s) = events s"
  "next_gseq (process_finish now r st it tk cost s) = next_gseq s"
  "get_approval u (process_finish now r st it tk cost s) = get_approval u s"
  by (simp_all add: process_finish_def upd_run_def)

lemma process_finish_row:
  "get_run (r_id r) s \<noteq> None \<Longrightarrow>
   map_option r_status (get_run (r_id r) (process_finish now r st it tk cost s)) = Some st"
  by (cases "get_run (r_id r) s") (simp_all add: process_finish_def upd_run_def run_store.get_upd)

section \<open>A claimed run is finished and recorded\<close>

definition final_statuses :: "run_status set" where
  "final_statuses = {COMPLETED, FAILED, CANCELLED, PAUSED, WAITING_APPROVAL}"

context good_world
begin

lemma ready_claimed:
  assumes start: "process_start (wo_name w) (wo_now w 0) run_id s = ClaimedRun rid r t s1"
    and wf: "events_wf (is_sqlite (strip (lower (wo_dialect w)))) s"
    and fresh: "\<And>k. get_approval (wo_fresh w k) s = None"
  shows "ready w rid 1 (wo_others w 0 s1)"
proof -
  have "ready w rid 1 s1"
    using process_start_claimed [OF start] wf fresh by (simp add: ready_def wf_log_def asks_for_def)
  then show ?thesis by (rule ready_other)
qed

text \<open>The coordinator returns, all its calls are in the log, and a request it waits for has its row.\<close>

lemma coordinate_in_world:
  assumes s: "ready w rid 1 s" and u: "uuid_of_string run_id = Some rid"
  shows "\<exists>c h. coordinate w run_id r t s = Inr c \<and> co_sunk c = h @ [end_call (co_status c)] \<and>
    co_status c \<in> final_statuses \<and>
    ready w rid (Suc (length (co_sunk c))) (after_calls w run_id s (co_sunk c)) \<and>
    subseq (map (Pair rid) (co_sunk c)) (logged (after_calls w run_id s (co_sunk c))) \<and>
    (co_status c = WAITING_APPROVAL \<longrightarrow>
       (\<exists>a. pd_decision (decide [] (pa_tool a)) = ''REQUIRE_APPROVAL'' \<and>
          filed rid (approval_request (decide [] (pa_tool a)) (a :: plan_action)) (after_calls w run_id s (co_sunk c))))"
proof -
  obtain b pol ver f e plan pv meta where run: "coordinate w run_id r t s =
        coord_run b (decide []) (verify default_checks) f e plan pv meta ((new_coord run_id)\<lparr>co_status := EXECUTING\<rparr>)"
      and e: "e = worker_env w run_id s"
    by (simp add: coordinate_def Let_def)
  have "sunk_in proper_call ((new_coord run_id)\<lparr>co_status := EXECUTING\<rparr>)" by (simp add: sunk_in_def)
  then obtain c where c: "coordinate w run_id r t s = Inr c" "list_all proper_call (co_sunk c)"
    using coord_run_quiet [OF quiet_world [OF s u] proper_covers] run e unfolding sunk_in_def by metis
  have new: "coord_run b (decide []) (verify default_checks) f e plan pv meta (new_coord run_id) = Inr c"
    using c(1) run by (simp only: coord_run_status)
  obtain h where "co_sunk c = h @ [end_call (co_status c)]" using coord_run_end [OF new] by blast
  moreover have d: "co_status c \<in> final_statuses \<and> (awaits c \<longleftrightarrow> co_status c = WAITING_APPROVAL)"
    using run_done [OF new] by (simp add: done_ok_def final_statuses_def)
  moreover have "waits_for_asked (decide []) c"
    using run_waits_for_asked [of "decide []" b "verify default_checks" f e plan pv meta run_id] new
    by (simp add: result_of_def)
  moreover note calls_in_world [OF s u c(2)]
  ultimately show ?thesis
    using c(1) unfolding waits_for_asked_def asked_def by blast
qed

end

text \<open>The approval a waiting run waits for, as its row has it.\<close>

definition awaited :: "uuid \<Rightarrow> db \<Rightarrow> bool" where
  "awaited rid s \<longleftrightarrow> (\<exists>u p. asks_for u s = Some (Some rid, p) \<and>
     pd_decision (decide [] (payload_tool p)) = ''REQUIRE_APPROVAL'')"

lemma filed_awaited:
  assumes "filed rid (approval_request d a) s" and "pd_decision (decide [] (pa_tool a)) = ''REQUIRE_APPROVAL''"
  shows "awaited rid s"
proof -
  obtain a' u where a': "approval_request d a = approval_request (decide [] (pa_tool a')) (a' :: plan_action)"
      "asks_for u s = Some (Some rid, stored_request a')"
    using assms(1) by (auto simp: filed_def)
  have "pa_tool a' = pa_tool a" using a'(1) by (simp add: approval_request_def)
  moreover have "payload_tool (stored_request a') = pa_tool a'"
    by (simp add: payload_tool_def stored_request_def dget_def py_or_def)
  ultimately show ?thesis using a'(2) assms(2) unfolding awaited_def by metis
qed

context good_world
begin

text \<open>The whole coordinator part, the final update included.\<close>

lemma run_coordinator_in_world:
  assumes s: "ready w rid 1 s" and u: "uuid_of_string run_id = Some rid" and r: "r_id r = rid"
  shows "\<exists>c h s' row. coordinate w run_id r t s = Inr c \<and> co_sunk c = h @ [end_call (r_status row)] \<and>
    run_coordinator w run_id r t s = Returned s' \<and> get_run rid s' = Some row \<and> r_status row = co_status c \<and>
    r_status row \<in> final_statuses \<and> subseq (map (Pair rid) (co_sunk c)) (logged s') \<and> wf_log w s' \<and>
    (r_status row = WAITING_APPROVAL \<longrightarrow> awaited rid s')"
proof -
  obtain c h where c: "coordinate w run_id r t s = Inr c" "co_sunk c = h @ [end_call (co_status c)]"
      "co_status c \<in> final_statuses" "ready w rid (Suc (length (co_sunk c))) (after_calls w run_id s (co_sunk c))"
      "subseq (map (Pair rid) (co_sunk c)) (logged (after_calls w run_id s (co_sunk c)))"
    and wait: "co_status c = WAITING_APPROVAL \<longrightarrow>
       (\<exists>a. pd_decision (decide [] (pa_tool a)) = ''REQUIRE_APPROVAL'' \<and>
          filed rid (approval_request (decide [] (pa_tool a)) (a :: plan_action)) (after_calls w run_id s (co_sunk c)))"
    using coordinate_in_world [OF s u] by blast
  define s2 where "s2 = seen_after w run_id s (co_sunk c)"
  have s2: "ready w rid (Suc (length (co_sunk c))) s2" "grows (after_calls w run_id s (co_sunk c)) s2"
    unfolding s2_def seen_after_def using ready_other c(4) by blast+
  obtain now m where fin: "run_coordinator w run_id r t s =
      Returned (process_finish now r (co_status c) (co_iteration c) (co_tokens c) (co_cost c) (write_redacted m s s2))"
    using c(1) by (simp add: run_coordinator_def s2_def Let_def)
  define s' where "s' = process_finish now r (co_status c) (co_iteration c) (co_tokens c) (co_cost c) (write_redacted m s s2)"
  have frame: "logged s' = logged s2" "events_wf sq s' = events_wf sq s2" "asks_for v s' = asks_for v s2" for sq v
    by (simp_all add: s'_def logged_def asks_for_def cong: events_wf_cong)
  have "map_option r_status (get_run (r_id r) s') = Some (co_status c)"
    unfolding s'_def using s2(1) r by (intro process_finish_row) (simp add: ready_def)
  then obtain row where row: "get_run rid s' = Some row" "r_status row = co_status c" using r by auto
  moreover have "subseq (map (Pair rid) (co_sunk c)) (logged s')"
    unfolding frame(1) using c(5) s2(2) by (meson grows_def prefix_imp_subseq subseq_order.trans)
  moreover have "awaited rid s'" if w: "co_status c = WAITING_APPROVAL"
  proof -
    obtain a where a: "pd_decision (decide [] (pa_tool a)) = ''REQUIRE_APPROVAL''"
        "filed rid (approval_request (decide [] (pa_tool a)) (a :: plan_action)) (after_calls w run_id s (co_sunk c))"
      using wait w by blast
    show ?thesis
      using filed_awaited [OF filed_grows [OF a(2) s2(2)] a(1)] frame(3) by (simp add: awaited_def)
  qed
  moreover have "wf_log w s'" using s2(1) frame(2) by (simp add: ready_def wf_log_def)
  ultimately show ?thesis using c(1,2,3) fin unfolding s'_def by auto
qed

lemma process_run_in_world:
  assumes start: "process_start (wo_name w) (wo_now w 0) run_id s = ClaimedRun rid r t s1"
    and none: "try_continuation (wo_now w 0) rid (wo_others w 0 s1) = NoApproval"
    and wf: "events_wf (is_sqlite (strip (lower (wo_dialect w)))) s"
    and fresh: "\<And>k. get_approval (wo_fresh w k) s = None"
  shows "\<exists>c h s' row. coordinate w run_id r t (wo_others w 0 s1) = Inr c \<and>
    process_run w run_id s = Returned s' \<and> get_run rid s' = Some row \<and> r_status row = co_status c \<and>
    r_status row \<in> final_statuses \<and> co_sunk c = h @ [end_call (r_status row)] \<and>
    subseq (map (Pair rid) (co_sunk c)) (logged s') \<and> wf_log w s' \<and>
    (r_status row = WAITING_APPROVAL \<longrightarrow> awaited rid s')"
proof -
  obtain c h s' row where "coordinate w run_id r t (wo_others w 0 s1) = Inr c"
      "co_sunk c = h @ [end_call (r_status row)]" "run_coordinator w run_id r t (wo_others w 0 s1) = Returned s'"
      "get_run rid s' = Some row" "r_status row = co_status c" "r_status row \<in> final_statuses"
      "subseq (map (Pair rid) (co_sunk c)) (logged s')" "wf_log w s'"
      "r_status row = WAITING_APPROVAL \<longrightarrow> awaited rid s'"
    using run_coordinator_in_world [OF ready_claimed [OF start wf fresh]] process_start_claimed [OF start] by blast
  then show ?thesis
    by (intro exI [of _ c] exI [of _ h] exI [of _ s'] exI [of _ row])
      (simp add: process_run_def start none Let_def)
qed

end


section \<open>An approved action is settled\<close>

lemma record_rows:
  "consume_and_record now i k s = (Inr (True, l, x), s') \<Longrightarrow> uuid_of_string i = Some u \<Longrightarrow>
   get_execution u s' \<noteq> None \<and> logged s' = logged s \<and> events_wf sq s' = events_wf sq s \<and>
   get_run j s' = get_run j s \<and> asks_for v s' = asks_for v s"
  by (auto simp: consume_and_record_def add_execution_eq new_execution_def Let_def logged_def asks_for_def
      approval_store.get_upd option.map_comp comp_def table_simps cong: events_wf_cong
      split: option.splits if_splits)

lemma take_rows:
  assumes "ids_ok s" and "try_continuation now rid s = TakeAction aid p s'"
  shows "get_execution aid s' \<noteq> None \<and> logged s' = logged s \<and> events_wf sq s' = events_wf sq s \<and>
    get_run j s' = get_run j s \<and> asks_for v s' = asks_for v s"
proof -
  obtain a l x where a: "latest (of_run rid A_APPROVED) s = Some a" "aid = a_id a"
      "consume_and_record now (uuid_str (a_id a)) (uuid_str rid) s = (Inr (True, l, x), s')"
    using assms(2)
    by (auto simp: try_continuation_def closed_case_def split: option.splits sum.splits prod.splits bool.splits if_splits)
  show ?thesis
    using record_rows [OF a(3)] latest_get [OF assms(1) a(1)] a(2) by simp
qed

definition settled :: "uuid \<Rightarrow> uuid \<Rightarrow> run_status \<Rightarrow> string \<Rightarrow> string \<Rightarrow> db \<Rightarrow> bool" where
  "settled rid aid st xst etype s \<longleftrightarrow>
     map_option r_status (get_run rid s) = Some st \<and> map_option x_status (get_execution aid s) = Some xst \<and>
     (\<exists>p. (rid, etype, p) \<in> set (logged s))"

lemma settled_finish:
  assumes "get_run rid s \<noteq> None" "get_execution aid s \<noteq> None" "(rid, et, p) \<in> set (logged s)"
  shows "et = ''TOOL_CALL'' \<Longrightarrow>
      settled rid aid COMPLETED ''SUCCEEDED'' ''TOOL_CALL'' (finish_success redact fl now rid aid payload v s)"
    "et = ''TOOL_ERROR'' \<Longrightarrow> settled rid aid FAILED ''AMBIGUOUS'' ''TOOL_ERROR'' (finish_failure now rid aid d s)"
proof -
  have g: "get_run rid (s\<lparr>tool_calls := x\<rparr>) = get_run rid s" "get_execution aid (s\<lparr>tool_calls := x\<rparr>) = get_execution aid s" for x
    by (simp_all add: get_defs)
  show "et = ''TOOL_CALL'' \<Longrightarrow>
      settled rid aid COMPLETED ''SUCCEEDED'' ''TOOL_CALL'' (finish_success redact fl now rid aid payload v s)"
    "et = ''TOOL_ERROR'' \<Longrightarrow> settled rid aid FAILED ''AMBIGUOUS'' ''TOOL_ERROR'' (finish_failure now rid aid d s)"
    using assms
    by (cases "get_run rid s"; cases "get_execution aid s";
        auto simp: settled_def finish_success_def finish_failure_def g get_upd_run execution_store.get_upd logged_def)+
qed

context good_world
begin

lemma others_keep:
  assumes "ready w rid n s" "get_execution aid s \<noteq> None"
  shows "ready w rid n (wo_others w k s) \<and> get_execution aid (wo_others w k s) \<noteq> None \<and>
    prefix (logged s) (logged (wo_others w k s))"
  using ready_other(1) [OF assms(1)] executions_stay [OF assms(2)] log_grows by blast

text \<open>An append between two transactions of the others.\<close>

lemma append_between:
  assumes "ready w rid n s" and "get_execution aid s \<noteq> None"
  shows "\<exists>s1. append_event (wo_dialect w) rid et p (wo_others w 1 s) = Inr s1 \<and>
    get_run rid (wo_others w 2 s1) \<noteq> None \<and> get_execution aid (wo_others w 2 s1) \<noteq> None \<and>
    (rid, et, p) \<in> set (logged (wo_others w 2 s1))"
proof -
  note o = others_keep [OF assms, of 1]
  obtain s1 where s1: "append_event (wo_dialect w) rid et p (wo_others w 1 s) = Inr s1"
      "logged s1 = logged (wo_others w 1 s) @ [(rid, et, p)]" "ready w rid n s1"
      "executions s1 = executions (wo_others w 1 s)"
    using append_in_world o by blast
  have "get_execution aid s1 \<noteq> None" using o s1(4) by (simp add: get_execution_def)
  then show ?thesis
    using others_keep [OF s1(3), of aid 2] s1(1,2) set_mono_prefix unfolding ready_def by fastforce
qed

lemma action_settled:
  assumes "ready w rid n s" and "get_execution aid s \<noteq> None"
  shows "\<exists>s'. approved_action w rid aid p s = Returned s' \<and>
    (case call_tool (build_default_registry (wo_tools w 0)) (payload_tool p) (payload_args p) of
       Inr v \<Rightarrow> settled rid aid COMPLETED ''SUCCEEDED'' ''TOOL_CALL'' s'
     | Inl x \<Rightarrow> settled rid aid FAILED ''AMBIGUOUS'' ''TOOL_ERROR'' s')"
proof (cases "call_tool (build_default_registry (wo_tools w 0)) (payload_tool p) (payload_args p)")
  case (Inl x)
  let ?p = "[(''tool'', PStr (payload_tool p)), (''error'', PStr (fst (wo_exn w x))), (''approval_id'', PStr (uuid_str aid))]"
  obtain s1 where "append_event (wo_dialect w) rid ''TOOL_ERROR'' ?p (wo_others w 1 s) = Inr s1"
      "get_run rid (wo_others w 2 s1) \<noteq> None" "get_execution aid (wo_others w 2 s1) \<noteq> None"
      "(rid, ''TOOL_ERROR'', ?p) \<in> set (logged (wo_others w 2 s1))"
    using append_between [OF assms] by blast
  with Inl settled_finish(2) show ?thesis by (simp add: approved_action_def action_failed_def)
next
  case (Inr v)
  let ?p = "[(''tool'', PStr (payload_tool p)), (''arguments'', PDict (payload_args p)), (''result'', v),
    (''action_id'', py_or (dget p ''action_id'' PNone) (PStr (uuid_str aid))), (''approval_id'', PStr (uuid_str aid))]"
  obtain s1 where "append_event (wo_dialect w) rid ''TOOL_CALL'' ?p (wo_others w 1 s) = Inr s1"
      "get_run rid (wo_others w 2 s1) \<noteq> None" "get_execution aid (wo_others w 2 s1) \<noteq> None"
      "(rid, ''TOOL_CALL'', ?p) \<in> set (logged (wo_others w 2 s1))"
    using append_between [OF assms] by blast
  with Inr settled_finish(1) show ?thesis by (simp add: approved_action_def)
qed

end


text \<open>
  An approval that expires between its decision and its consumption strands its run: the continuation is
  closed with nothing changed, \<open>_process_run\<close> returns and the entry is acknowledged, while the run stays
  EXECUTING until its lease is over and the recovery queues it for the same refusal.
\<close>

lemma expired_approval_strands:
  assumes "ids_ok s" and "latest (of_run rid A_APPROVED) s = Some a" and "expired now (a_expires a)"
    and "rid < 2 ^ 128"
  shows "try_continuation now rid s =
    Closed ''APPROVAL_REPLAY_BLOCKED'' [(''approval_id'', PStr (uuid_str (a_id a)))] s"
  using latest_get [OF assms(1,2)] assms(2-)
  by (auto simp: try_continuation_def consume_and_record_def of_run_def uuid_roundtrip)

section \<open>Worlds there are\<close>

text \<open>
  Any world whose other sessions are the heartbeat of the worker and, between its transactions, decisions
  of users on any approvals.
\<close>

definition beside_users :: "world \<Rightarrow> (nat \<Rightarrow> time) \<Rightarrow> uuid \<Rightarrow> (nat \<Rightarrow> string) \<Rightarrow> (nat \<Rightarrow> string) \<Rightarrow> world" where
  "beside_users w now rid i d =
     w\<lparr>wo_others := (\<lambda>k s. snd (decide_with_continuation (now k) (i k) (d k) None
                             (heartbeat (wo_name w) (now k) rid s))),
       wo_dialect := ''postgresql'', wo_fresh := (\<lambda>k. k + 2 ^ 100)\<rparr>"

lemma beside_users_simps:
  "wo_others (beside_users w now rid i d) = (\<lambda>k s. snd (decide_with_continuation (now k) (i k) (d k) None
                             (heartbeat (wo_name w) (now k) rid s)))"
  "wo_dialect (beside_users w now rid i d) = ''postgresql''"
  "wo_fresh (beside_users w now rid i d) = (\<lambda>k. k + 2 ^ 100)"
  by (simp_all add: beside_users_def)

interpretation among_users: good_world "beside_users w now rid i d" for w now rid i d
proof -
  have n: "neighbours (wo_others (beside_users w now rid i d)) sq ours" for sq ours
    unfolding beside_users_simps
    by (rule neighbours_together [OF heartbeats.neighbours_axioms decisions.neighbours_axioms])
  have d: "supported ''postgresql''" by code_simp
  have "inj (\<lambda>k :: nat. k + 2 ^ 100)" by (intro injI) (simp only: add_right_cancel)
  then show "good_world (beside_users w now rid i d)"
    by (intro good_world.intro good_world_axioms.intro n) (simp_all only: beside_users_simps d)
qed

definition sample_tools :: connectors where
  "sample_tools =
     \<lparr>cn_http = (\<lambda>_. Inl (ToolFailed ''offline'')), cn_repo = (\<lambda>_. Inl (ToolFailed ''offline'')),
      cn_health = Inr (PDict [(''status'', PStr ''ok'')]),
      cn_technocore = Some (\<lambda>_ _. Inr PNone, \<lambda>_ _ _. Inr (PDict [(''ok'', PBool True)]))\<rparr>"

definition sample_world :: world where
  "sample_world = beside_users
     \<lparr>wo_cfg = default_settings, wo_name = ''worker-1'', wo_others = (\<lambda>_ s. s), wo_now = (\<lambda>k. 20),
      wo_fresh = (\<lambda>k. k), wo_mono = (1, (\<lambda>_. 2), (\<lambda>_. 2)), wo_tools = (\<lambda>_. sample_tools),
      wo_exn = (\<lambda>_. (''RuntimeError'', ''offline'')), wo_chat = None, wo_loads = (\<lambda>_. None),
      wo_float = (\<lambda>_. None), wo_dialect = [], wo_sha = (\<lambda>x. x), wo_redact = (\<lambda>x. x), wo_json = (\<lambda>_. []),
      wo_wording = (\<lambda>x. x), wo_tokens = None, wo_reason = (\<lambda>_. []), wo_stamp = (\<lambda>_. [])\<rparr>
     (\<lambda>_. 21) 5 (\<lambda>_. []) (\<lambda>_. ''approve'')"

definition work_task :: task where
  "work_task = \<lparr>t_id = 1, t_title = ''check'', t_prompt = ''check the services'', t_scope = [], t_budget = [],
                t_key = None\<rparr>"

definition work_db :: "approval list \<Rightarrow> db" where
  "work_db as = empty_db\<lparr>tasks := [work_task], runs := [new_run 5 1 100 1 0], approvals := as\<rparr>"

definition claimed_db :: "approval list \<Rightarrow> db" where
  "claimed_db as = upd_run_raw 5
     (\<lambda>r. r\<lparr>r_status := EXECUTING, r_worker := Some ''worker-1'', r_heartbeat := Some (Aware 20),
            r_lease := Some (Aware (lease_end 20)), r_started := Some (Aware 20)\<rparr>) (work_db as)"

lemma sample_world_simps:
  "wo_name sample_world = ''worker-1''" "wo_now sample_world k = 20" "wo_dialect sample_world = ''postgresql''"
  "wo_fresh sample_world k = k + 2 ^ 100" "wo_tools sample_world k = sample_tools"
  "wo_others sample_world k s = heartbeat ''worker-1'' 21 5 s"
  by (simp_all add: sample_world_def beside_users_def decide_with_continuation_def ap_decide_def no_uuid)

lemma sample_start:
  "process_start (wo_name sample_world) (wo_now sample_world 0) (uuid_str 5) (work_db as) =
     ClaimedRun 5 (new_run 5 1 100 1 0) work_task (claimed_db as)"
  by (simp add: process_start_def sample_world_simps work_db_def get_defs tget_def new_run_def work_task_def
      terminal_def claim_def claimable_def claimed_db_def upd_run_raw_def tupd_def)

lemma sample_log:
  "events_wf (is_sqlite (strip (lower (wo_dialect sample_world)))) (work_db as)"
  by (simp add: work_db_def events_wf_def events_of_def empty_db_def)

lemma sample_others:
  "approvals (heartbeat ''worker-1'' 21 5 (claimed_db as)) = as"
  "get_approval u (heartbeat ''worker-1'' 21 5 (claimed_db as)) = tget a_id u as"
  "get_execution u (heartbeat ''worker-1'' 21 5 (claimed_db as)) = None"
  by (simp_all add: heartbeat_def claimed_db_def work_db_def empty_db_def get_defs upd_run_raw_def tget_def)


definition write_payload :: pydict where
  "write_payload =
     [(''action_id'', PStr ''action_1''), (''tool'', PStr ''technocore_signed_write''),
      (''arguments'', PDict [(''room'', PStr ''r1''), (''payload'', PDict [])])]"

definition write_approval :: approval where
  "write_approval = sample_approval\<lparr>a_status := A_APPROVED, a_run := Some 5, a_payload := write_payload\<rparr>"

lemma write_call:
  "call_tool (build_default_registry (wo_tools sample_world 0)) (payload_tool write_payload) (payload_args write_payload) =
     Inr (PDict [(''ok'', PBool True)])"
  unfolding sample_world_simps by code_simp

lemma sample_approved:
  "a_id write_approval = 7" "a_status write_approval = A_APPROVED" "a_run write_approval = Some 5"
  "a_payload write_approval = write_payload" "write_payload \<noteq> []" "a_expires write_approval = Some (Naive 100)"
  by (simp_all add: write_approval_def write_payload_def sample_approval_def)

lemma sample_action:
  "\<exists>s3. try_continuation (wo_now sample_world 0) 5 (wo_others sample_world 0 (claimed_db [write_approval])) =
     TakeAction 7 write_payload s3"
  by (simp add: try_continuation_def latest_def of_run_def sample_others sample_approved
      consume_and_record_def add_execution_eq new_execution_def expired_def uuid_roundtrip Let_def
      table_simps tget_def sample_world_simps)


end
