(* ===== verification/Pool_Run.thy ===== *)
theory Pool_Run
  imports Cluster Process_Run
begin

text \<open>
  The worker's \<open>_process_run\<close> (\<open>Process_Run\<close>) as a part of the worker pool (\<open>Cluster\<close>): every delivery of a
  run is a sequence of steps of one worker of the pool, so that what holds of the pool holds of complete
  runs, delivered and redelivered in any order.
\<close>

section \<open>Changes without a worker\<close>

text \<open>What is not a step of a worker: calls of the approval service, and changes of any other row.\<close>

definition db_step :: "(string \<Rightarrow> string) \<Rightarrow> db \<Rightarrow> db \<Rightarrow> bool" where
  "db_step sha s s' \<longleftrightarrow> approvals_kept s s' \<or> (\<exists>op. fresh_ok (fst op) \<and> s' = ap_step sha op s)"

definition moves :: "(string \<Rightarrow> string) \<Rightarrow> db \<Rightarrow> db \<Rightarrow> bool" where
  "moves sha = (db_step sha)\<^sup>*\<^sup>*"

lemma moves_refl [simp, intro]: "moves sha s s"
  by (simp add: moves_def)

lemma moves_trans [trans]: "moves sha s t \<Longrightarrow> moves sha t u \<Longrightarrow> moves sha s u"
  by (simp add: moves_def)

lemma moves_kept: "approvals s' = approvals s \<Longrightarrow> moves sha s s'"
  by (simp add: moves_def db_step_def approvals_kept_def r_into_rtranclp)

lemma moves_served: "fresh_ok op \<Longrightarrow> moves sha s (snd (ap_exec sha op s))"
  unfolding moves_def db_step_def
  by (rule r_into_rtranclp, rule disjI2, rule exI [of _ "(op, True)"]) (simp add: ap_step_def)

lemma moves_steps: "moves sha (sy_db S) s' \<Longrightarrow> (wstep sha)\<^sup>*\<^sup>* S (S\<lparr>sy_db := s'\<rparr>)"
  unfolding moves_def
proof (induction rule: rtranclp_induct)
  case (step s t)
  have "wstep sha (S\<lparr>sy_db := s\<rparr>) (S\<lparr>sy_db := t\<rparr>)"
    using step(2) wstep.others [of "S\<lparr>sy_db := s\<rparr>" t sha] wstep.serves [of _ sha "S\<lparr>sy_db := s\<rparr>"]
    by (auto simp: db_step_def)
  with step(3) show ?case by (rule rtranclp.rtrancl_into_rtrancl)
qed simp

lemma safe_from_approvals:
  assumes "\<And>j. snd (att j) = s" and "safe_from d rid et p m att k = Inr (Some s')"
  shows "approvals s' = approvals s"
  using assms
proof (induction d rid et p m att k rule: safe_from.induct)
  case (1 d rid et p m att k)
  show ?case
  proof (cases "append_run_event_in_session d rid et p (fst (att k)) (snd (att k))")
    case (Inl err)
    then show ?thesis
      using 1 by (cases err) (auto simp: safe_from.simps [of d rid et p m att k] split: if_splits)
  next
    case (Inr r)
    then obtain e where "append_run_event_in_session d rid et p (fst (att k)) s = Inr (e, s')"
      using 1(2,3) by (cases r) (auto simp: safe_from.simps [of d rid et p m att k] split: if_splits)
    then show ?thesis by (rule append_frame(2))
  qed
qed

lemma append_moves: "append_event d rid et p s = Inr s' \<Longrightarrow> moves sha s s'"
  using safe_from_approvals [of "\<lambda>_. (s, s)" s d rid et p 5 0]
  by (auto simp: append_event_def append_run_event_safe_def intro!: moves_kept split: sum.splits option.splits)

lemma sink_rows_moves:
  assumes "fresh < 2 ^ 128" and "sink_rows sha redact fl wording fresh now run_id rid et p s = Some s'"
  shows "moves sha s s'"
proof (cases "et = ''AWAITING_APPROVAL''")
  case True
  then obtain ai tool cls args x where
    "ap_create sha fresh now run_id ai tool args cls (take 200 (dumps_py fl args)) (wording tool) 3600 s = (Inr x, s')"
    using assms(2) by (auto simp: sink_rows_def Let_def split: pyval.splits prod.splits sum.splits)
  then have "s' = snd (ap_exec sha (ApCreate fresh now run_id ai tool args cls (take 200 (dumps_py fl args))
      (wording tool) 3600) s)" by simp
  also have "moves sha s \<dots>" by (rule moves_served) (use assms(1) in \<open>simp add: fresh_ok_def\<close>)
  finally show ?thesis .
next
  case False
  then show ?thesis using assms(2) by (intro moves_kept) (auto simp: sink_rows_def split: if_splits)
qed

lemma run_sink_moves:
  assumes "fresh < 2 ^ 128"
  shows "moves sha s (snd (run_sink sha redact fl wording d fresh now run_id et p s))"
  by (auto simp: run_sink_def split: option.split sum.split
      dest: append_moves [where sha = sha] sink_rows_moves [OF assms] intro: moves_trans)

lemma write_redacted_approvals [simp]: "approvals (write_redacted items s0 s) = approvals s"
proof -
  have "approvals (fold (\<lambda>m. upd_memory (m_id m) (f m)) ms s) = approvals s" for f ms
    by (induction ms arbitrary: s) simp_all
  then show ?thesis by (simp add: write_redacted_def)
qed

section \<open>The rows a run leaves\<close>

fun rows_after :: "outcome \<Rightarrow> db" where
  "rows_after (outcome.Returned s) = s" | "rows_after (outcome.Raised s) = s"

text \<open>The call of an approved action a delivery makes, read from the continuation.\<close>

definition approved_calls :: "world \<Rightarrow> string \<Rightarrow> db \<Rightarrow> (uuid \<times> string \<times> pydict) list" where
  "approved_calls w run_id s =
     (case process_start (wo_name w) (wo_now w 0) run_id s of
        ClaimedRun rid r t s1 \<Rightarrow>
          (case try_continuation (wo_now w 0) rid (wo_others w 0 s1) of
             TakeAction aid p s3 \<Rightarrow> [(aid, payload_tool p, payload_args p)]
           | _ \<Rightarrow> [])
      | _ \<Rightarrow> [])"

text \<open>
  What a run of the pool relies on: the other sessions call the approval service or leave its rows alone,
  and new identifiers are UUIDs.
\<close>

locale pool_world =
  fixes w :: world
  assumes others_move: "moves (wo_sha w) s (wo_others w k s)" and fresh_uuid: "wo_fresh w k < 2 ^ 128"
begin

lemma sink_at_moves: "moves (wo_sha w) s (snd (sink_at w run_id k call s))"
  unfolding sink_at_def by (rule moves_trans [OF others_move run_sink_moves [OF fresh_uuid]])

lemma calls_move: "moves (wo_sha w) s (after_calls w run_id s calls)"
proof (induction calls rule: rev_induct)
  case Nil
  show ?case by (simp add: after_calls_def)
next
  case (snoc call calls)
  then show ?case unfolding after_calls_snoc by (rule moves_trans) (rule sink_at_moves)
qed

lemma coordinator_moves: "moves (wo_sha w) s (rows_after (run_coordinator w run_id r t s))"
proof (cases "coordinate w run_id r t s")
  case (Inl c)
  then show ?thesis by (simp add: run_coordinator_def calls_move)
next
  case (Inr c)
  have "moves (wo_sha w) s (seen_after w run_id s (co_sunk c))"
    unfolding seen_after_def by (rule moves_trans [OF calls_move others_move])
  then show ?thesis
    by (rule moves_trans) (simp add: run_coordinator_def Inr moves_kept process_finish_def)
qed

lemma closed_moves:
  "moves (wo_sha w) s (rows_after (report_closed w rid et p s s1)) \<or> moves (wo_sha w) s1 (rows_after (report_closed w rid et p s s1))"
  using others_move moves_trans [OF others_move append_moves]
  by (auto simp: report_closed_def split: sum.split)

lemma append_after_others:
  "append_event d rid et p (wo_others w k s) = Inr s' \<Longrightarrow> moves (wo_sha w) s (wo_others w j s')"
  by (blast intro: moves_trans others_move append_moves)

end

section \<open>A delivery is a run of one worker of the pool\<close>

text \<open>After the call of its action, a worker crashes, or it ends with one of the two transactions.\<close>

inductive concludes :: "world \<Rightarrow> uuid \<Rightarrow> uuid \<Rightarrow> pydict \<Rightarrow> db \<Rightarrow> db \<Rightarrow> bool" for w rid aid p s where
  left: "moves (wo_sha w) s s' \<Longrightarrow> concludes w rid aid p s s'"
| failed: "moves (wo_sha w) s s' \<Longrightarrow> concludes w rid aid p s (finish_failure now rid aid detail s')"
| succeeded: "moves (wo_sha w) s s' \<Longrightarrow>
    concludes w rid aid p s (finish_success redact fl now rid aid p result s')"

lemma update_order [simp]:
  "S\<lparr>sy_pc := f, sy_db := d\<rparr> = S\<lparr>sy_db := d, sy_pc := f\<rparr>"
  "S\<lparr>sy_calls := c, sy_db := d\<rparr> = S\<lparr>sy_db := d, sy_calls := c\<rparr>"
  "S\<lparr>sy_calls := c, sy_pc := f\<rparr> = S\<lparr>sy_pc := f, sy_calls := c\<rparr>"
  by simp_all

lemma after_step: "wstep sha S T \<Longrightarrow> moves sha (sy_db T) s' \<Longrightarrow> (wstep sha)\<^sup>*\<^sup>* S (T\<lparr>sy_db := s'\<rparr>)"
  by (rule converse_rtranclp_into_rtranclp [OF _ moves_steps])

lemma after_moves: "moves sha (sy_db S) s' \<Longrightarrow> wstep sha (S\<lparr>sy_db := s'\<rparr>) T \<Longrightarrow> (wstep sha)\<^sup>*\<^sup>* S T"
  by (rule rtranclp.rtrancl_into_rtrancl [OF moves_steps])

lemma crash_moves:
  assumes "moves sha (sy_db S) s'"
  shows "(wstep sha)\<^sup>*\<^sup>* S (S\<lparr>sy_db := s', sy_pc := (sy_pc S)(n := Idle)\<rparr>)"
  using after_moves [OF assms wstep.crashes [of sha _ n]] by simp

lemma concluding_steps:
  assumes "concludes w rid aid p (sy_db S) s'" and "sy_pc S n = pc.Returned rid aid p"
  shows "(wstep (wo_sha w))\<^sup>*\<^sup>* S (S\<lparr>sy_db := s', sy_pc := (sy_pc S)(n := Idle)\<rparr>)"
  using assms
proof cases
  case left
  then show ?thesis by (rule crash_moves)
next
  case (failed t now detail)
  then show ?thesis
    using after_moves [OF failed(2) wstep.fails [where w = n and rid = rid and aid = aid and p = p]] assms(2) by simp
next
  case (succeeded t redact fl now result)
  then show ?thesis
    using after_moves [OF succeeded(2) wstep.succeeds [where w = n and rid = rid and aid = aid and p = p]]
      assms(2) by simp
qed

context pool_world
begin

lemma action_failed_concludes: "concludes w rid aid p s (rows_after (action_failed w rid aid tool x s))"
  by (auto simp: action_failed_def intro: concludes.intros others_move append_after_others split: sum.split)

lemma action_concludes: "concludes w rid aid p s (rows_after (approved_action w rid aid p s))"
  by (auto simp: approved_action_def Let_def action_failed_concludes
      intro: concludes.intros append_after_others split: sum.split)

text \<open>From the claim on, by what the continuation finds.\<close>

lemma closed_steps:
  assumes "sy_pc S n = Claimed rid" and "try_continuation (wo_now w 0) rid (sy_db S) = Closed et p s1"
  shows "(wstep (wo_sha w))\<^sup>*\<^sup>* S
    (S\<lparr>sy_db := rows_after (report_closed w rid et p (sy_db S) s1), sy_pc := (sy_pc S)(n := Idle)\<rparr>)"
  using closed_moves [of "sy_db S" rid et p s1]
proof
  assume "moves (wo_sha w) s1 (rows_after (report_closed w rid et p (sy_db S) s1))"
  then show ?thesis using after_step [OF wstep.closes [OF assms]] by simp
qed (rule crash_moves)

lemma action_steps:
  assumes "sy_pc S n = Claimed rid" and "try_continuation (wo_now w 0) rid (sy_db S) = TakeAction aid p s1"
  shows "(wstep (wo_sha w))\<^sup>*\<^sup>* S
    (S\<lparr>sy_db := rows_after (approved_action w rid aid p s1), sy_pc := (sy_pc S)(n := Idle),
       sy_calls := sy_calls S @ [(aid, payload_tool p, payload_args p)]\<rparr>)"
proof -
  let ?H = "S\<lparr>sy_db := s1, sy_pc := (sy_pc S)(n := Holding rid aid p)\<rparr>"
  let ?R = "?H\<lparr>sy_calls := sy_calls S @ [(aid, payload_tool p, payload_args p)],
               sy_pc := (sy_pc S)(n := pc.Returned rid aid p)\<rparr>"
  have "wstep (wo_sha w) S ?H" by (rule wstep.takes [OF assms])
  moreover have "wstep (wo_sha w) ?H ?R"
    using wstep.calls [of ?H n rid aid p "wo_sha w"] by simp
  moreover have "(wstep (wo_sha w))\<^sup>*\<^sup>* ?R
      (?R\<lparr>sy_db := rows_after (approved_action w rid aid p s1), sy_pc := (sy_pc ?R)(n := Idle)\<rparr>)"
    by (rule concluding_steps [where rid = rid and aid = aid and p = p]) (simp_all add: action_concludes)
  ultimately show ?thesis by (simp add: converse_rtranclp_into_rtranclp)
qed

lemma planned_steps:
  assumes "sy_pc S n = Claimed rid" and "try_continuation (wo_now w 0) rid (sy_db S) = NoApproval"
  shows "(wstep (wo_sha w))\<^sup>*\<^sup>* S
    (S\<lparr>sy_db := rows_after (run_coordinator w run_id r t (sy_db S)), sy_pc := (sy_pc S)(n := Idle)\<rparr>)"
  using after_step [OF wstep.plans_anew [OF assms]] coordinator_moves by simp

text \<open>A delivery, step by step.\<close>

lemma delivery_steps:
  assumes idle: "sy_pc S n = Idle"
  shows "(wstep (wo_sha w))\<^sup>*\<^sup>* S
    (S\<lparr>sy_db := rows_after (process_run w run_id (sy_db S)),
       sy_calls := sy_calls S @ approved_calls w run_id (sy_db S)\<rparr>)"
proof (cases "process_start (wo_name w) (wo_now w 0) run_id (sy_db S)")
  case BadRunKey
  then show ?thesis by (simp add: process_run_def approved_calls_def)
next
  case (NothingToDo s1)
  then have "moves (wo_sha w) (sy_db S) s1"
    by (intro moves_kept) (auto simp: process_start_def dest: approvals_claim split: option.splits if_splits prod.splits bool.splits)
  then show ?thesis using moves_steps by (simp add: process_run_def approved_calls_def NothingToDo)
next
  case (ClaimedRun rid r t s1)
  let ?s2 = "wo_others w 0 s1"
  let ?S2 = "S\<lparr>sy_db := ?s2, sy_pc := (sy_pc S)(n := Claimed rid)\<rparr>"
  have "claim (wo_name w) (wo_now w 0) rid (sy_db S) = (True, s1)"
    using ClaimedRun by (auto simp: process_start_def split: option.splits if_splits prod.splits bool.splits)
  from after_step [OF wstep.claims [OF idle this], of "wo_sha w" ?s2]
  have start: "(wstep (wo_sha w))\<^sup>*\<^sup>* S ?S2" by (simp add: others_move)
  have same: "S\<lparr>sy_db := s', sy_pc := (sy_pc S)(n := Idle), sy_calls := cs\<rparr> = S\<lparr>sy_db := s', sy_calls := cs\<rparr>" for s' cs
    using idle by (simp add: fun_upd_idem)
  have "(wstep (wo_sha w))\<^sup>*\<^sup>* ?S2
    (S\<lparr>sy_db := rows_after (process_run w run_id (sy_db S)), sy_pc := (sy_pc S)(n := Idle),
       sy_calls := sy_calls S @ approved_calls w run_id (sy_db S)\<rparr>)"
  proof (cases "try_continuation (wo_now w 0) rid ?s2")
    case ContRaises
    then show ?thesis
      using crash_moves [of "wo_sha w" ?S2 ?s2 n] by (simp add: process_run_def approved_calls_def ClaimedRun)
  next
    case NoApproval
    then show ?thesis
      using planned_steps [of ?S2 n rid run_id r t] by (simp add: process_run_def approved_calls_def ClaimedRun)
  next
    case (Closed et p s3)
    then show ?thesis
      using closed_steps [of ?S2 n rid et p s3] by (simp add: process_run_def approved_calls_def ClaimedRun)
  next
    case (TakeAction aid p s3)
    then show ?thesis
      using action_steps [of ?S2 n rid aid p s3] by (simp add: process_run_def approved_calls_def ClaimedRun)
  qed
  then show ?thesis using start unfolding same by (rule_tac rtranclp_trans)
qed

end

text \<open>
  C6: a delivery of a run is a run of one worker of the pool. Whatever the other workers hold, what a free
  worker's \<open>_process_run\<close> does to the database, its external calls of approved actions included, is done by
  a sequence of steps of the pool, after which the worker is free again.
\<close>

theorem process_run_refines_pool:
  assumes "pool_world w" and "sy_pc S n = Idle"
  shows "(wstep (wo_sha w))\<^sup>*\<^sup>* S
    (S\<lparr>sy_db := rows_after (process_run w run_id (sy_db S)),
       sy_calls := sy_calls S @ approved_calls w run_id (sy_db S)\<rparr>)"
  by (rule pool_world.delivery_steps [OF assms])

section \<open>Deliveries and redeliveries\<close>

text \<open>Any runs delivered one after the other, each in a world of its own: the rows at the end and the calls.\<close>

fun deliver :: "(world \<times> string) list \<Rightarrow> db \<Rightarrow> db \<times> (uuid \<times> string \<times> pydict) list" where
  "deliver [] s = (s, [])"
| "deliver ((w, run_id) # ds) s =
     (let (s', calls) = deliver ds (rows_after (process_run w run_id s))
      in (s', approved_calls w run_id s @ calls))"

lemma deliver_steps:
  assumes "\<forall>(w, run_id) \<in> set ds. pool_world w \<and> wo_sha w = sha" and "sy_pc S n = Idle"
  shows "(wstep sha)\<^sup>*\<^sup>* S
    (S\<lparr>sy_db := fst (deliver ds (sy_db S)), sy_calls := sy_calls S @ snd (deliver ds (sy_db S))\<rparr>)"
  using assms
proof (induction ds arbitrary: S)
  case (Cons d ds)
  obtain w run_id where d: "d = (w, run_id)" by (cases d)
  let ?T = "S\<lparr>sy_db := rows_after (process_run w run_id (sy_db S)),
              sy_calls := sy_calls S @ approved_calls w run_id (sy_db S)\<rparr>"
  have w: "pool_world w" "wo_sha w = sha" using Cons.prems(1) d by auto
  have "(wstep sha)\<^sup>*\<^sup>* S ?T"
    using pool_world.delivery_steps [OF w(1) Cons.prems(2)] by (simp add: w(2))
  moreover have "(wstep sha)\<^sup>*\<^sup>* ?T
      (?T\<lparr>sy_db := fst (deliver ds (sy_db ?T)), sy_calls := sy_calls ?T @ snd (deliver ds (sy_db ?T))\<rparr>)"
    using Cons.prems by (intro Cons.IH) auto
  ultimately show ?case by (simp add: d Let_def case_prod_unfold)
qed simp


section \<open>Worlds of the pool\<close>

text \<open>Users and the heartbeat, as before; identifiers have 128 bits.\<close>

definition with_uuids :: "world \<Rightarrow> world" where
  "with_uuids w = w\<lparr>wo_fresh := (\<lambda>k. wo_fresh w k mod 2 ^ 128)\<rparr>"

lemma heartbeat_approvals: "approvals (heartbeat v now rid s) = approvals s"
  by (simp add: heartbeat_def split: option.split)

lemma decision_moves: "moves sha s (snd (decide_with_continuation now i d v s))"
proof -
  have "snd (decide_with_continuation now i d v s) = snd (ap_exec sha (ApDecide now i d v) s)"
    by (simp split: sum.split prod.split)
  also have "moves sha s \<dots>" by (rule moves_served) (simp add: fresh_ok_def)
  finally show ?thesis .
qed

interpretation pooled_users: pool_world "with_uuids (beside_users w now rid i d)" for w now rid i d
proof unfold_locales
  fix s k
  show "moves (wo_sha (with_uuids (beside_users w now rid i d))) s
      (wo_others (with_uuids (beside_users w now rid i d)) k s)"
    unfolding with_uuids_def beside_users_def
    by (simp add: moves_trans [OF moves_kept [OF heartbeat_approvals] decision_moves])
  show "wo_fresh (with_uuids (beside_users w now rid i d)) k < 2 ^ 128"
    by (simp add: with_uuids_def)
qed

definition pool_sample :: world where
  "pool_sample = with_uuids sample_world"

lemma pool_sample_world: "pool_world pool_sample" "wo_sha pool_sample = (\<lambda>x. x)"
  unfolding pool_sample_def sample_world_def
  by (rule pooled_users.pool_world_axioms) (simp add: with_uuids_def beside_users_def)

text \<open>The first delivery of a run with an approved write makes its call.\<close>

lemma sample_call:
  "approved_calls pool_sample (uuid_str 5) (work_db [write_approval]) =
     [(7, payload_tool write_payload, payload_args write_payload)]"
proof -
  have same: "wo_name pool_sample = wo_name sample_world" "wo_now pool_sample = wo_now sample_world"
      "wo_others pool_sample = wo_others sample_world"
    by (simp_all add: pool_sample_def with_uuids_def)
  obtain s3 where t: "try_continuation (wo_now sample_world 0) 5
      (wo_others sample_world 0 (claimed_db [write_approval])) = TakeAction 7 write_payload s3"
    using sample_action by blast
  show ?thesis by (simp add: approved_calls_def same sample_start t)
qed

lemma sample_ids: "ids_ok (work_db [write_approval])"
  by (simp add: ids_ok_def work_db_def write_approval_def sample_approval_def)

theorem process_run_refines_pool_witness:
  "\<exists>S. (wstep (\<lambda>x. x))\<^sup>*\<^sup>* (idle_sys (work_db [write_approval])) S \<and> map fst (sy_calls S) = [7] \<and>
     sy_db S = rows_after (process_run pool_sample (uuid_str 5) (work_db [write_approval]))"
proof -
  have "sy_pc (idle_sys (work_db [write_approval])) 0 = Idle" by (simp add: idle_sys_def)
  from process_run_refines_pool [OF pool_sample_world(1) this, of "uuid_str 5"] show ?thesis
    unfolding pool_sample_world(2)
    by (rule_tac exI, rule_tac conjI) (assumption, simp add: idle_sys_def sample_call)
qed


end
