(* ===== verification/Queue.thy ===== *)
theory Queue
  imports Models Json
begin

text \<open>
  The reliable queue over Redis Streams: \<open>packages/observability/queue.py\<close>. The Redis client is a
  parameter: what a command answers is an error text (\<open>Inl\<close>) or a reply.
\<close>

datatype reply =
    RNone | RInt int | RStr string | RList "reply list" | RDict "(string \<times> reply) list"

definition STREAM :: string where "STREAM = ''lumi:stream:run_queue''"
definition GROUP :: string where "GROUP = ''lumi-workers''"
definition DLQ_STREAM :: string where "DLQ_STREAM = ''lumi:stream:dlq''"
definition TOPIC_RUN_QUEUED :: string where "TOPIC_RUN_QUEUED = ''lumi.run_queued''"

text \<open>An existing group is no error; any other error of \<open>XGROUP CREATE\<close> is raised.\<close>

definition ensure_stream_group :: "string + reply \<Rightarrow> string + unit" where
  "ensure_stream_group answer =
     (case answer of Inr _ \<Rightarrow> Inr ()
      | Inl e \<Rightarrow> if contains ''BUSYGROUP'' e then Inr () else Inl e)"

definition stream_fields :: "(rat \<Rightarrow> string) \<Rightarrow> pydict \<Rightarrow> string option \<Rightarrow> (string \<times> string) list" where
  "stream_fields fl payload key =
     (''data'', dumps fl False '', '' '': '' (PDict payload))
     # (case key of None \<Rightarrow> [] | Some k \<Rightarrow> if k = [] then [] else [(''idempotency_key'', k)])"

type_synonym xadd = "string \<Rightarrow> (string \<times> string) list \<Rightarrow> string + string"

definition publish_to_stream ::
  "(rat \<Rightarrow> string) \<Rightarrow> xadd \<Rightarrow> pydict \<Rightarrow> string option \<Rightarrow> string + string" where
  "publish_to_stream fl xadd payload key = xadd STREAM (stream_fields fl payload key)"

definition publish_to_dlq :: "(rat \<Rightarrow> string) \<Rightarrow> xadd \<Rightarrow> pydict \<Rightarrow> string \<Rightarrow> string + string" where
  "publish_to_dlq fl xadd payload reason =
     xadd DLQ_STREAM [(''data'', dumps fl False '', '' '': '' (PDict payload)), (''reason'', reason)]"

section \<open>Reclaiming pending entries\<close>

fun reply_truthy :: "reply \<Rightarrow> bool" where
  "reply_truthy RNone = False"
| "reply_truthy (RInt i) = (i \<noteq> 0)"
| "reply_truthy (RStr s) = (s \<noteq> [])"
| "reply_truthy (RList xs) = (xs \<noteq> [])"
| "reply_truthy (RDict d) = (d \<noteq> [])"

definition reply_or :: "reply \<Rightarrow> reply \<Rightarrow> reply" where
  "reply_or a b = (if reply_truthy a then a else b)"

definition reply_get :: "(string \<times> reply) list \<Rightarrow> string \<Rightarrow> reply" where
  "reply_get d k = (case map_of d k of None \<Rightarrow> RNone | Some r \<Rightarrow> r)"

text \<open>One row of \<open>XPENDING\<close>: its id and idle time; \<open>None\<close> when the row has no such shape.\<close>

definition pending_row :: "reply \<Rightarrow> (reply \<times> reply) option" where
  "pending_row p =
     (case p of
        RDict d \<Rightarrow> Some (reply_or (reply_get d ''message_id'') (reply_get d ''entry_id''),
                       reply_or (reply_or (reply_get d ''time_since_delivered'') (reply_get d ''idle'')) (RInt 0))
      | RList xs \<Rightarrow> Some (if xs \<noteq> [] then xs ! 0 else RNone, if length xs > 1 then xs ! 1 else RInt 0)
      | _ \<Rightarrow> None)"

fun reply_int :: "reply \<Rightarrow> int option" where
  "reply_int (RInt i) = Some i"
| "reply_int (RStr s) = py_int 10 s"
| "reply_int _ = None"

text \<open>The fallback loop; \<open>None\<close> is an exception, which empties the result of \<open>claim_pending\<close>.\<close>

fun reclaim :: "int \<Rightarrow> (reply \<Rightarrow> string + reply) \<Rightarrow> reply list \<Rightarrow> reply list option" where
  "reclaim min_idle xclaim [] = Some []"
| "reclaim min_idle xclaim (p # ps) =
     (case pending_row p of
        None \<Rightarrow> None
      | Some (pid, idle) \<Rightarrow>
          if \<not> reply_truthy pid then reclaim min_idle xclaim ps
          else (case reply_int idle of
                  None \<Rightarrow> None
                | Some t \<Rightarrow>
                    if t < min_idle then reclaim min_idle xclaim ps
                    else (case xclaim pid of
                            Inr (RList es) \<Rightarrow> map_option ((@) es) (reclaim min_idle xclaim ps)
                          | Inr RNone \<Rightarrow> reclaim min_idle xclaim ps
                          | _ \<Rightarrow> None)))"

definition claim_pending ::
  "int \<Rightarrow> string + reply \<Rightarrow> string + reply \<Rightarrow> (reply \<Rightarrow> string + reply) \<Rightarrow> reply" where
  "claim_pending min_idle xautoclaim xpending xclaim =
     (case xautoclaim of
        Inr (RList [n, es]) \<Rightarrow> es
      | Inr (RList [n, es, deleted]) \<Rightarrow> es
      | Inr r \<Rightarrow> reply_or r (RList [])
      | Inl _ \<Rightarrow>
          (case xpending of
             Inr (RList ps) \<Rightarrow>
               (case reclaim min_idle xclaim ps of None \<Rightarrow> RList [] | Some es \<Rightarrow> RList es)
           | _ \<Rightarrow> RList []))"

section \<open>What a reclaim returns\<close>

definition idle_enough :: "int \<Rightarrow> reply \<Rightarrow> bool" where
  "idle_enough min_idle p \<longleftrightarrow>
     (case pending_row p of None \<Rightarrow> False
      | Some (pid, idle) \<Rightarrow> reply_truthy pid \<and> (case reply_int idle of None \<Rightarrow> False | Some t \<Rightarrow> min_idle \<le> t))"

definition claimed_of :: "(reply \<Rightarrow> string + reply) \<Rightarrow> reply \<Rightarrow> reply list" where
  "claimed_of xclaim p =
     (case pending_row p of None \<Rightarrow> []
      | Some (pid, idle) \<Rightarrow> (case xclaim pid of Inr (RList es) \<Rightarrow> es | _ \<Rightarrow> []))"

lemma reclaim_exact:
  "reclaim m x ps = Some es \<Longrightarrow> es = concat (map (claimed_of x) (filter (idle_enough m) ps))"
  by (induction ps arbitrary: es)
    (auto simp: idle_enough_def claimed_of_def split: option.splits prod.splits if_splits sum.splits
      reply.splits)

text \<open>
  A reclaim takes over only what was idle long enough. When \<open>XAUTOCLAIM\<close> is not available, the
  entries handed back by \<open>claim_pending\<close> are, in order, exactly what \<open>XCLAIM\<close> returned for the
  pending rows whose idle time reached the lease, unless some command or row failed, when nothing is
  handed back. With \<open>XAUTOCLAIM\<close> the ids of deleted entries are never mistaken for entries.
\<close>

theorem claim_pending_exact:
  "claim_pending m (Inr (RList [n, es, deleted])) xp xc = es \<and>
   claim_pending m (Inr (RList [n, es])) xp xc = es \<and>
   claim_pending m (Inl e) (Inr (RList ps)) xc \<in>
     {RList [], RList (concat (map (claimed_of xc) (filter (idle_enough m) ps)))}"
  using reclaim_exact [of m xc ps] by (auto simp: claim_pending_def split: option.splits)

end
