(* ===== verification/Worker_Loop.thy ===== *)
theory Worker_Loop
  imports Worker Queue
begin

text \<open>
  One turn of the worker's loop (\<open>process_one\<close> of \<open>apps/worker/worker.py\<close>): a new entry of the stream, else a
  pending one that is idle too long, else an element of the old list. What Redis answers to each command is an
  argument; \<open>process_ok\<close> says of a run whether \<open>_process_run\<close> returns or raises.
\<close>

section \<open>The turn\<close>

text \<open>
  What a turn did: its answer, the entries it acknowledged and the runs it processed or began to process.
  \<open>None\<close> in place of the answer is an exception.
\<close>

type_synonym 'a turn = "'a \<times> string list \<times> string list"

type_synonym entry = "string \<times> (string \<times> string) list option"

text \<open>An entry as \<open>claim_pending\<close> returns it; the fields of a deleted entry are \<open>None\<close>.\<close>

definition entry_of :: "reply \<Rightarrow> entry option" where
  "entry_of r =
     (case r of
        RList [RStr i, RDict d] \<Rightarrow> Some (i, Some (map (\<lambda>(k, v). (k, case v of RStr x \<Rightarrow> x | _ \<Rightarrow> [])) d))
      | RList [RStr i, RNone] \<Rightarrow> Some (i, None)
      | _ \<Rightarrow> None)"

text \<open>The run an entry names, if it gets that far.\<close>

definition named_run :: "(string \<Rightarrow> pyval option) \<Rightarrow> string \<Rightarrow> string list" where
  "named_run loads raw =
     (case loads raw of
        Some (PDict d) \<Rightarrow> (case dget d ''run_id'' PNone of PStr r \<Rightarrow> if r = [] then [] else [r] | _ \<Rightarrow> [])
      | _ \<Rightarrow> [])"

definition take_entry :: "(string \<Rightarrow> pyval option) \<Rightarrow> (string \<Rightarrow> bool) \<Rightarrow> entry \<Rightarrow> bool option turn" where
  "take_entry loads process_ok e =
     (case e of
        (i, None) \<Rightarrow> (None, [], [])
      | (i, Some fs) \<Rightarrow>
          (let began = named_run loads (case map_of fs ''data'' of None \<Rightarrow> [] | Some raw \<Rightarrow> raw)
           in case handle_entry loads process_ok fs of
                LeftPending \<Rightarrow> (None, [], began)
              | Dropped \<Rightarrow> (Some True, [i], [])
              | Processed r \<Rightarrow> (Some True, [i], [r])))"

text \<open>The old list: the element is removed before it is looked at.\<close>

definition fallback_legacy_queue ::
  "(string \<Rightarrow> pyval option) \<Rightarrow> (string \<Rightarrow> bool) \<Rightarrow> string + string option \<Rightarrow> bool option turn" where
  "fallback_legacy_queue loads process_ok popped =
     (case popped of
        Inl _ \<Rightarrow> (Some False, [], [])
      | Inr None \<Rightarrow> (Some False, [], [])
      | Inr (Some raw) \<Rightarrow>
          if raw = [] then (Some False, [], [])
          else (case loads raw of
                  Some (PDict d) \<Rightarrow>
                    (let rid = dget d ''run_id'' PNone in
                     if \<not> truthy rid then (Some True, [], [])
                     else (case rid of
                             PStr r \<Rightarrow> (if process_ok r then Some True else None, [], [r])
                           | _ \<Rightarrow> (None, [], [])))
                | _ \<Rightarrow> (Some True, [], [])))"

text \<open>The handler of exceptions: the old list is tried (again), and a further exception is swallowed.\<close>

definition after_exception ::
  "(string \<Rightarrow> pyval option) \<Rightarrow> (string \<Rightarrow> bool) \<Rightarrow> string + string option \<Rightarrow> string list \<Rightarrow> bool turn" where
  "after_exception loads process_ok popped began =
     (case fallback_legacy_queue loads process_ok popped of
        (None, acks, began') \<Rightarrow> (False, acks, began @ began')
      | (Some b, acks, began') \<Rightarrow> (b, acks, began @ began'))"

definition or_legacy ::
  "(string \<Rightarrow> pyval option) \<Rightarrow> (string \<Rightarrow> bool) \<Rightarrow> string + string option \<Rightarrow> bool option turn \<Rightarrow> bool turn" where
  "or_legacy loads process_ok popped t =
     (case t of
        (Some b, acks, began) \<Rightarrow> (b, acks, began)
      | (None, _, began) \<Rightarrow> after_exception loads process_ok popped began)"

definition process_one ::
  "(string \<Rightarrow> pyval option) \<Rightarrow> (string \<Rightarrow> bool) \<Rightarrow> string + (string \<times> entry list) list \<Rightarrow> reply \<Rightarrow>
   (nat \<Rightarrow> string + string option) \<Rightarrow> bool turn" where
  "process_one loads process_ok read pending pops =
     (case read of
        Inl _ \<Rightarrow> after_exception loads process_ok (pops 0) []
      | Inr streams \<Rightarrow>
          (case concat (map snd streams) of
             e # _ \<Rightarrow> or_legacy loads process_ok (pops 0) (take_entry loads process_ok e)
           | [] \<Rightarrow>
               (case pending of
                  RList (r # _) \<Rightarrow>
                    (case entry_of r of
                       None \<Rightarrow> after_exception loads process_ok (pops 0) []
                     | Some e \<Rightarrow> or_legacy loads process_ok (pops 0) (take_entry loads process_ok e))
                | _ \<Rightarrow> or_legacy loads process_ok (pops 1) (fallback_legacy_queue loads process_ok (pops 0)))))"

section \<open>What a turn acknowledges\<close>

lemma legacy_acks: "fst (snd (fallback_legacy_queue loads ok p)) = []"
  by (simp add: fallback_legacy_queue_def Let_def split: sum.split option.split pyval.split)

lemma after_exception_acks: "fst (snd (after_exception loads ok p began)) = []"
  using legacy_acks [of loads ok p] by (auto simp: after_exception_def split: prod.split option.split)

lemma or_legacy_acks: "fst (snd (or_legacy loads ok p t)) = (if fst t = None then [] else fst (snd t))"
  by (simp add: or_legacy_def after_exception_acks split: prod.split option.split)

lemma take_entry_acks:
  "fst (take_entry loads ok e) \<noteq> None \<Longrightarrow>
   \<exists>fs. e = (i, Some fs) \<and> handle_entry loads ok fs \<noteq> LeftPending \<and> fst (snd (take_entry loads ok e)) = [i]"
  if "i = fst e" for i
  using that by (auto simp: take_entry_def Let_def split: prod.splits option.splits handled.splits)

lemma no_entry_no_ack:
  "(\<exists>ss e rest. read = Inr ss \<and> concat (map snd ss) = e # rest) \<or>
   (\<exists>ss r rs e. read = Inr ss \<and> concat (map snd ss) = [] \<and> pending = RList (r # rs) \<and> entry_of r = Some e) \<or>
   fst (snd (process_one loads ok read pending pops)) = []"
proof (cases read)
  case (Inr ss)
  show ?thesis
  proof (cases "concat (map snd ss)")
    case Nil
    then show ?thesis unfolding process_one_def Inr
      by (simp add: or_legacy_acks legacy_acks after_exception_acks split: reply.split list.split option.split)
  qed (use Inr in simp)
qed (simp add: process_one_def after_exception_acks)

text \<open>
  A turn acknowledges at most one entry, the first new one or else the first reclaimed one, and only
  after its run was processed or when it names no run; an entry whose run raised stays pending.
\<close>

theorem turn_acknowledges:
  assumes "i \<in> set (fst (snd (process_one loads ok read pending pops)))"
  shows "fst (snd (process_one loads ok read pending pops)) = [i] \<and>
    (\<exists>fs. handle_entry loads ok fs \<noteq> LeftPending \<and>
      ((\<exists>ss rest. read = Inr ss \<and> concat (map snd ss) = (i, Some fs) # rest) \<or>
       (\<exists>r rs. pending = RList (r # rs) \<and> entry_of r = Some (i, Some fs))))"
proof -
  consider (new) ss e rest where "read = Inr ss" "concat (map snd ss) = e # rest"
    | (old) ss r rs e where "read = Inr ss" "concat (map snd ss) = []" "pending = RList (r # rs)" "entry_of r = Some e"
    | (none) "fst (snd (process_one loads ok read pending pops)) = []"
    using no_entry_no_ack by blast
  then show ?thesis
  proof cases
    case new
    with assms take_entry_acks [of "fst e" e loads ok] show ?thesis
      by (auto simp: process_one_def or_legacy_acks split: if_splits)
  next
    case old
    have "process_one loads ok read pending pops = or_legacy loads ok (pops 0) (take_entry loads ok e)"
      unfolding process_one_def old by (simp add: old)
    with assms old take_entry_acks [of "fst e" e loads ok] show ?thesis
      by (auto simp: or_legacy_acks split: if_splits)
  qed (use assms in simp)
qed

text \<open>
  The old list loses what fails: its element is gone when the run raises, and the handler of the
  exception takes the next element at once, which is lost as well when its run raises.
\<close>

lemma legacy_failures_are_lost:
  assumes "loads raw1 = Some (PDict [(''run_id'', PStr r1)])" and "loads raw2 = Some (PDict [(''run_id'', PStr r2)])"
    and "raw1 \<noteq> []" and "raw2 \<noteq> []" and "r1 \<noteq> []" and "r2 \<noteq> []" and "\<not> ok r1" and "\<not> ok r2"
  shows "process_one loads ok (Inr []) (RList []) (\<lambda>n. Inr (Some (if n = 0 then raw1 else raw2))) = (False, [], [r1, r2])"
  using assms by (simp add: process_one_def or_legacy_def after_exception_def fallback_legacy_queue_def dget_def Let_def)

end
