(* ===== verification/Auth.thy ===== *)
theory Auth
  imports Models Json
begin

text \<open>
  Local authentication: \<open>packages/observability/auth.py\<close>. Password hashes, session tokens, roles and
  the rate limiter. PBKDF2 and the JWT library are arguments. HTTP errors keep their status; the
  detail texts are left out, and \<open>Unhandled\<close> is an exception that becomes a status 500.
\<close>

datatype http_error = Http nat | Unhandled

section \<open>Passwords\<close>

type_synonym kdf = "string \<Rightarrow> string \<Rightarrow> int \<Rightarrow> string option"

definition ITERATIONS :: int where "ITERATIONS = 240000"

definition hex_of :: "string \<Rightarrow> string" where
  "hex_of bs = concat (map (\<lambda>c. hexn 2 (cp c)) bs)"

definition hash_password :: "kdf \<Rightarrow> string \<Rightarrow> string \<Rightarrow> string option" where
  "hash_password pbkdf2 salt password =
     (case pbkdf2 password salt ITERATIONS of
        None \<Rightarrow> None
      | Some dk \<Rightarrow> Some (join_with ''$'' [''pbkdf2_sha256'', int_str ITERATIONS, hex_of salt, hex_of dk]))"

text \<open>\<open>bytes.fromhex\<close>: pairs of digits, white space between the pairs is skipped.\<close>

definition ascii_space :: "char \<Rightarrow> bool" where
  "ascii_space c \<longleftrightarrow> cp c \<in> {9, 10, 11, 12, 13, 32}"

fun fromhex :: "string \<Rightarrow> string option" where
  "fromhex [] = Some []"
| "fromhex [c] = (if ascii_space c then Some [] else None)"
| "fromhex (c # d # s) =
     (if ascii_space c then fromhex (d # s)
      else (case (digit_val 16 c, digit_val 16 d) of
              (Some a, Some b) \<Rightarrow> map_option (Cons (char_of (nat (16 * a + b)))) (fromhex s)
            | _ \<Rightarrow> None))"

definition verify_password :: "kdf \<Rightarrow> string \<Rightarrow> string \<Rightarrow> bool" where
  "verify_password pbkdf2 password stored =
     (case split_on (CHR ''$'') stored of
        [algo, iters, salt_hex, dk_hex] \<Rightarrow>
          (case (fromhex salt_hex, py_int 10 iters) of
             (Some salt, Some n) \<Rightarrow>
               (case pbkdf2 password salt n of None \<Rightarrow> False | Some dk \<Rightarrow> hex_of dk = dk_hex)
           | _ \<Rightarrow> False)
      | _ \<Rightarrow> False)"

section \<open>Sessions and roles\<close>

datatype jwt_error = ExpiredSignature | InvalidToken

definition session_payload :: "string \<Rightarrow> string \<Rightarrow> int \<Rightarrow> int \<Rightarrow> string \<Rightarrow> pydict" where
  "session_payload user_id role now expires_seconds jti =
     [(''sub'', PStr user_id), (''role'', PStr role), (''iat'', PInt now),
      (''exp'', PInt (now + expires_seconds)), (''jti'', PStr jti), (''iss'', PStr ''lumi-observatory'')]"

definition create_session_token ::
  "(pydict \<Rightarrow> string) \<Rightarrow> string \<Rightarrow> string \<Rightarrow> int \<Rightarrow> int \<Rightarrow> string \<Rightarrow> string" where
  "create_session_token encode user_id role now expires_seconds jti =
     encode (session_payload user_id role now expires_seconds jti)"

record auth_user =
  au_id :: pyval
  au_role :: pyval

definition get_current_user :: "(string \<Rightarrow> jwt_error + pydict) \<Rightarrow> string option \<Rightarrow> http_error + auth_user" where
  "get_current_user decode creds =
     (case creds of
        None \<Rightarrow> Inl (Http 401)
      | Some token \<Rightarrow>
          if token = [] then Inl (Http 401)
          else (case decode token of
                  Inl _ \<Rightarrow> Inl (Http 401)
                | Inr payload \<Rightarrow>
                    Inr \<lparr>au_id = dget payload ''sub'' PNone,
                         au_role = dget payload ''role'' (PStr ''viewer'')\<rparr>))"

definition ROLE_ORDER :: "(string \<times> int) list" where
  "ROLE_ORDER = [(''viewer'', 0), (''operator'', 1), (''admin'', 2)]"

text \<open>\<open>ROLE_ORDER.get(role, -1)\<close>: a list or dictionary is not hashable.\<close>

fun role_rank :: "pyval \<Rightarrow> int option" where
  "role_rank (PStr r) = Some (case map_of ROLE_ORDER r of None \<Rightarrow> -1 | Some n \<Rightarrow> n)"
| "role_rank (PList _) = None"
| "role_rank (PDict _) = None"
| "role_rank _ = Some (-1)"

definition min_rank :: "string \<Rightarrow> int" where
  "min_rank r = (case map_of ROLE_ORDER r of None \<Rightarrow> 0 | Some n \<Rightarrow> n)"

definition require_role :: "string \<Rightarrow> auth_user \<Rightarrow> http_error + auth_user" where
  "require_role min_role user =
     (case role_rank (au_role user) of
        None \<Rightarrow> Inl Unhandled
      | Some k \<Rightarrow> if k < min_rank min_role then Inl (Http 403) else Inr user)"

text \<open>A dependency chain: the token, then the role.\<close>

definition authorise ::
  "(string \<Rightarrow> jwt_error + pydict) \<Rightarrow> string option \<Rightarrow> string \<Rightarrow> http_error + auth_user" where
  "authorise decode creds min_role =
     (case get_current_user decode creds of Inl e \<Rightarrow> Inl e | Inr u \<Rightarrow> require_role min_role u)"

section \<open>The rate limiter\<close>

type_synonym rl_mem = "string \<Rightarrow> time list"

text \<open>
  \<open>reply\<close> is the answer of the Redis counter: \<open>None\<close> without a client, an error, or the count. The
  fallback keeps the granted requests of the last window in memory.
\<close>

definition rate_check ::
  "(string + int) option \<Rightarrow> time \<Rightarrow> string \<Rightarrow> int \<Rightarrow> time \<Rightarrow> rl_mem \<Rightarrow> bool \<times> rl_mem" where
  "rate_check reply now key limit window mem =
     (case reply of
        Some (Inr count) \<Rightarrow> (count \<le> limit, mem)
      | _ \<Rightarrow>
          (let ts = filter (\<lambda>t. now - t < window) (mem key)
           in if limit \<le> int (length ts) then (False, mem(key := ts))
              else (True, mem(key := ts @ [now]))))"

text \<open>A sequence of requests without Redis: the decisions, and the memory at the end.\<close>

fun rate_serve :: "int \<Rightarrow> time \<Rightarrow> (string \<times> time) list \<Rightarrow> rl_mem \<Rightarrow> bool list" where
  "rate_serve limit window [] mem = []"
| "rate_serve limit window ((k, now) # rs) mem =
     (let r = rate_check None now k limit window mem
      in fst r # rate_serve limit window rs (snd r))"

section \<open>A stored hash verifies the password it was made from\<close>

lemma digit_hexdig: "n < 16 \<Longrightarrow> digit_val 16 (hexdig n) = Some (int n)"
  by (rule digit_val_hexdig)

lemma hexn2: "hexn 2 n = [hexdig (n div 16 mod 16), hexdig (n mod 16)]"
  by (simp add: numeral_2_eq_2)

lemma hexdig_no_space: "n < 16 \<Longrightarrow> \<not> ascii_space (hexdig n)"
  using cp_hexdig [of n] by (auto simp: ascii_space_def)

lemma fromhex_hex_of: "fromhex (hex_of bs) = Some bs"
proof (induction bs)
  case Nil
  then show ?case by (simp add: hex_of_def)
next
  case (Cons c bs)
  have d: "cp c div 16 < 16" using cp_less [of c] by simp
  have "nat (16 * int (cp c div 16) + int (cp c mod 16)) = cp c"
    by (metis mult_div_mod_eq nat_int of_nat_add of_nat_mult of_nat_numeral)
  moreover have "char_of (cp c) = c" by (simp add: cp_def)
  ultimately show ?case
    using Cons hexdig_no_space [OF d] d by (simp add: hex_of_def hexn2 digit_hexdig)
qed

lemma hex_of_inject: "hex_of a = hex_of b \<longleftrightarrow> a = b"
  by (metis fromhex_hex_of option.inject)

lemma split_on_app: "c \<notin> set p \<Longrightarrow> split_on c (p @ c # s) = p # split_on c s"
  by (induction p) auto

lemma split_on_whole: "c \<notin> set p \<Longrightarrow> split_on c p = [p]"
  by (induction p) auto

lemma dollar_hex: "CHR ''$'' \<notin> set (hex_of bs)"
  using hexn_notin [of "CHR ''$''"] by (auto simp: hex_of_def cp_def)

lemma iterations_str: "int_str ITERATIONS = ''240000''"
  by (simp add: ITERATIONS_def int_str_def nat_str.simps char_of_def bit_iff_odd)

lemma split_stored:
  "split_on (CHR ''$'') (join_with ''$'' [''pbkdf2_sha256'', ''240000'', hex_of salt, hex_of dk]) =
   [''pbkdf2_sha256'', ''240000'', hex_of salt, hex_of dk]"
  using split_on_app [OF dollar_hex, of salt "hex_of dk"] split_on_whole [OF dollar_hex, of dk] by simp

text \<open>
  A password hash verifies exactly the passwords whose derived key under the stored salt is
  the stored one; in particular the password it was made from.
\<close>

theorem password_roundtrip:
  assumes "hash_password pbkdf2 salt pw = Some stored"
  shows "verify_password pbkdf2 pw' stored \<longleftrightarrow> pbkdf2 pw' salt ITERATIONS = pbkdf2 pw salt ITERATIONS"
proof -
  obtain dk where dk: "pbkdf2 pw salt ITERATIONS = Some dk"
    and s: "stored = join_with ''$'' [''pbkdf2_sha256'', ''240000'', hex_of salt, hex_of dk]"
    using assms by (auto simp: hash_password_def iterations_str split: option.splits)
  have n: "py_int 10 ''240000'' = Some ITERATIONS"
    by (simp add: ITERATIONS_def) code_simp
  show ?thesis
    unfolding s verify_password_def split_stored
    by (auto simp: fromhex_hex_of n dk hex_of_inject split: option.splits)
qed

theorem password_roundtrip_witness:
  "verify_password (\<lambda>p s n. Some (p @ s)) ''secret''
     ''pbkdf2_sha256$240000$0aff$7365637265740aff''"
proof -
  have h: "hash_password (\<lambda>p s n. Some (p @ s)) [CHR 0x0A, CHR 0xFF] ''secret'' =
      Some ''pbkdf2_sha256$240000$0aff$7365637265740aff''"
    by (simp add: hash_password_def iterations_str hex_of_def hexn2 hexdig_def cp_def char_of_def bit_iff_odd)
  show ?thesis using password_roundtrip [OF h, of "''secret''"] by simp
qed

section \<open>The limiter against a log of the granted requests\<close>

text \<open>The reference: a request is granted when fewer than \<open>limit\<close> requests of its key were granted
  within the last window.\<close>

definition recent :: "time \<Rightarrow> string \<Rightarrow> time \<Rightarrow> (string \<times> time) list \<Rightarrow> nat" where
  "recent window k now G = length (filter (\<lambda>(k', u). k' = k \<and> now - u < window) G)"

fun ref_serve :: "int \<Rightarrow> time \<Rightarrow> (string \<times> time) list \<Rightarrow> (string \<times> time) list \<Rightarrow> bool list" where
  "ref_serve limit window [] G = []"
| "ref_serve limit window ((k, now) # rs) G =
     (let ok = int (recent window k now G) < limit
      in ok # ref_serve limit window rs (if ok then G @ [(k, now)] else G))"

definition granted :: "(string \<times> time) list \<Rightarrow> bool list \<Rightarrow> (string \<times> time) list" where
  "granted rs oks = map fst (filter snd (zip rs oks))"

text \<open>The memory and the log agree on the window of every request still to come.\<close>

definition mem_log :: "time \<Rightarrow> rl_mem \<Rightarrow> (string \<times> time) list \<Rightarrow> time \<Rightarrow> bool" where
  "mem_log window mem G now \<longleftrightarrow>
     (\<forall>k t. now \<le> t \<longrightarrow> filter (\<lambda>u. t - u < window) (mem k) =
        filter (\<lambda>u. t - u < window) (map snd (filter (\<lambda>r. fst r = k) G)))"

lemma mem_log_later: "mem_log w mem G now \<Longrightarrow> now \<le> t \<Longrightarrow> mem_log w mem G t"
  by (simp add: mem_log_def)

lemma recent_mem:
  assumes "mem_log w mem G now"
  shows "length (filter (\<lambda>u. now - u < w) (mem k)) = recent w k now G"
proof -
  have "filter (\<lambda>u. now - u < w) (map snd (filter (\<lambda>r. fst r = k) G)) =
      map snd (filter (\<lambda>(k', u). k' = k \<and> now - u < w) G)"
    by (induction G) auto
  then show ?thesis using assms by (simp add: mem_log_def recent_def)
qed

lemma filter_later: "(now::time) \<le> t \<Longrightarrow>
    filter (\<lambda>u. now - u < w \<and> t - u < w) us = filter (\<lambda>u. t - u < w) us"
  by (induction us) auto

lemma mem_log_deny:
  "mem_log w mem G now \<Longrightarrow> mem_log w (mem(k := filter (\<lambda>u. now - u < w) (mem k))) G now"
  by (simp add: mem_log_def filter_later)

lemma mem_log_grant:
  "mem_log w mem G now \<Longrightarrow>
   mem_log w (mem(k := filter (\<lambda>u. now - u < w) (mem k) @ [now])) (G @ [(k, now)]) now"
  by (simp add: mem_log_def filter_later)

lemma serve_ref:
  "mem_log w mem G t \<Longrightarrow> sorted (t # map snd rs) \<Longrightarrow> rate_serve limit w rs mem = ref_serve limit w rs G"
proof (induction rs arbitrary: mem G t)
  case Nil
  then show ?case by simp
next
  case (Cons r rs)
  obtain k now where r: "r = (k, now)" by fastforce
  have m: "mem_log w mem G now" using Cons.prems r mem_log_later by simp
  have s: "sorted (now # map snd rs)" using Cons.prems r by simp
  show ?case
    using Cons.IH [OF mem_log_deny [OF m, of k] s] Cons.IH [OF mem_log_grant [OF m, of k] s]
    by (simp add: r rate_check_def Let_def recent_mem [OF m] not_le fun_upd_def)
qed

definition in_window :: "time \<Rightarrow> string \<Rightarrow> time \<Rightarrow> (string \<times> time) list \<Rightarrow> nat" where
  "in_window window k t G = length (filter (\<lambda>(k', u). k' = k \<and> t - window < u \<and> u \<le> t) G)"

lemma in_window_grant:
  assumes "\<forall>k t. int (in_window w k t G) \<le> max 0 limit" and "int (recent w j now G) < limit"
  shows "int (in_window w k t (G @ [(j, now)])) \<le> max 0 limit"
proof (cases "k = j \<and> t - w < now \<and> now \<le> t")
  case True
  have "in_window w k t G \<le> recent w j now G"
    unfolding in_window_def recent_def using True by (induction G) auto
  then show ?thesis using True assms(2) by (simp add: in_window_def)
next
  case False
  then have "in_window w k t (G @ [(j, now)]) = in_window w k t G" by (auto simp: in_window_def)
  then show ?thesis using assms(1) by simp
qed

lemma ref_bound:
  "\<forall>k t. int (in_window w k t G) \<le> max 0 limit \<Longrightarrow>
   int (in_window w k t (G @ granted rs (ref_serve limit w rs G))) \<le> max 0 limit"
proof (induction rs arbitrary: G)
  case Nil
  then show ?case by (simp add: granted_def)
next
  case (Cons r rs)
  obtain j now where r: "r = (j, now)" by fastforce
  show ?case
  proof (cases "int (recent w j now G) < limit")
    case True
    then have "\<forall>k t. int (in_window w k t (G @ [(j, now)])) \<le> max 0 limit"
      using in_window_grant [OF Cons.prems] by blast
    from Cons.IH [OF this] True show ?thesis by (simp add: r granted_def)
  next
    case False
    with Cons.IH [OF Cons.prems] show ?thesis by (simp add: r granted_def)
  qed
qed

text \<open>
  The limiter is a sliding window. Over requests in the order of time the in-memory limiter
  decides like the reference that logs every granted request, and so no interval of the length of
  the window ever contains more than \<open>limit\<close> granted requests of one key.
\<close>

theorem rate_limit_sliding:
  assumes "sorted (map snd rs)"
  shows "rate_serve limit w rs (\<lambda>_. []) = ref_serve limit w rs [] \<and>
    int (in_window w k t (granted rs (rate_serve limit w rs (\<lambda>_. [])))) \<le> max 0 limit"
proof -
  have e: "rate_serve limit w rs (\<lambda>_. []) = ref_serve limit w rs []"
  proof (cases rs)
    case (Cons r rs')
    then show ?thesis
      using serve_ref [of w "\<lambda>_. []" "[]" "snd r" rs limit] assms by (simp add: mem_log_def)
  qed simp
  show ?thesis using ref_bound [of w "[]" limit k t rs] e by (simp add: in_window_def)
qed

theorem rate_limit_sliding_witness:
  "rate_serve 2 60 [(''a'', 0), (''a'', 10), (''b'', 15), (''a'', 20), (''a'', 60)] (\<lambda>_. []) =
     [True, True, True, False, True] \<and>
   in_window 60 ''a'' 60 [(''a'', 0), (''a'', 10), (''b'', 15), (''a'', 60)] \<le> 2"
proof -
  let ?rs = "[(''a'', 0 :: time), (''a'', 10), (''b'', 15), (''a'', 20), (''a'', 60)]"
  have s: "rate_serve 2 60 ?rs (\<lambda>_. []) = [True, True, True, False, True]" by code_simp
  have "sorted (map snd ?rs)" by simp
  from rate_limit_sliding [OF this, of 2 60 "''a''" 60] show ?thesis
    unfolding s by (simp add: granted_def)
qed

text \<open>
  With Redis the count is that of \<open>INCR\<close>, and every request renews the expiry of the counter; the
  sources compare it with the limit and nothing else.
\<close>

lemma rate_check_redis: "rate_check (Some (Inr n)) now k limit w mem = (n \<le> limit, mem)"
  by (simp add: rate_check_def)

section \<open>Roles\<close>



end
