(* ===== verification/Api.thy ===== *)
theory Api
  imports Auth Config Approval Memory
begin

text \<open>
  The HTTP API: \<open>apps/api/app.py\<close>. Each endpoint is a function of the request, the clock, the fresh
  identifiers and the database; it returns a result or an HTTP error, and the committed database.
  Where an endpoint reads before it writes, \<open>snap\<close> is what the read saw and \<open>s\<close> are the rows when
  it writes, so that a request of somebody else may have come in between.
\<close>

section \<open>Tasks\<close>

record task_create =
  tk_title :: string
  tk_prompt :: string
  tk_scope :: pydict
  tk_budget :: pydict
  tk_key :: "string option"

definition key_of :: "task_create \<Rightarrow> string option" where
  "key_of t = (case tk_key t of None \<Rightarrow> None | Some k \<Rightarrow> if k = [] then None else Some k)"

definition outbox_key_of :: "string \<Rightarrow> task_create \<Rightarrow> string" where
  "outbox_key_of hex t = (case key_of t of Some k \<Rightarrow> ''task:'' @ k | None \<Rightarrow> ''auto:'' @ hex)"

definition task_row :: "uuid \<Rightarrow> task_create \<Rightarrow> task" where
  "task_row i t =
     \<lparr>t_id = i, t_title = tk_title t, t_prompt = tk_prompt t, t_scope = tk_scope t,
      t_budget = tk_budget t, t_key = tk_key t\<rparr>"

definition queued_message :: "uuid \<Rightarrow> uuid \<Rightarrow> string \<Rightarrow> time \<Rightarrow> outbox_message" where
  "queued_message rid tid key now =
     new_outbox ''lumi.run_queued''
       [(''run_id'', PStr (uuid_str rid)), (''task_id'', PStr (uuid_str tid))] key now"

text \<open>
  A violated constraint at the flush of the task or the run is outside the handler that translates
  it; only one at the commit, of the outbox key, becomes a status 409.
\<close>

definition api_create_task ::
  "settings \<Rightarrow> uuid \<Rightarrow> uuid \<Rightarrow> string \<Rightarrow> time \<Rightarrow> task_create \<Rightarrow> db \<Rightarrow> db \<Rightarrow> (http_error + uuid \<times> uuid) \<times> db" where
  "api_create_task cfg tid rid hex now t snap s =
     (if key_of t \<noteq> None \<and> key_of t \<in> t_key ` set (tasks snap) then (Inl (Http 409), s)
      else case add_task (task_row tid t) s of
             None \<Rightarrow> (Inl Unhandled, s)
           | Some s1 \<Rightarrow>
               (case add_run (new_run rid tid (run_max_token_budget cfg) (run_max_cost_budget cfg) now) s1 of
                  None \<Rightarrow> (Inl Unhandled, s)
                | Some s2 \<Rightarrow>
                    (case add_outbox (queued_message rid tid (outbox_key_of hex t) now) s2 of
                       None \<Rightarrow> (Inl (Http 409), s)
                     | Some s3 \<Rightarrow> (Inr (tid, rid), s3))))"

section \<open>Runs\<close>

definition api_list_runs :: "nat \<Rightarrow> nat \<Rightarrow> db \<Rightarrow> run list" where
  "api_list_runs limit offset s = take limit (drop offset (sort_key (\<lambda>r. - r_created r) (runs s)))"

definition api_run_events :: "string \<Rightarrow> db \<Rightarrow> http_error + run_event list" where
  "api_run_events run_id s =
     (case uuid_of_string run_id of
        None \<Rightarrow> Inl (Http 400)
      | Some uid \<Rightarrow> Inr (sort_key e_seq (filter (\<lambda>e. e_run e = uid) (events s))))"

definition api_get_run :: "string \<Rightarrow> db \<Rightarrow> http_error + run" where
  "api_get_run run_id s =
     (case uuid_of_string run_id of
        None \<Rightarrow> Inl (Http 400)
      | Some uid \<Rightarrow> (case get_run uid s of None \<Rightarrow> Inl (Http 404) | Some r \<Rightarrow> Inr r))"

definition api_control_run :: "time \<Rightarrow> string \<Rightarrow> string \<Rightarrow> db \<Rightarrow> (http_error + string option) \<times> db" where
  "api_control_run now run_id action s =
     (if action \<notin> {''pause'', ''resume'', ''stop''} then (Inl (Http 400), s)
      else case uuid_of_string run_id of
             None \<Rightarrow> (Inl (Http 400), s)
           | Some uid \<Rightarrow>
               (case get_run uid s of
                  None \<Rightarrow> (Inl (Http 404), s)
                | Some r \<Rightarrow>
                    if r_status r \<notin> {EXECUTING, QUEUED} then (Inl (Http 409), s)
                    else (let c = (if action = ''resume'' then None else Some action)
                          in (Inr c, upd_run now uid (\<lambda>r. r\<lparr>r_control := c\<rparr>) s))))"

text \<open>The idempotency key of a retry: the header, then the query parameter, then \<open>default\<close>.\<close>

definition client_key :: "string \<Rightarrow> string \<Rightarrow> string" where
  "client_key header query =
     (let raw = (if header \<noteq> [] then header else query)
      in if raw \<noteq> [] then take 128 (strip raw) else ''default'')"

definition find_retry :: "uuid \<Rightarrow> string \<Rightarrow> db \<Rightarrow> run option" where
  "find_retry uid key s = find (\<lambda>r. r_source_run r = Some uid \<and> r_retry_key r = Some key) (runs s)"

definition api_retry_row :: "uuid \<Rightarrow> string \<Rightarrow> time \<Rightarrow> run \<Rightarrow> run" where
  "api_retry_row fresh key now r =
     (new_run fresh (r_task r) (r_token_budget r) (r_cost_budget r) now)
       \<lparr>r_source_run := Some (r_id r), r_retry_key := Some key, r_retry_count := r_retry_count r + 1\<rparr>"

definition api_retry_message :: "uuid \<Rightarrow> string \<Rightarrow> time \<Rightarrow> run \<Rightarrow> outbox_message" where
  "api_retry_message fresh key now r =
     new_outbox ''lumi.run_queued''
       [(''run_id'', PStr (uuid_str fresh)), (''source_run_id'', PStr (uuid_str (r_id r)))]
       (''retry:'' @ uuid_str (r_id r) @ '':'' @ key) now"

record retry_answer =
  ra_run :: uuid
  ra_count :: int
  ra_dedup :: bool

definition answer_of :: "bool \<Rightarrow> run \<Rightarrow> retry_answer" where
  "answer_of dedup r = \<lparr>ra_run = r_id r, ra_count = r_retry_count r, ra_dedup = dedup\<rparr>"

definition api_retry_run ::
  "uuid \<Rightarrow> time \<Rightarrow> string \<Rightarrow> string \<Rightarrow> string \<Rightarrow> db \<Rightarrow> db \<Rightarrow> (http_error + retry_answer) \<times> db" where
  "api_retry_run fresh now run_id header query snap s =
     (case uuid_of_string run_id of
        None \<Rightarrow> (Inl (Http 400), s)
      | Some uid \<Rightarrow>
        (case get_run uid s of
           None \<Rightarrow> (Inl (Http 404), s)
         | Some r \<Rightarrow>
             if \<not> terminal (r_status r) then (Inl (Http 409), s)
             else let key = client_key header query in
               case find_retry uid key snap of
                 Some e \<Rightarrow> (Inr (answer_of True e), s)
               | None \<Rightarrow>
                   (case add_run (api_retry_row fresh key now r) s of
                      None \<Rightarrow> (Inl Unhandled, s)
                    | Some s1 \<Rightarrow>
                        (case add_outbox (api_retry_message fresh key now r) s1 of
                           Some s2 \<Rightarrow> (Inr (answer_of False (api_retry_row fresh key now r)), s2)
                         | None \<Rightarrow>
                             (case find_retry uid key s of
                                Some e \<Rightarrow> (Inr (answer_of True e), s)
                              | None \<Rightarrow> (Inl (Http 500), s))))))"

section \<open>Approvals\<close>

definition api_list_approvals :: "(string \<Rightarrow> string) \<Rightarrow> nat \<Rightarrow> db \<Rightarrow> approval list" where
  "api_list_approvals redact limit s =
     map (\<lambda>a. a\<lparr>a_target := redact (a_target a)\<rparr>)
       (take limit (sort_key (\<lambda>a. - a_created a) (approvals s)))"

text \<open>
  The status is chosen by the words of the message: one that mentions the expiry or EXPIRED is a
  410 and commits, the other service errors roll back.
\<close>

fun decision_error :: "svc_error \<Rightarrow> http_error" where
  "decision_error ApprovalExpired = Http 410"
| "decision_error (AlreadyDecided st) = (if st = A_EXPIRED then Http 410 else Http 409)"
| "decision_error ApprovalNotFound = Http 404"
| "decision_error IntegrityError = Unhandled"
| "decision_error _ = Http 400"

definition api_decide_approval ::
  "time \<Rightarrow> string \<Rightarrow> string \<Rightarrow> string \<Rightarrow> string option \<Rightarrow> db \<Rightarrow>
   (http_error + uuid \<times> approval_status \<times> string option) \<times> db" where
  "api_decide_approval now path_id body_id decision user s =
     (if body_id \<noteq> path_id then (Inl (Http 400), s)
      else case decide_with_continuation now path_id decision user s of
             (Inr a, s1) \<Rightarrow> (Inr (a_id a, a_status a, a_decision a), s1)
           | (Inl e, s1) \<Rightarrow> (Inl (decision_error e), if decision_error e = Http 410 then s1 else s))"

section \<open>Memory\<close>

definition api_list_memory ::
  "(string \<Rightarrow> string) \<Rightarrow> time \<Rightarrow> string option \<Rightarrow> string option \<Rightarrow> nat \<Rightarrow> db \<Rightarrow> memory_item list" where
  "api_list_memory redact now status q limit s =
     map (\<lambda>m. m\<lparr>m_content := redact (m_content m)\<rparr>)
       (case q of
          Some w \<Rightarrow> if w \<noteq> [] then fst (search redact now w status limit True False s)
                    else list_status now (case status of Some st \<Rightarrow> if st \<noteq> [] then st else ''candidate''
                                          | None \<Rightarrow> ''candidate'') limit s
        | None \<Rightarrow> list_status now (case status of Some st \<Rightarrow> if st \<noteq> [] then st else ''candidate''
                                  | None \<Rightarrow> ''candidate'') limit s)"

definition api_create_memory ::
  "(string \<Rightarrow> string) \<Rightarrow> uuid \<Rightarrow> time \<Rightarrow> string \<Rightarrow> string \<Rightarrow> rat \<Rightarrow> int option \<Rightarrow> string option \<Rightarrow> db \<Rightarrow>
   (http_error + uuid) \<times> db" where
  "api_create_memory redact fresh now content source confidence ttl category s =
     (case create_candidate redact fresh now content source confidence ttl category None s of
        None \<Rightarrow> (Inl Unhandled, s)
      | Some (m, s') \<Rightarrow> (Inr (m_id m), s'))"

definition api_decide_memory :: "string \<Rightarrow> pyval \<Rightarrow> db \<Rightarrow> (http_error + string) \<times> db" where
  "api_decide_memory memory_id action s =
     (case uuid_of_string memory_id of
        None \<Rightarrow> (Inl (Http 400), s)
      | Some uid \<Rightarrow>
        (case get_memory uid s of
           None \<Rightarrow> (Inl (Http 404), s)
         | Some m \<Rightarrow>
             if action = PStr ''approve'' \<or> action = PStr ''activate''
             then (Inr (case action of PStr a \<Rightarrow> a | _ \<Rightarrow> []), mark_active uid s)
             else if action = PStr ''reject'' then (Inr ''reject'', mem_reject uid s)
             else (Inl (Http 400), s)))"

section \<open>Creation of tasks\<close>

lemma add_outbox_put: "add_outbox x s = Some s' \<Longrightarrow> s' = put_outbox x s"
  by (simp add: add_outbox_eq split: if_splits)


definition sample_task :: task_create where
  "sample_task = \<lparr>tk_title = ''t'', tk_prompt = ''p'', tk_scope = [], tk_budget = [], tk_key = Some ''k''\<rparr>"


text \<open>
  The handler for a lost race is not reached: when another request stored the key after the
  pre-check, the flush of the task raises first, outside the handler.
\<close>

lemma create_task_race:
  assumes "key_of t \<noteq> None" and "key_of t \<notin> t_key ` set (tasks snap)" and "key_of t \<in> t_key ` set (tasks s)"
  shows "api_create_task cfg tid rid hex now t snap s = (Inl Unhandled, s)"
proof -
  have "t_key (task_row tid t) = key_of t"
    using assms(1) by (auto simp: key_of_def task_row_def split: option.splits if_splits)
  then show ?thesis using assms by (simp add: api_create_task_def add_task_def)
qed

section \<open>Retries\<close>

lemma find_retry_put: "find_retry uid key s = None \<Longrightarrow> r_source_run r = Some uid \<Longrightarrow> r_retry_key r = Some key \<Longrightarrow>
    find_retry uid key (put_run r s) = Some r"
proof -
  have "find P (xs @ [y]) = (if find P xs = None then if P y then Some y else None else find P xs)"
    for P :: "run \<Rightarrow> bool" and xs y
    by (induction xs) auto
  then show "find_retry uid key s = None \<Longrightarrow> r_source_run r = Some uid \<Longrightarrow> r_retry_key r = Some key \<Longrightarrow>
    find_retry uid key (put_run r s) = Some r"
    by (simp add: find_retry_def put_run_def)
qed

lemma find_retry_outbox [simp]: "find_retry uid key (put_outbox m s) = find_retry uid key s"
  by (simp add: find_retry_def)

text \<open>
  A retry request is idempotent. When the retry of a finished run was accepted, the same
  request again, whatever fresh identifier it would use, answers with the same run, marked as a
  duplicate, and changes nothing; the new run itself is QUEUED for the same task with the budgets
  of the old one and one more retry, and a rejected request changes nothing.
\<close>

theorem retry_idempotent:
  assumes "api_retry_run fresh now run_id header query s s = (res, s')"
  shows "case res of
      Inl e \<Rightarrow> s' = s
    | Inr a \<Rightarrow>
        (\<exists>b. api_retry_run fresh2 now2 run_id header query s' s' = (Inr b, s') \<and>
           ra_run b = ra_run a \<and> ra_count b = ra_count a \<and> ra_dedup b) \<and>
        (if ra_dedup a then s' = s
         else \<exists>uid r. uuid_of_string run_id = Some uid \<and> get_run uid s = Some r \<and> terminal (r_status r) \<and>
           s' = put_outbox (api_retry_message fresh (client_key header query) now r)
                  (put_run (api_retry_row fresh (client_key header query) now r) s))"
proof (cases res)
  case (Inl e)
  then show ?thesis
    using assms by (auto simp: api_retry_run_def Let_def split: option.splits if_splits)
next
  case (Inr a)
  let ?key = "client_key header query"
  obtain uid r where u: "uuid_of_string run_id = Some uid" "get_run uid s = Some r" "terminal (r_status r)"
    using assms Inr by (auto simp: api_retry_run_def split: option.splits if_splits)
  have rid: "r_id r = uid" using u(2) by (rule run_store.get_key)
  show ?thesis
  proof (cases "find_retry uid ?key s")
    case (Some e)
    then have "a = answer_of True e" "s' = s"
      using assms Inr u by (auto simp: api_retry_run_def Let_def)
    then show ?thesis using u Some Inr by (simp add: api_retry_run_def answer_of_def Let_def)
  next
    case None
    let ?n = "api_retry_row fresh ?key now r"
    have s': "a = answer_of False ?n" "s' = put_outbox (api_retry_message fresh ?key now r) (put_run ?n s)"
      using assms Inr u None
      by (auto simp: api_retry_run_def Let_def dest!: add_run_put add_outbox_put split: option.splits)
    have "find_retry uid ?key s' = Some ?n"
      using find_retry_put [OF None, of ?n] rid by (simp add: s' api_retry_row_def)
    moreover have "get_run uid s' = Some r" using u(2) by (simp add: s' get_put_run)
    ultimately show ?thesis
      using u s' Inr by (auto simp: api_retry_run_def answer_of_def Let_def)
  qed
qed

definition finished_db :: db where
  "finished_db = empty_db\<lparr>runs := [(new_run 5 1 100 1 0)\<lparr>r_status := FAILED\<rparr>]\<rparr>"

theorem retry_idempotent_witness:
  "\<exists>s'. api_retry_run 9 10 (uuid_str 5) ''k1'' [] finished_db finished_db =
       (Inr \<lparr>ra_run = 9, ra_count = 1, ra_dedup = False\<rparr>, s') \<and>
     (\<exists>b. api_retry_run 11 12 (uuid_str 5) ''k1'' [] s' s' = (Inr b, s') \<and> ra_run b = 9)"
proof -
  obtain s' where c: "api_retry_run 9 10 (uuid_str 5) ''k1'' [] finished_db finished_db =
       (Inr \<lparr>ra_run = 9, ra_count = 1, ra_dedup = False\<rparr>, s')"
    by (simp add: api_retry_run_def finished_db_def get_run_def tget_def new_run_def terminal_def
        find_retry_def client_key_def strip_def rstrip_by_def lstrip_by_def is_space_def cp_def
        add_run_def add_outbox_eq tadd_def get_outbox_def empty_db_def api_retry_row_def same_retry_def
        api_retry_message_def answer_of_def uuid_roundtrip Let_def)
  show ?thesis
    using retry_idempotent [OF c, of 11 12] c by auto
qed

text \<open>As with tasks, the handler of the lost race is not reached for the constraint on the runs.\<close>

lemma retry_race:
  assumes "uuid_of_string run_id = Some uid" and "get_run uid s = Some r" and "terminal (r_status r)"
    and "find_retry uid (client_key header query) snap = None"
    and "find_retry uid (client_key header query) s = Some e"
  shows "api_retry_run fresh now run_id header query snap s = (Inl Unhandled, s)"
proof -
  have "r_id r = uid" using assms(2) by (rule run_store.get_key)
  moreover have "e \<in> set (runs s)" "r_source_run e = Some uid" "r_retry_key e = Some (client_key header query)"
    using assms(5) by (auto simp: find_retry_def find_Some_iff)
  ultimately have "list_ex (same_retry (api_retry_row fresh (client_key header query) now r)) (runs s)"
    by (auto simp: list_ex_iff same_retry_def api_retry_row_def intro!: bexI [of _ e])
  then show ?thesis using assms by (simp add: api_retry_run_def add_run_def Let_def)
qed

section \<open>Decisions\<close>

lemma decide_result:
  assumes "ap_decide now i d w s = (Inr a, s')"
  shows "uuid_of_string i = Some (a_id a) \<and> status_of (a_id a) s = Some A_PENDING \<and>
    status_of (a_id a) s' = Some (a_status a) \<and> a_decision a = Some d \<and>
    a_status a = (if d = ''approve'' then A_APPROVED else A_REJECTED)"
  using assms
  by (auto simp: ap_decide_def status_of_upd set_decision_def decided_status_def approval_store.get_key
      status_of_Some approval_store.get_upd split: option.splits if_splits)

lemma decide_error:
  assumes "ap_decide now i d w s = (Inl e, s')"
  shows "decision_error e \<noteq> Unhandled \<and> (decision_error e = Http 410 \<longrightarrow> s' = s \<or>
    (\<exists>u. status_of u s = Some A_PENDING \<and> s' = upd_approval u (\<lambda>a. a\<lparr>a_status := A_EXPIRED\<rparr>) s))"
proof (cases "e = ApprovalExpired")
  case True
  then obtain u where "status_of u s = Some A_PENDING" "s' = upd_approval u (\<lambda>a. a\<lparr>a_status := A_EXPIRED\<rparr>) s"
    using assms by (auto simp: ap_decide_def status_of_Some split: option.splits if_splits)
  then show ?thesis using True by auto
qed (use assms in \<open>auto simp: ap_decide_def split: option.splits if_splits\<close>)

text \<open>
  The decision endpoint answers every request with a result or an HTTP error, and decides in
  one transaction. Over rows the service produced no exception escapes; a result means that the
  approval named in the path was PENDING and now has the decided status; after an error the
  database is unchanged, except that the answer 410 keeps the mark EXPIRED on the approval.
\<close>

theorem decision_endpoint:
  assumes "wake_inv s" and "api_decide_approval now path body d w s = (res, s')"
  shows "case res of
      Inr (i, st, dec) \<Rightarrow> uuid_of_string path = Some i \<and> body = path \<and> dec = Some d \<and>
        st = (if d = ''approve'' then A_APPROVED else A_REJECTED) \<and>
        status_of i s = Some A_PENDING \<and> status_of i s' = Some st
    | Inl e \<Rightarrow> e \<noteq> Unhandled \<and>
        (s' = s \<or> e = Http 410 \<and>
          (\<exists>i. status_of i s = Some A_PENDING \<and> s' = upd_approval i (\<lambda>a. a\<lparr>a_status := A_EXPIRED\<rparr>) s))"
proof (cases "body = path")
  case False
  then show ?thesis using assms(2) by (auto simp: api_decide_approval_def)
next
  case True
  show ?thesis
  proof (cases "ap_decide now path d w s")
    case (Pair r s1)
    show ?thesis
    proof (cases r)
      case (Inl e)
      then show ?thesis
        using assms(2) True Pair
        by (auto simp: api_decide_approval_def decide_with_continuation_def dest: decide_error)
    next
      case (Inr a)
      have i: "uuid_of_string path = Some (a_id a)" "status_of (a_id a) s = Some A_PENDING"
          "status_of (a_id a) s1 = Some (a_status a)"
          "a_status a = (if d = ''approve'' then A_APPROVED else A_REJECTED)" "a_decision a = Some d"
        using decide_result [OF Pair [unfolded Inr]] by auto
      obtain r2 s2 where c: "ap_continue now d a s1 = (r2, s2)" by fastforce
      have "r2 \<noteq> Inl IntegrityError" using decide_no_integrity [OF assms(1) Pair [unfolded Inr]] c by auto
      then have "r2 = Inr a" using c by (auto simp: ap_continue_def Let_def split: option.splits if_splits)
      moreover have "status_of (a_id a) s2 = status_of (a_id a) s1" by (rule continue_status [OF c])
      ultimately show ?thesis
        using assms(2) True Pair Inr c i by (auto simp: api_decide_approval_def decide_with_continuation_def)
    qed
  qed
qed

theorem decision_endpoint_witness:
  "\<exists>s'. api_decide_approval 50 (uuid_str 7) (uuid_str 7) ''approve'' None sample_db =
       (Inr (7, A_APPROVED, Some ''approve''), s') \<and> status_of 7 s' = Some A_APPROVED"
proof -
  obtain s' where c: "api_decide_approval 50 (uuid_str 7) (uuid_str 7) ''approve'' None sample_db =
       (Inr (7, A_APPROVED, Some ''approve''), s')"
    by (simp add: api_decide_approval_def service_defs sample_get sample_approval_def resolve_user_def
        expired_def add_outbox_eq table_simps new_run_def new_outbox_def set_decision_def
        decided_status_def Let_def)
  show ?thesis using decision_endpoint [OF sample_invs(2) c] c by auto
qed

text \<open>
  The endpoint of the memory decisions cannot promote a candidate: \<open>approve\<close> goes to
  \<open>mark_active\<close>, which leaves a CANDIDATE alone, and answers with success.
\<close>

lemma decide_memory_keeps_candidate:
  assumes "uuid_of_string i = Some u" and "get_memory u s = Some m" and "m_status m = M_CANDIDATE"
  shows "\<exists>s'. api_decide_memory i (PStr ''approve'') s = (Inr ''approve'', s') \<and> get_memory u s' = Some m"
  using assms by (auto simp: api_decide_memory_def mark_active_def)

text \<open>The default status of the listing is not the name of any status, so it lists nothing.\<close>

lemma default_listing_empty: "api_list_memory redact now None None limit s = []"
  by (simp add: api_list_memory_def list_status_def all_statuses_def)

end
