(* ===== verification/Scheduler.thy ===== *)
theory Scheduler
  imports Events Queue Memory
begin

text \<open>
  The scheduler: \<open>apps/scheduler/scheduler.py\<close>. The outbox publisher, the recovery of stuck runs,
  the creation of tasks for due sources. \<open>now\<close> is the reading of the clock in a step; the answers of
  Redis and the fresh identifiers are parameters.
\<close>

section \<open>The outbox publisher\<close>

definition due :: "time \<Rightarrow> outbox_message \<Rightarrow> bool" where
  "due now m \<longleftrightarrow> (case o_not_before m of None \<Rightarrow> True | Some d \<Rightarrow> utc_of d \<le> now)"

definition mark_published :: "time \<Rightarrow> string \<Rightarrow> outbox_message \<Rightarrow> outbox_message" where
  "mark_published now sid m =
     m\<lparr>o_processed := True, o_processed_at := Some now, o_stream_id := Some sid,
       o_attempts := o_attempts m + 1\<rparr>"

definition mark_failed :: "string \<Rightarrow> outbox_message \<Rightarrow> outbox_message" where
  "mark_failed err m = m\<lparr>o_attempts := o_attempts m + 1, o_last_error := Some err\<rparr>"

definition publish_one ::
  "time \<Rightarrow> (outbox_message \<Rightarrow> string + string) \<Rightarrow> outbox_message \<Rightarrow> nat \<times> db \<Rightarrow> nat \<times> db" where
  "publish_one now xadd m ns =
     (if o_attempts m > 10 then ns
      else if \<not> due now m then ns
      else (case xadd m of
              Inr sid \<Rightarrow> (fst ns + 1, upd_outbox (o_key m) (mark_published now sid) (snd ns))
            | Inl err \<Rightarrow> (fst ns, upd_outbox (o_key m) (mark_failed err) (snd ns))))"

definition outbox_window :: "db \<Rightarrow> outbox_message list" where
  "outbox_window s = take 20 (sort_key o_created (filter (\<lambda>m. \<not> o_processed m) (outbox s)))"

definition publish_outbox :: "time \<Rightarrow> (outbox_message \<Rightarrow> string + string) \<Rightarrow> db \<Rightarrow> nat \<times> db" where
  "publish_outbox now xadd s = fold (publish_one now xadd) (outbox_window s) (0, s)"

section \<open>Stuck runs\<close>

definition stuck_threshold :: time where "stuck_threshold = seconds (15 * 60)"

text \<open>\<open>heartbeat_at or updated_at\<close> is too old, or the lease is over.\<close>

definition stuck :: "time \<Rightarrow> run \<Rightarrow> bool" where
  "stuck now r \<longleftrightarrow>
     utc_of (case r_heartbeat r of Some h \<Rightarrow> h | None \<Rightarrow> r_updated r) < now - stuck_threshold \<or>
     (case r_lease r of None \<Rightarrow> False | Some l \<Rightarrow> utc_of l < now)"

definition fail_stuck :: "time \<Rightarrow> run \<Rightarrow> run" where
  "fail_stuck now r =
     r\<lparr>r_status := FAILED, r_error := Some ''stuck_run_recovered'', r_finished := Some (Aware now),
       r_heartbeat := Some (Aware now)\<rparr>"

definition backoff_seconds :: "int \<Rightarrow> int" where
  "backoff_seconds retry = 30 * 2 ^ nat (retry - 1)"

definition retry_run :: "uuid \<Rightarrow> time \<Rightarrow> run \<Rightarrow> int \<Rightarrow> run" where
  "retry_run fresh now r retry =
     (new_run fresh (r_task r) (r_token_budget r) (r_cost_budget r) now)\<lparr>r_retry_count := retry\<rparr>"

definition retry_key :: "uuid \<Rightarrow> uuid \<Rightarrow> string" where
  "retry_key old new_id = ''retry:'' @ uuid_str old @ '':'' @ uuid_str new_id"

definition retry_message :: "time \<Rightarrow> run \<Rightarrow> run \<Rightarrow> int \<Rightarrow> outbox_message" where
  "retry_message now old nr retry =
     (new_outbox ''lumi.run_queued''
        [(''run_id'', PStr (uuid_str (r_id nr))), (''task_id'', PStr (uuid_str (r_task nr))),
         (''retry_of'', PStr (uuid_str (r_id old)))]
        (retry_key (r_id old) (r_id nr)) now)
     \<lparr>o_not_before := Some (Aware (now + seconds (backoff_seconds retry)))\<rparr>"

definition worker_val :: "run \<Rightarrow> pyval" where
  "worker_val r = (case r_worker r of None \<Rightarrow> PNone | Some w \<Rightarrow> PStr w)"

text \<open>\<open>None\<close>: an exception, which rolls the whole sweep back.\<close>

definition append_now :: "string \<Rightarrow> uuid \<Rightarrow> string \<Rightarrow> pydict \<Rightarrow> db \<Rightarrow> db option" where
  "append_now d rid et p s =
     (case append_run_event_in_session d rid et p s s of Inl _ \<Rightarrow> None | Inr (e, s') \<Rightarrow> Some s')"

definition requeue :: "string \<Rightarrow> time \<Rightarrow> uuid \<Rightarrow> run \<Rightarrow> int \<Rightarrow> db \<Rightarrow> db option" where
  "requeue d now fresh r retry s =
     (let nr = retry_run fresh now r retry in
      case add_run nr s of
        None \<Rightarrow> None
      | Some s1 \<Rightarrow>
          (case add_outbox (retry_message now r nr retry) s1 of
             None \<Rightarrow> None
           | Some s2 \<Rightarrow>
               append_now d fresh ''RETRY_QUEUED''
                 [(''from_run'', PStr (uuid_str (r_id r))), (''backoff_sec'', PInt (backoff_seconds retry))] s2))"

text \<open>
  One stuck run. The failure of the publication to the dead letter stream is logged only, so it does
  not appear in the rows.
\<close>

definition recover_one :: "string \<Rightarrow> time \<Rightarrow> uuid \<Rightarrow> run \<Rightarrow> db \<Rightarrow> db option" where
  "recover_one d now fresh r s =
     (let retry = r_retry_count r + 1 in
      case append_now d (r_id r) ''STUCK_RECOVERED''
             [(''reason'', PStr ''lease_expired''), (''worker_id'', worker_val r)]
             (upd_run now (r_id r) (fail_stuck now) s) of
        None \<Rightarrow> None
      | Some s1 \<Rightarrow>
          (let s2 = upd_run now (r_id r) (\<lambda>r. r\<lparr>r_retry_count := retry\<rparr>) s1 in
           if retry > 3 then append_now d (r_id r) ''DLQ'' [(''retry_count'', PInt retry)] s2
           else requeue d now fresh r retry s2))"

fun recover_all :: "string \<Rightarrow> time \<Rightarrow> (nat \<Rightarrow> uuid) \<Rightarrow> nat \<Rightarrow> run list \<Rightarrow> db \<Rightarrow> (nat \<times> db) option" where
  "recover_all d now fresh n [] s = Some (n, s)"
| "recover_all d now fresh n (r # rs) s =
     (if \<not> stuck now r then recover_all d now fresh n rs s
      else (case recover_one d now (fresh n) r s of
              None \<Rightarrow> None
            | Some s' \<Rightarrow> recover_all d now fresh (Suc n) rs s'))"

definition recover_stuck_runs ::
  "string \<Rightarrow> time \<Rightarrow> (nat \<Rightarrow> uuid) \<Rightarrow> db \<Rightarrow> (nat \<times> db) option" where
  "recover_stuck_runs d now fresh s =
     recover_all d now fresh 0 (filter (\<lambda>r. r_status r = EXECUTING) (runs s)) s"

text \<open>The runs that are handed to the dead letter stream.\<close>

definition dead_letters :: "time \<Rightarrow> db \<Rightarrow> run list" where
  "dead_letters now s =
     filter (\<lambda>r. stuck now r \<and> r_retry_count r + 1 > 3)
       (filter (\<lambda>r. r_status r = EXECUTING) (runs s))"

section \<open>Due sources\<close>

text \<open>\<open>hour\<close> renders the hour of a time stamp (\<open>strftime\<close>).\<close>

definition stale_source :: "time \<Rightarrow> source \<Rightarrow> bool" where
  "stale_source now src \<longleftrightarrow>
     (case s_last_accessed src of None \<Rightarrow> True | Some t \<Rightarrow> now - utc_of t > seconds 3600)"

definition backed_off :: "time \<Rightarrow> source \<Rightarrow> bool" where
  "backed_off now src \<longleftrightarrow> (case s_backoff src of None \<Rightarrow> False | Some t \<Rightarrow> utc_of t > now)"

definition source_key :: "(time \<Rightarrow> string) \<Rightarrow> time \<Rightarrow> source \<Rightarrow> string" where
  "source_key hour now src = ''source:'' @ uuid_str (s_id src) @ '':'' @ hour now"

definition source_task :: "(time \<Rightarrow> string) \<Rightarrow> (source \<Rightarrow> string \<times> string) \<Rightarrow> uuid \<Rightarrow> time \<Rightarrow> source \<Rightarrow> task" where
  "source_task hour wording fresh now src =
     \<lparr>t_id = fresh, t_title = fst (wording src), t_prompt = snd (wording src),
      t_scope = [(''source_id'', PStr (uuid_str (s_id src))), (''source_type'', PStr (s_type src))],
      t_budget = [(''max_iterations'', PInt 10)], t_key = Some (source_key hour now src)\<rparr>"

definition touch_source :: "time \<Rightarrow> uuid \<Rightarrow> db \<Rightarrow> db" where
  "touch_source now i s = s\<lparr>sources := tupd s_id i (\<lambda>x. x\<lparr>s_last_accessed := Some (Aware now)\<rparr>) (sources s)\<rparr>"

definition create_source_run ::
  "string \<Rightarrow> int \<Rightarrow> rat \<Rightarrow> (time \<Rightarrow> string) \<Rightarrow> (source \<Rightarrow> string \<times> string) \<Rightarrow> uuid \<Rightarrow> uuid \<Rightarrow> time \<Rightarrow> source \<Rightarrow>
   db \<Rightarrow> db option" where
  "create_source_run d tokens cost hour wording ft fr now src s =
     (case add_task (source_task hour wording ft now src) s of
        None \<Rightarrow> None
      | Some s1 \<Rightarrow>
          (case add_run (new_run fr ft tokens cost now) s1 of
             None \<Rightarrow> None
           | Some s2 \<Rightarrow>
               (case add_outbox (new_outbox ''lumi.run_queued''
                        [(''run_id'', PStr (uuid_str fr)), (''task_id'', PStr (uuid_str ft)),
                         (''source_id'', PStr (uuid_str (s_id src)))] (''run:'' @ uuid_str fr) now) s2 of
                  None \<Rightarrow> None
                | Some s3 \<Rightarrow>
                    map_option (touch_source now (s_id src))
                      (append_now d fr ''QUEUED'' [(''source_id'', PStr (uuid_str (s_id src)))] s3))))"

definition check_source ::
  "string \<Rightarrow> int \<Rightarrow> rat \<Rightarrow> (time \<Rightarrow> string) \<Rightarrow> (source \<Rightarrow> string \<times> string) \<Rightarrow> uuid \<Rightarrow> uuid \<Rightarrow> time \<Rightarrow> source \<Rightarrow>
   db \<Rightarrow> db option" where
  "check_source d tokens cost hour wording ft fr now src s =
     (if backed_off now src then Some s
      else if \<not> stale_source now src then Some s
      else if list_ex (\<lambda>t. t_key t = Some (source_key hour now src)) (tasks s)
      then Some (touch_source now (s_id src) s)
      else create_source_run d tokens cost hour wording ft fr now src s)"

fun check_each ::
  "string \<Rightarrow> int \<Rightarrow> rat \<Rightarrow> (time \<Rightarrow> string) \<Rightarrow> (source \<Rightarrow> string \<times> string) \<Rightarrow> (nat \<Rightarrow> uuid \<times> uuid) \<Rightarrow> time \<Rightarrow>
   nat \<Rightarrow> source list \<Rightarrow> db \<Rightarrow> db option" where
  "check_each d tokens cost hour wording fresh now n [] s = Some s"
| "check_each d tokens cost hour wording fresh now n (src # srcs) s =
     (case check_source d tokens cost hour wording (fst (fresh n)) (snd (fresh n)) now src s of
        None \<Rightarrow> None
      | Some s' \<Rightarrow> check_each d tokens cost hour wording fresh now (Suc n) srcs s')"

text \<open>The part of \<open>check_sources\<close> after the publisher, the recovery and the promotion.\<close>

definition scan_sources ::
  "string \<Rightarrow> int \<Rightarrow> rat \<Rightarrow> (time \<Rightarrow> string) \<Rightarrow> (source \<Rightarrow> string \<times> string) \<Rightarrow> (nat \<Rightarrow> uuid \<times> uuid) \<Rightarrow> time \<Rightarrow>
   db \<Rightarrow> (nat \<times> db) option" where
  "scan_sources d tokens cost hour wording fresh now s =
     (let enabled = filter s_enabled (sources s) in
      map_option (\<lambda>s'. (length enabled, s')) (check_each d tokens cost hour wording fresh now 0 enabled s))"

text \<open>
  One round of the scheduler. An exception in the recovery ends the round; one in the promotion is
  logged; the rows committed before stay.
\<close>

definition check_sources ::
  "string \<Rightarrow> rat \<Rightarrow> int \<Rightarrow> rat \<Rightarrow> (time \<Rightarrow> string) \<Rightarrow> (source \<Rightarrow> string \<times> string) \<Rightarrow>
   (outbox_message \<Rightarrow> string + string) \<Rightarrow> (nat \<Rightarrow> uuid) \<Rightarrow> (nat \<Rightarrow> uuid \<times> uuid) \<Rightarrow> time \<Rightarrow> db \<Rightarrow>
   (nat option) \<times> db" where
  "check_sources d thr tokens cost hour wording xadd fresh fresh2 now s =
     (let s1 = snd (publish_outbox now xadd s) in
      case recover_stuck_runs d now fresh s1 of
        None \<Rightarrow> (None, s1)
      | Some (n, s2) \<Rightarrow>
          (let s3 = snd (auto_promote_candidates now thr 2 s2) in
           case scan_sources d tokens cost hour wording fresh2 now s3 of
             None \<Rightarrow> (None, s3)
           | Some (k, s4) \<Rightarrow> (Some k, s4)))"

section \<open>What one pass of the publisher does\<close>

definition eligible :: "time \<Rightarrow> outbox_message \<Rightarrow> bool" where
  "eligible now m \<longleftrightarrow> o_attempts m \<le> 10 \<and> due now m"

definition effect :: "time \<Rightarrow> (outbox_message \<Rightarrow> string + string) \<Rightarrow> outbox_message \<Rightarrow> outbox_message \<Rightarrow> outbox_message" where
  "effect now xadd w m =
     (if eligible now w
      then (case xadd w of Inr sid \<Rightarrow> mark_published now sid m | Inl err \<Rightarrow> mark_failed err m)
      else m)"

definition sent :: "time \<Rightarrow> (outbox_message \<Rightarrow> string + string) \<Rightarrow> outbox_message \<Rightarrow> bool" where
  "sent now xadd m \<longleftrightarrow> eligible now m \<and> (case xadd m of Inr _ \<Rightarrow> True | Inl _ \<Rightarrow> False)"

lemma effect_key [simp]: "o_key (effect now xadd w m) = o_key m"
  by (simp add: effect_def mark_published_def mark_failed_def split: sum.split)

lemma outbox_same [simp]: "s\<lparr>outbox := outbox s\<rparr> = s"
  by simp

lemma publish_one_eq:
  "publish_one now xadd w (n, s) =
     (n + (if sent now xadd w then 1 else 0),
      s\<lparr>outbox := map (\<lambda>m. if o_key m = o_key w then effect now xadd w m else m) (outbox s)\<rparr>)"
proof (cases "eligible now w")
  case True
  then show ?thesis
    by (auto simp: publish_one_def eligible_def sent_def effect_def upd_defs tupd_def split: sum.split)
next
  case False
  then have "(\<lambda>m. if o_key m = o_key w then effect now xadd w m else m) = (\<lambda>m. m)"
    by (auto simp: effect_def)
  with False show ?thesis by (auto simp: publish_one_def eligible_def sent_def)
qed

lemma publish_fold:
  "fold (publish_one now xadd) ws (n, s) =
     (n + length (filter (sent now xadd) ws),
      s\<lparr>outbox := map (fold (\<lambda>w m. if o_key m = o_key w then effect now xadd w m else m) ws) (outbox s)\<rparr>)"
proof (induction ws arbitrary: n s)
  case Nil
  then show ?case by (simp add: id_def [symmetric])
next
  case (Cons w ws)
  then show ?case by (simp add: publish_one_eq comp_def)
qed

lemma fold_effect_absent:
  "o_key m \<notin> o_key ` set ws \<Longrightarrow>
   fold (\<lambda>w m. if o_key m = o_key w then effect now xadd w m else m) ws m = m"
  by (induction ws) auto

lemma fold_effect:
  assumes "distinct (map o_key ws)"
  shows "m \<in> set ws \<Longrightarrow>
    fold (\<lambda>w m. if o_key m = o_key w then effect now xadd w m else m) ws m = effect now xadd m m"
  using assms
proof (induction ws)
  case (Cons w ws)
  show ?case
  proof (cases "m = w")
    case True
    then show ?thesis using Cons.prems by (simp add: fold_effect_absent)
  next
    case False
    then have "m \<in> set ws" "o_key w \<notin> o_key ` set ws" using Cons.prems by auto
    then have "o_key m \<noteq> o_key w" by (metis imageI)
    then show ?thesis using Cons False by simp
  qed
qed simp

lemma window_subset: "set (outbox_window s) \<subseteq> {m \<in> set (outbox s). \<not> o_processed m}"
  by (auto simp: outbox_window_def dest: in_set_takeD)

lemma sort_key_distinct: "distinct (map f xs) \<Longrightarrow> distinct (map f (sort_key g xs))"
  by (simp add: distinct_map)

lemma window_distinct: "distinct (map o_key (outbox s)) \<Longrightarrow> distinct (map o_key (outbox_window s))"
  unfolding outbox_window_def
  by (simp add: take_map [symmetric] distinct_take sort_key_distinct distinct_map_filter)

text \<open>
  C10: the publisher is exact. With unique keys, one pass changes precisely those messages among the
  20 oldest unprocessed ones that are due and have at most 10 attempts: a message whose publication
  succeeded becomes processed with its stream id, one whose publication failed keeps waiting with
  one more attempt and the error; nothing else in the database changes, and the result is the number
  of messages published.
\<close>

theorem publish_outbox_exact:
  assumes "distinct (map o_key (outbox s))"
  shows "publish_outbox now xadd s =
    (length (filter (sent now xadd) (outbox_window s)),
     s\<lparr>outbox := map (\<lambda>m.
         if m \<in> set (outbox_window s) \<and> o_attempts m \<le> 10 \<and> due now m
         then (case xadd m of
                 Inr sid \<Rightarrow> m\<lparr>o_processed := True, o_processed_at := Some now, o_stream_id := Some sid,
                              o_attempts := o_attempts m + 1\<rparr>
               | Inl err \<Rightarrow> m\<lparr>o_attempts := o_attempts m + 1, o_last_error := Some err\<rparr>)
         else m) (outbox s)\<rparr>)"
proof -
  have "fold (\<lambda>w m. if o_key m = o_key w then effect now xadd w m else m) (outbox_window s) m =
      (if m \<in> set (outbox_window s) \<and> o_attempts m \<le> 10 \<and> due now m
       then (case xadd m of Inr sid \<Rightarrow> mark_published now sid m | Inl err \<Rightarrow> mark_failed err m)
       else m)" if m: "m \<in> set (outbox s)" for m
  proof (cases "m \<in> set (outbox_window s)")
    case True
    then show ?thesis
      using fold_effect [OF window_distinct [OF assms] True, of now xadd]
      by (simp add: effect_def eligible_def)
  next
    case False
    then have "o_key m \<notin> o_key ` set (outbox_window s)"
      using m window_subset [of s] assms by (auto simp: distinct_map inj_on_def)
    then show ?thesis using False by (simp add: fold_effect_absent)
  qed
  then show ?thesis
    unfolding mark_published_def mark_failed_def by (simp add: publish_outbox_def publish_fold)
qed

theorem publish_outbox_exact_witness:
  "publish_outbox 5 (\<lambda>_. Inr ''1-0'') (empty_db\<lparr>outbox := [new_outbox ''t'' [] ''k'' 1]\<rparr>) =
     (1, empty_db\<lparr>outbox := [mark_published 5 ''1-0'' (new_outbox ''t'' [] ''k'' 1)]\<rparr>)"
  using publish_outbox_exact [of "empty_db\<lparr>outbox := [new_outbox ''t'' [] ''k'' 1]\<rparr>" 5 "\<lambda>_. Inr ''1-0''"]
  by (simp add: outbox_window_def new_outbox_def sent_def eligible_def due_def mark_published_def)

text \<open>
  Messages that used up their attempts are never removed from the window: once the 20 oldest
  unprocessed messages have, the publisher does nothing for ever, whatever waits behind them.
\<close>

lemma outbox_starvation:
  assumes "list_all (\<lambda>m. o_attempts m > 10) (outbox_window s)"
  shows "fold (\<lambda>(now, xadd) s. snd (publish_outbox now xadd s)) rounds s = s"
proof -
  have one: "publish_outbox now xadd s = (0, s)" for now xadd
  proof -
    have "fold (publish_one now xadd) ws (0, s) = (0, s)" if "list_all (\<lambda>m. o_attempts m > 10) ws" for ws
      using that by (induction ws) (auto simp: publish_one_def)
    then show ?thesis using assms by (simp add: publish_outbox_def)
  qed
  then show ?thesis by (induction rounds) (auto simp: one)
qed

definition dead_message :: "nat \<Rightarrow> outbox_message" where
  "dead_message i = (new_outbox ''t'' [] (nat_str i) (int i))\<lparr>o_attempts := 11\<rparr>"

definition starved_db :: db where
  "starved_db = empty_db\<lparr>outbox := map dead_message [0..<20] @ [new_outbox ''t'' [] ''new'' 100]\<rparr>"

lemma starved_new_message:
  "list_all (\<lambda>m. o_attempts m > 10) (outbox_window starved_db) \<and>
   eligible 200 (new_outbox ''t'' [] ''new'' 100) \<and>
   new_outbox ''t'' [] ''new'' 100 \<in> set (outbox starved_db)"
  by code_simp

section \<open>What the recovery does\<close>

lemma get_run_frame: "runs s' = runs s \<Longrightarrow> get_run j s' = get_run j s"
  by (simp add: get_defs)

lemma append_now_frame:
  "append_now d rid et p s = Some s' \<Longrightarrow> runs s' = runs s \<and> outbox s' = outbox s"
  by (auto simp: append_now_def split: sum.splits)

lemma add_run_frame:
  "add_run r s = Some s' \<Longrightarrow>
   get_run (r_id r) s = None \<and> (\<forall>j. get_run j s' = (if j = r_id r then Some r else get_run j s)) \<and>
   outbox s' = outbox s"
proof -
  assume h: "add_run r s = Some s'"
  then have "get_run (r_id r) s = None" using run_store.add_dup [of r s] by force
  moreover have "outbox s' = outbox s" using h by (auto simp: add_run_def split: if_splits)
  ultimately show ?thesis using run_store.get_add [OF h] by simp
qed

definition recovered :: "time \<Rightarrow> run \<Rightarrow> run" where
  "recovered now r =
     (fail_stuck now r)\<lparr>r_retry_count := r_retry_count r + 1, r_updated := Aware now\<rparr>"

lemma fail_stuck_id [simp]: "r_id (fail_stuck now r) = r_id r"
  by (simp add: fail_stuck_def)

text \<open>A run a recovery adds: queued, with a bounded retry count, and a delayed message for it.\<close>

definition fresh_retry :: "time \<Rightarrow> db \<Rightarrow> run \<Rightarrow> bool" where
  "fresh_retry now s r \<longleftrightarrow>
     r_status r = QUEUED \<and> r_retry_count r \<le> 3 \<and>
     (\<exists>m \<in> set (outbox s). \<not> o_processed m \<and> map_of (o_payload m) ''run_id'' = Some (PStr (uuid_str (r_id r))) \<and>
        o_not_before m = Some (Aware (now + seconds (backoff_seconds (r_retry_count r)))))"

lemma fresh_retry_mono:
  "fresh_retry now s r \<Longrightarrow> set (outbox s) \<subseteq> set (outbox s') \<Longrightarrow> fresh_retry now s' r"
  by (auto simp: fresh_retry_def)

text \<open>What happened to the run with a number: nothing, or it was added for a retry.\<close>

definition kept_or_new :: "time \<Rightarrow> db \<Rightarrow> db \<Rightarrow> uuid \<Rightarrow> bool" where
  "kept_or_new now s s' j \<longleftrightarrow> get_run j s' = get_run j s \<or>
     get_run j s = None \<and> (\<exists>nr. get_run j s' = Some nr \<and> fresh_retry now s' nr)"

lemma kept_or_new_present: "kept_or_new now s s' j \<Longrightarrow> get_run j s = Some r \<Longrightarrow> get_run j s' = Some r"
  by (auto simp: kept_or_new_def)

lemma kept_or_new_trans:
  "kept_or_new now s s1 j \<Longrightarrow> kept_or_new now s1 s' j \<Longrightarrow> set (outbox s1) \<subseteq> set (outbox s') \<Longrightarrow> kept_or_new now s s' j"
  unfolding kept_or_new_def using fresh_retry_mono [of now s1 _ s'] by auto

lemma outbox_add: "add_outbox m s = Some s' \<Longrightarrow> outbox s' = outbox s @ [m] \<and> runs s' = runs s"
  by (auto simp: add_outbox_eq put_defs split: if_splits)

lemma requeue_frame:
  assumes "requeue d now fresh r retry s = Some s'" and "retry \<le> 3"
  shows "set (outbox s) \<subseteq> set (outbox s') \<and>
    (\<forall>j. kept_or_new now s s' j)"
proof -
  let ?nr = "retry_run fresh now r retry"
  obtain s1 s2 where s: "add_run ?nr s = Some s1" "add_outbox (retry_message now r ?nr retry) s1 = Some s2"
    "runs s' = runs s2" "outbox s' = outbox s2"
    using assms(1) append_now_frame by (simp add: requeue_def Let_def split: option.splits)
  have ob: "outbox s' = outbox s @ [retry_message now r ?nr retry]"
    using add_run_frame [OF s(1)] outbox_add [OF s(2)] s(4) by simp
  have "fresh_retry now s' ?nr"
    using assms(2) by (auto simp: fresh_retry_def ob retry_message_def retry_run_def new_run_def new_outbox_def)
  moreover have "get_run j s' = (if j = r_id ?nr then Some ?nr else get_run j s)" for j
    using add_run_frame [OF s(1)] outbox_add [OF s(2)] s(3) by (simp add: get_run_def)
  ultimately show ?thesis using add_run_frame [OF s(1)] ob by (auto simp: kept_or_new_def)
qed

lemma recover_one_frame:
  assumes "recover_one d now fresh r s = Some s'" and "get_run (r_id r) s = Some r"
  shows "get_run (r_id r) s' = Some (recovered now r) \<and> set (outbox s) \<subseteq> set (outbox s') \<and>
    (\<forall>j. j \<noteq> r_id r \<longrightarrow> kept_or_new now s s' j)"
proof -
  let ?retry = "r_retry_count r + 1"
  obtain s1 where s1: "append_now d (r_id r) ''STUCK_RECOVERED''
             [(''reason'', PStr ''lease_expired''), (''worker_id'', worker_val r)]
             (upd_run now (r_id r) (fail_stuck now) s) = Some s1"
    using assms(1) by (auto simp: recover_one_def Let_def split: option.splits)
  let ?s2 = "upd_run now (r_id r) (\<lambda>r. r\<lparr>r_retry_count := ?retry\<rparr>) s1"
  have "get_run j s1 = get_run j (upd_run now (r_id r) (fail_stuck now) s)" for j
    using append_now_frame [OF s1] by (simp add: get_run_def)
  then have g2: "get_run j ?s2 = (if j = r_id r then Some (recovered now r) else get_run j s)" for j
    using assms(2) by (auto simp: get_upd_run recovered_def fail_stuck_def)
  have o2: "outbox ?s2 = outbox s" using append_now_frame [OF s1] by simp
  show ?thesis
  proof (cases "?retry > 3")
    case True
    then have "append_now d (r_id r) ''DLQ'' [(''retry_count'', PInt ?retry)] ?s2 = Some s'"
      using assms(1) s1 by (simp add: recover_one_def Let_def)
    then have "runs s' = runs ?s2" "outbox s' = outbox ?s2" using append_now_frame by blast+
    then have "get_run j s' = get_run j ?s2" "outbox s' = outbox ?s2" for j by (simp_all add: get_run_def)
    then show ?thesis using g2 o2 by (simp add: kept_or_new_def)
  next
    case False
    then have q: "requeue d now fresh r ?retry ?s2 = Some s'"
      using assms(1) s1 by (simp add: recover_one_def Let_def)
    have f: "set (outbox ?s2) \<subseteq> set (outbox s')"
      "kept_or_new now ?s2 s' j" for j
      using requeue_frame [OF q] False by auto
    have "get_run (r_id r) s' = Some (recovered now r)"
      using kept_or_new_present [OF f(2)] g2 [of "r_id r"] by simp
    moreover have "kept_or_new now s s' j" if "j \<noteq> r_id r" for j
      using f(2) [of j] g2 [of j] that by (simp add: kept_or_new_def)
    ultimately show ?thesis using f(1) o2 by simp
  qed
qed

text \<open>What the sweep has to do with a list of runs.\<close>

definition swept :: "time \<Rightarrow> run list \<Rightarrow> db \<Rightarrow> db \<Rightarrow> bool" where
  "swept now rs s s' \<longleftrightarrow> set (outbox s) \<subseteq> set (outbox s') \<and>
     (\<forall>r \<in> set rs. get_run (r_id r) s' = Some (if stuck now r then recovered now r else r)) \<and>
     (\<forall>j. j \<notin> r_id ` set rs \<longrightarrow> kept_or_new now s s' j)"

lemma swept_skip:
  assumes "swept now rs s s'" and "\<not> stuck now r" and "get_run (r_id r) s = Some r" and "r_id r \<notin> r_id ` set rs"
  shows "swept now (r # rs) s s'"
  using assms kept_or_new_present [of now s s' "r_id r" r] by (simp add: swept_def)

lemma swept_recover:
  assumes one: "get_run (r_id r) s1 = Some (recovered now r)" "set (outbox s) \<subseteq> set (outbox s1)"
      "\<And>j. j \<noteq> r_id r \<Longrightarrow> kept_or_new now s s1 j"
    and "stuck now r" and "swept now rs s1 s'" and "r_id r \<notin> r_id ` set rs"
  shows "swept now (r # rs) s s'"
proof -
  have rest: "kept_or_new now s1 s' (r_id r)" "set (outbox s1) \<subseteq> set (outbox s')"
    using assms(5,6) by (auto simp: swept_def)
  have "kept_or_new now s s' j" if "j \<notin> r_id ` set (r # rs)" for j
    using that assms(5) kept_or_new_trans [OF one(3) _ rest(2)] by (simp add: swept_def)
  then show ?thesis
    using assms(4,5) one(2) rest kept_or_new_present [OF rest(1) one(1)] by (auto simp: swept_def)
qed

lemma recover_all_frame:
  assumes "recover_all d now fresh n rs s = Some (n', s')"
    and "distinct (map r_id rs)" and "\<And>r. r \<in> set rs \<Longrightarrow> get_run (r_id r) s = Some r"
  shows "n' = n + length (filter (stuck now) rs) \<and> swept now rs s s'"
  using assms
proof (induction rs arbitrary: n s)
  case Nil
  then show ?case by (simp add: swept_def kept_or_new_def)
next
  case (Cons r rs)
  have new: "r_id r \<notin> r_id ` set rs" using Cons.prems(2) by simp
  show ?case
  proof (cases "stuck now r")
    case False
    then have "n' = n + length (filter (stuck now) rs) \<and> swept now rs s s'"
      using Cons.prems by (intro Cons.IH) auto
    with False show ?thesis using swept_skip [OF _ False Cons.prems(3) new] by simp
  next
    case True
    then obtain s1 where s1: "recover_one d now (fresh n) r s = Some s1"
      "recover_all d now fresh (Suc n) rs s1 = Some (n', s')"
      using Cons.prems(1) by (auto split: option.splits)
    note one = recover_one_frame [OF s1(1) Cons.prems(3)]
    have "get_run (r_id q) s1 = Some q" if "q \<in> set rs" for q
    proof -
      have "r_id q \<noteq> r_id r" using that new by (metis imageI)
      then show ?thesis using one kept_or_new_present [of now s s1 "r_id q" q] Cons.prems(3) [of q] that by simp
    qed
    then have "n' = Suc n + length (filter (stuck now) rs) \<and> swept now rs s1 s'"
      using s1(2) Cons.prems(2) by (intro Cons.IH) auto
    moreover from this have "swept now (r # rs) s s'" using one by (intro swept_recover [where ?s1.0 = s1] True new) auto
    ultimately show ?thesis using True by simp
  qed
qed

lemma get_run_executing:
  "distinct (map r_id (runs s)) \<Longrightarrow> r \<in> set (runs s) \<Longrightarrow> get_run (r_id r) s = Some r"
  unfolding get_run_def by (rule tget_in_set)


definition stuck_db :: db where
  "stuck_db = empty_db\<lparr>runs := [(new_run 5 1 100 1 0)\<lparr>r_status := EXECUTING, r_lease := Some (Naive 10)\<rparr>]\<rparr>"

lemma stuck_db_recovers:
  "(case recover_stuck_runs ''sqlite'' 20 (\<lambda>_. 9) stuck_db of None \<Rightarrow> False | Some (n, s') \<Rightarrow> n = 1)"
  by code_simp


section \<open>What a scan of the sources does\<close>

definition touched :: "time \<Rightarrow> uuid set \<Rightarrow> source \<Rightarrow> source" where
  "touched now T x = (if s_id x \<in> T then x\<lparr>s_last_accessed := Some (Aware now)\<rparr> else x)"

definition quiet :: "time \<Rightarrow> source \<Rightarrow> bool" where
  "quiet now x \<longleftrightarrow> backed_off now x \<or> \<not> stale_source now x"

lemma touched_simps [simp]:
  "s_id (touched now T x) = s_id x" "s_enabled (touched now T x) = s_enabled x"
  "s_backoff (touched now T x) = s_backoff x"
  by (simp_all add: touched_def)

lemma touched_touched [simp]: "touched now {i} (touched now T x) = touched now (insert i T) x"
  by (simp add: touched_def)

lemma quiet_touched: "s_id x \<in> T \<or> quiet now x \<Longrightarrow> quiet now (touched now T x)"
  by (auto simp: quiet_def touched_def stale_source_def backed_off_def seconds_def)

lemma sources_touch: "sources (touch_source now i s) = map (touched now {i}) (sources s)"
  by (auto simp: touch_source_def tupd_def touched_def)

lemma append_now_sources: "append_now d rid et p s = Some s' \<Longrightarrow> sources s' = sources s"
  by (auto simp: append_now_def append_run_event_in_session_def add_event_def Let_def
      split: sum.splits if_splits option.splits)

lemma create_source_run_sources:
  "create_source_run d tk c h w ft fr now src s = Some s' \<Longrightarrow>
   sources s' = map (touched now {s_id src}) (sources s)"
  by (auto simp: create_source_run_def add_task_def add_run_def add_outbox_eq sources_touch put_defs
      dest!: append_now_sources split: option.splits if_splits)

lemma check_source_sources:
  assumes "check_source d tk c h w ft fr now src s = Some s'"
  shows "sources s' = map (touched now {s_id src}) (sources s) \<or> quiet now src \<and> s' = s"
  using assms create_source_run_sources [of d tk c h w ft fr now src s s']
  by (auto simp: check_source_def quiet_def sources_touch split: if_splits)

lemma check_each_sources:
  "check_each d tk c h w fresh now n srcs s = Some s' \<Longrightarrow>
   \<exists>T. sources s' = map (touched now T) (sources s) \<and> (\<forall>src \<in> set srcs. s_id src \<in> T \<or> quiet now src)"
proof (induction srcs arbitrary: n s)
  case Nil
  have "touched now {} = id" by (auto simp: touched_def)
  with Nil show ?case by (auto intro: exI [of _ "{}"])
next
  case (Cons src srcs)
  obtain s1 where s1: "check_source d tk c h w (fst (fresh n)) (snd (fresh n)) now src s = Some s1"
    "check_each d tk c h w fresh now (Suc n) srcs s1 = Some s'"
    using Cons.prems by (auto split: option.splits)
  obtain T where T: "sources s' = map (touched now T) (sources s1)"
    "\<forall>src \<in> set srcs. s_id src \<in> T \<or> quiet now src"
    using Cons.IH [OF s1(2)] by blast
  have tt: "touched now T (touched now {i} x) = touched now (insert i T) x" for i x
    by (simp add: touched_def)
  show ?case
    using check_source_sources [OF s1(1)]
  proof
    assume "sources s1 = map (touched now {s_id src}) (sources s)"
    then show ?thesis using T by (intro exI [of _ "insert (s_id src) T"]) (auto simp: tt)
  next
    assume "quiet now src \<and> s1 = s"
    then show ?thesis using T by (intro exI [of _ T]) auto
  qed
qed

lemma check_each_quiet:
  "list_all (quiet now) srcs \<Longrightarrow> check_each d tk c h w fresh now n srcs s = Some s"
  by (induction srcs arbitrary: n) (auto simp: check_source_def quiet_def)

text \<open>
  C26: source observation does not repeat itself. After a successful scan every enabled source is
  backed off or was accessed within the hour, so a second scan at the same time, whatever fresh
  identifiers it has, creates no task, run or message and leaves the database as it is.
\<close>

theorem scan_sources_idempotent:
  assumes "scan_sources d tokens cost hour wording fresh now s = Some (k, s')"
  shows "scan_sources d tokens cost hour wording fresh2 now s' = Some (k, s')"
proof -
  let ?en = "filter s_enabled (sources s)"
  obtain T where T: "sources s' = map (touched now T) (sources s)"
    "\<forall>src \<in> set ?en. s_id src \<in> T \<or> quiet now src" and k: "k = length ?en"
    using assms check_each_sources [of d tokens cost hour wording fresh now 0 ?en s s']
    by (auto simp: scan_sources_def Let_def)
  have en: "filter s_enabled (sources s') = map (touched now T) ?en"
    by (simp add: T(1) filter_map comp_def)
  then have "list_all (quiet now) (filter s_enabled (sources s'))"
    using T(2) quiet_touched by (auto simp: list_all_iff)
  then show ?thesis
    using check_each_quiet en k by (simp add: scan_sources_def Let_def)
qed

definition source_db :: db where
  "source_db = empty_db\<lparr>sources := [\<lparr>s_id = 3, s_name = ''repo'', s_type = ''github_repo'', s_enabled = True,
                                     s_last_accessed = None, s_backoff = None\<rparr>]\<rparr>"

lemma source_db_scanned:
  "(case scan_sources ''sqlite'' 100 1 (\<lambda>_. ''h'') (\<lambda>_. ([], [])) (\<lambda>_. (8, 9)) 20 source_db of
      None \<Rightarrow> False | Some (k, s') \<Rightarrow> length (runs s') = 1 \<and> length (outbox s') = 1)"
  by code_simp

theorem scan_sources_idempotent_witness:
  "\<exists>k s'. scan_sources ''sqlite'' 100 1 (\<lambda>_. ''h'') (\<lambda>_. ([], [])) (\<lambda>_. (8, 9)) 20 source_db = Some (k, s') \<and>
     length (runs s') = 1 \<and>
     scan_sources ''sqlite'' 100 1 (\<lambda>_. ''h'') (\<lambda>_. ([], [])) (\<lambda>_. (18, 19)) 20 s' = Some (k, s')"
proof -
  obtain k s' where s: "scan_sources ''sqlite'' 100 1 (\<lambda>_. ''h'') (\<lambda>_. ([], [])) (\<lambda>_. (8, 9)) 20 source_db = Some (k, s')"
    "length (runs s') = 1"
    using source_db_scanned by (auto split: option.splits)
  show ?thesis
    using scan_sources_idempotent [OF s(1), of "\<lambda>_. (18, 19)"] s by blast
qed

end
