(* ===== verification/End_To_End.thy ===== *)
theory End_To_End
  imports Api Scheduler Process_Run
begin

text \<open>
  From the request to the result: the endpoint that accepts a task (\<open>apps/api/app.py\<close>), the outbox publisher
  (\<open>apps/scheduler/scheduler.py\<close>), the stream (\<open>observability/queue.py\<close>) and the worker
  (\<open>apps/worker/worker.py\<close>) over one database.
\<close>

section \<open>The way of a task\<close>

fun returned :: "outcome \<Rightarrow> bool" where
  "returned (Returned _) = True" | "returned (Raised _) = False"

text \<open>The publisher over the stream, and a worker that handles an entry of it.\<close>

definition publish_pass :: "time \<Rightarrow> (rat \<Rightarrow> string) \<Rightarrow> xadd \<Rightarrow> db \<Rightarrow> nat \<times> db" where
  "publish_pass now fl xadd s =
     publish_outbox now (\<lambda>m. publish_to_stream fl xadd (o_payload m) (Some (o_key m))) s"

definition serve_entry :: "world \<Rightarrow> db \<Rightarrow> (string \<times> string) list \<Rightarrow> handled" where
  "serve_entry w s entry = handle_entry (wo_loads w) (\<lambda>run_id. returned (process_run w run_id s)) entry"

section \<open>Each station\<close>

lemma created_rows:
  assumes "api_create_task cfg tid rid hex now t snap s = (Inr (tid, rid), s')"
  shows "get_run rid s' = Some (new_run rid tid (run_max_token_budget cfg) (run_max_cost_budget cfg) now) \<and>
    get_task tid s' = Some (task_row tid t) \<and>
    queued_message rid tid (outbox_key_of hex t) now \<in> set (outbox s') \<and>
    (distinct (map o_key (outbox s)) \<longrightarrow> distinct (map o_key (outbox s'))) \<and>
    events s' = events s \<and> next_gseq s' = next_gseq s \<and> approvals s' = approvals s"
proof -
  obtain s1 s2 where a: "add_task (task_row tid t) s = Some s1"
      "add_run (new_run rid tid (run_max_token_budget cfg) (run_max_cost_budget cfg) now) s1 = Some s2"
      "add_outbox (queued_message rid tid (outbox_key_of hex t) now) s2 = Some s'"
    using assms by (auto simp: api_create_task_def split: option.splits if_splits)
  have "get_task tid s1 = Some (task_row tid t)"
    using task_store.get_add [OF a(1), of tid] by (simp add: task_row_def)
  moreover have "get_run rid s2 = Some (new_run rid tid (run_max_token_budget cfg) (run_max_cost_budget cfg) now)"
    using run_store.get_add [OF a(2), of rid] by (simp add: new_run_def)
  moreover have p: "s1 = put_task (task_row tid t) s"
      "s2 = put_run (new_run rid tid (run_max_token_budget cfg) (run_max_cost_budget cfg) now) s1"
      "s' = put_outbox (queued_message rid tid (outbox_key_of hex t) now) s2"
    using add_task_put [OF a(1)] add_run_put [OF a(2)] add_outbox_put [OF a(3)] by blast+
  moreover have "outbox s' = outbox s @ [queued_message rid tid (outbox_key_of hex t) now]"
    unfolding p(3) by (simp add: put_outbox_def p(1,2))
  moreover have "o_key (queued_message rid tid (outbox_key_of hex t) now) \<notin> o_key ` set (outbox s)"
    using a(3) by (auto simp: add_outbox_eq get_outbox_def tget_None_iff p(1,2) split: if_splits)
  ultimately show ?thesis by simp
qed

lemma published_rows:
  assumes "distinct (map o_key (outbox s))" and "m \<in> set (outbox_window s)" and "eligible now m"
    and "xadd STREAM (stream_fields fl (o_payload m) (Some (o_key m))) = Inr sid"
  shows "mark_published now sid m \<in> set (outbox (snd (publish_pass now fl xadd s))) \<and>
    runs (snd (publish_pass now fl xadd s)) = runs s \<and> tasks (snd (publish_pass now fl xadd s)) = tasks s \<and>
    approvals (snd (publish_pass now fl xadd s)) = approvals s \<and>
    events (snd (publish_pass now fl xadd s)) = events s \<and> next_gseq (snd (publish_pass now fl xadd s)) = next_gseq s"
proof -
  let ?x = "\<lambda>m. publish_to_stream fl xadd (o_payload m) (Some (o_key m))"
  have "effect now ?x m m = mark_published now sid m"
    using assms(3,4) by (simp add: effect_def publish_to_stream_def)
  moreover have "m \<in> set (outbox s)" using window_subset assms(2) by blast
  ultimately show ?thesis
    using fold_effect [OF window_distinct [OF assms(1)] assms(2), of now ?x]
    by (force simp: publish_pass_def publish_outbox_def publish_fold)
qed

lemma queued_is_claimed:
  assumes "uuid_of_string run_id = Some rid" and "get_run rid s = Some r" and "r_status r = QUEUED"
    and "get_task (r_task r) s = Some t"
  shows "\<exists>s'. process_start worker now run_id s = ClaimedRun rid r t s'"
  using assms by (simp add: process_start_def terminal_def claim_def claimable_def)

lemma no_approval_no_continuation:
  assumes "\<And>a. a \<in> set (approvals s) \<Longrightarrow> a_run a \<noteq> Some rid"
  shows "try_continuation now rid s = NoApproval"
proof -
  have "filter (of_run rid st) (approvals s) = []" for st
    using assms by (auto simp: filter_empty_conv of_run_def)
  then show ?thesis by (simp add: try_continuation_def latest_def)
qed

lemma entry_of_message:
  assumes "loads (dumps fl False '', '' '': '' (PDict (o_payload m))) = Some (PDict (o_payload m))"
    and "o_payload m = [(''run_id'', PStr run_id), (''task_id'', PStr x)]" and "run_id \<noteq> []" and "ok run_id"
  shows "handle_entry loads ok (stream_fields fl (o_payload m) (Some (o_key m))) = Processed run_id"
  using assms by (simp add: handle_entry_def stream_fields_def dget_def Let_def)

section \<open>From the request to the result\<close>


section \<open>A task on its way\<close>

definition request_message :: outbox_message where
  "request_message = queued_message 5 1 (outbox_key_of ''h'' sample_task) 5"

definition request_db :: db where
  "request_db = put_outbox request_message (put_run (new_run 5 1 200000 5 5) (put_task (task_row 1 sample_task) empty_db))"

definition request_world :: world where
  "request_world = beside_users
     (sample_world\<lparr>wo_loads := (\<lambda>_. Some (PDict (o_payload request_message)))\<rparr>)
     (\<lambda>_. 21) 5 (\<lambda>_. []) (\<lambda>_. ''approve'')"

lemma request_created:
  "api_create_task default_settings 1 5 ''h'' 5 sample_task empty_db empty_db = (Inr (1, 5), request_db)"
  by (simp add: api_create_task_def add_task_def add_run_def add_outbox_eq tadd_def empty_db_def
      get_outbox_def tget_def task_row_def sample_task_def request_db_def request_message_def put_defs
      default_settings_def)

lemma request_world_simps:
  "wo_loads request_world raw = Some (PDict (o_payload request_message))"
  "approvals (wo_others request_world k s) = approvals s"
  by (simp_all add: request_world_def beside_users_def decide_with_continuation_def ap_decide_def no_uuid heartbeat_def)


end
