(* ===== verification/Seed.thy ===== *)
theory Seed
  imports Memory Config
begin

text \<open>
  The script \<open>scripts/seed_technocore_memory.py\<close>, which stores three documents of the service as memory items.
  \<open>get\<close> is the request for a document, \<open>None\<close> when it fails.
\<close>

section \<open>The script\<close>

definition seed_docs :: "settings \<Rightarrow> (string \<times> string) list" where
  "seed_docs cfg =
     (let base = rstrip_by (\<lambda>c. c = CHR ''/'') (technocore_base_url cfg)
      in [(base @ ''/skill.md'', ''technocore-skill/md''), (base @ ''/llms.txt'', ''technocore-llms''),
          (base @ ''/patterns.md'', ''technocore-patterns'')])"

fun fetch_docs_text :: "(string \<Rightarrow> string option) \<Rightarrow> (string \<times> string) list \<Rightarrow> (string \<times> string) list option" where
  "fetch_docs_text get [] = Some []"
| "fetch_docs_text get ((url, source) # docs) =
     (case get url of
        None \<Rightarrow> None
      | Some txt \<Rightarrow> map_option ((#) (source, txt)) (fetch_docs_text get docs))"

definition find_source :: "string \<Rightarrow> db \<Rightarrow> memory_item option" where
  "find_source source s = find (\<lambda>m. m_source m = source) (memories s)"

definition refresh_doc :: "string \<Rightarrow> memory_item \<Rightarrow> memory_item" where
  "refresh_doc content m =
     m\<lparr>m_content := content, m_category := Some ''technocore'', m_status := M_ACTIVE, m_verification := ''unverified''\<rparr>"

definition seeded_item :: "uuid \<Rightarrow> time \<Rightarrow> string \<Rightarrow> string \<Rightarrow> memory_item" where
  "seeded_item fresh now source content =
     \<lparr>m_id = fresh, m_content = content, m_source = source, m_observed = None, m_confidence = 1, m_ttl = None,
      m_status = M_ACTIVE, m_verification = ''unverified'', m_category = Some ''technocore'', m_expires = None, m_created = now\<rparr>"

definition store_doc :: "time \<Rightarrow> uuid \<Rightarrow> string \<times> string \<Rightarrow> db \<Rightarrow> db option" where
  "store_doc now fresh doc s =
     (case doc of (source, content) \<Rightarrow>
        (case find_source source s of
           Some m \<Rightarrow> Some (upd_memory (m_id m) (refresh_doc content) s)
         | None \<Rightarrow> add_memory (seeded_item fresh now source content) s))"

fun store_docs :: "time \<Rightarrow> (nat \<Rightarrow> uuid) \<Rightarrow> (string \<times> string) list \<Rightarrow> db \<Rightarrow> db option" where
  "store_docs now fresh [] s = Some s"
| "store_docs now fresh (d # ds) s =
     (case store_doc now (fresh (length ds)) d s of None \<Rightarrow> None | Some s' \<Rightarrow> store_docs now fresh ds s')"

text \<open>A failed request ends the script before anything is written; all rows are committed together.\<close>

definition seed :: "(string \<Rightarrow> string option) \<Rightarrow> time \<Rightarrow> (nat \<Rightarrow> uuid) \<Rightarrow> settings \<Rightarrow> db \<Rightarrow> db option" where
  "seed get now fresh cfg s =
     (if \<not> technocore_enabled cfg \<or> technocore_base_url cfg = [] then Some s
      else case fetch_docs_text get (seed_docs cfg) of
             None \<Rightarrow> None
           | Some docs \<Rightarrow> store_docs now fresh docs s)"

section \<open>What it stores\<close>

definition holds_doc :: "string \<times> string \<Rightarrow> db \<Rightarrow> bool" where
  "holds_doc doc s \<longleftrightarrow>
     (case find_source (fst doc) s of None \<Rightarrow> False | Some m \<Rightarrow> refresh_doc (snd doc) m = m)"

abbreviation unique_ids :: "db \<Rightarrow> bool" where
  "unique_ids s \<equiv> distinct (map m_id (memories s))"

lemma find_map_source:
  "(\<And>m. m_source (f m) = m_source m) \<Longrightarrow>
   find (\<lambda>m. m_source m = q) (map (\<lambda>m. if m_id m = i then f m else m) ms) =
   map_option (\<lambda>m. if m_id m = i then f m else m) (find (\<lambda>m. m_source m = q) ms)"
  by (induction ms) auto

lemma find_source_upd:
  "find_source q (upd_memory i (refresh_doc c) s) = map_option (\<lambda>m. if m_id m = i then refresh_doc c m else m) (find_source q s)"
  by (simp add: find_source_def upd_memory_def tupd_def find_map_source refresh_doc_def)

lemma unique_item: "unique_ids s \<Longrightarrow> x \<in> set (memories s) \<Longrightarrow> y \<in> set (memories s) \<Longrightarrow> m_id x = m_id y \<Longrightarrow> x = y"
  by (metis distinct_map inj_onD)

lemma find_source_in: "find_source q s = Some m \<Longrightarrow> m \<in> set (memories s) \<and> m_source m = q"
  by (auto simp: find_source_def find_Some_iff)

lemma find_source_add:
  "add_memory m s = Some s' \<Longrightarrow>
   find_source q s' = (case find_source q s of Some x \<Rightarrow> Some x | None \<Rightarrow> if m_source m = q then Some m else None)"
  by (auto simp: find_source_def add_memory_def tadd_def find_append split: if_splits option.splits)

lemma refresh_idem [simp]: "refresh_doc c (refresh_doc c m) = refresh_doc c m"
  by (simp add: refresh_doc_def)

lemma store_doc_holds:
  assumes "store_doc now fresh doc s = Some s'"
  shows "holds_doc doc s'"
  using assms by (cases doc) (auto simp: store_doc_def holds_doc_def find_source_upd find_source_add
      seeded_item_def refresh_doc_def split: option.splits)

lemma store_doc_unique:
  assumes "store_doc now fresh doc s = Some s'" and "unique_ids s"
  shows "unique_ids s'"
proof -
  have "m_id \<circ> (\<lambda>m. if m_id m = i then refresh_doc c m else m) = m_id" for i c
    by (auto simp: fun_eq_iff refresh_doc_def)
  then show ?thesis
    using assms by (auto simp: store_doc_def add_memory_def tadd_def upd_memory_def tupd_def seeded_item_def
        split: prod.splits option.splits if_splits)
qed

lemma store_doc_keeps:
  assumes "store_doc now fresh doc s = Some s'" and "unique_ids s" and "holds_doc d s" and "fst d \<noteq> fst doc"
  shows "holds_doc d s'"
proof -
  obtain q c where doc: "doc = (q, c)" by (cases doc)
  obtain m where m: "find_source (fst d) s = Some m" "refresh_doc (snd d) m = m"
    using assms(3) by (auto simp: holds_doc_def split: option.splits)
  show ?thesis
  proof (cases "find_source q s")
    case None
    then show ?thesis using assms(1) m by (auto simp: doc store_doc_def holds_doc_def find_source_add)
  next
    case (Some x)
    then have "m_id m \<noteq> m_id x"
      using find_source_in [OF m(1)] find_source_in [OF Some] assms(4) doc unique_item [OF assms(2)] by fastforce
    then show ?thesis using assms(1) m Some by (auto simp: doc store_doc_def holds_doc_def find_source_upd)
  qed
qed

lemma store_doc_again:
  assumes "holds_doc doc s" and "unique_ids s"
  shows "store_doc now fresh doc s = Some s"
proof -
  obtain m where m: "find_source (fst doc) s = Some m" "refresh_doc (snd doc) m = m"
    using assms(1) by (auto simp: holds_doc_def split: option.splits)
  have "(if m_id x = m_id m then refresh_doc (snd doc) x else x) = x" if "x \<in> set (memories s)" for x
    using that find_source_in [OF m(1)] unique_item [OF assms(2)] m(2) by auto
  then have "map (\<lambda>x. if m_id x = m_id m then refresh_doc (snd doc) x else x) (memories s) = memories s" by (simp add: map_idI)
  then show ?thesis using m(1) by (simp add: store_doc_def upd_memory_def tupd_def case_prod_beta)
qed

lemma store_docs_hold:
  assumes "store_docs now fresh ds s = Some s'" and "unique_ids s" and "distinct (map fst ds)"
  shows "unique_ids s' \<and> (\<forall>d \<in> set ds. holds_doc d s') \<and> (\<forall>d. fst d \<notin> fst ` set ds \<longrightarrow> holds_doc d s \<longrightarrow> holds_doc d s')"
  using assms
proof (induction ds arbitrary: s)
  case (Cons d ds)
  then obtain s1 where s1: "store_doc now (fresh (length ds)) d s = Some s1" "store_docs now fresh ds s1 = Some s'"
    by (auto split: option.splits)
  have ih: "unique_ids s' \<and> (\<forall>d \<in> set ds. holds_doc d s') \<and> (\<forall>d. fst d \<notin> fst ` set ds \<longrightarrow> holds_doc d s1 \<longrightarrow> holds_doc d s')"
    using Cons.IH [OF s1(2) store_doc_unique [OF s1(1) Cons.prems(2)]] Cons.prems(3) by simp
  moreover have "holds_doc d s'" using ih store_doc_holds [OF s1(1)] Cons.prems(3) by (cases d) auto
  ultimately show ?case using store_doc_keeps [OF s1(1) Cons.prems(2)] by auto
qed simp

lemma store_docs_again: "list_all (\<lambda>d. holds_doc d s) ds \<Longrightarrow> unique_ids s \<Longrightarrow> store_docs now fresh ds s = Some s"
  by (induction ds) (simp_all add: store_doc_again)

lemma fetched_sources: "fetch_docs_text get docs = Some fs \<Longrightarrow> map fst fs = map snd docs"
  by (induction get docs arbitrary: fs rule: fetch_docs_text.induct) (auto split: option.splits)

lemma seed_sources: "map snd (seed_docs cfg) = [''technocore-skill/md'', ''technocore-llms'', ''technocore-patterns'']"
  by (simp add: seed_docs_def Let_def)

text \<open>
  The script is idempotent: with the same documents a second run leaves every row as it is, whatever
  the time and the identifiers it would use.
\<close>

theorem seed_idempotent:
  assumes "seed get now fresh cfg s = Some s1" and "unique_ids s"
  shows "seed get now' fresh' cfg s1 = Some s1"
proof (cases "\<not> technocore_enabled cfg \<or> technocore_base_url cfg = []")
  case False
  then obtain fs where fs: "fetch_docs_text get (seed_docs cfg) = Some fs" "store_docs now fresh fs s = Some s1"
    using assms(1) by (auto simp: seed_def split: option.splits)
  have "distinct (map fst fs)" unfolding fetched_sources [OF fs(1)] seed_sources by simp
  from store_docs_hold [OF fs(2) assms(2) this] show ?thesis
    using False fs(1) by (auto simp: seed_def list_all_iff intro!: store_docs_again)
qed (use assms in \<open>auto simp: seed_def\<close>)

text \<open>
  The documents are stored as ACTIVE but unverified, and the retrieval for a context asks for verified items
  only: what the script stores never reaches the model.
\<close>

theorem seeded_not_retrieved:
  assumes "seed get now fresh cfg s = Some s1" and "unique_ids s"
    and "technocore_enabled cfg" and "technocore_base_url cfg \<noteq> []" and "source \<in> snd ` set (seed_docs cfg)"
  shows "\<exists>m. find_source source s1 = Some m \<and> m_status m = M_ACTIVE \<and>
     m_id m \<notin> m_id ` set (fst (retrieve_for_context redact t q n s1))"
proof -
  obtain fs where fs: "fetch_docs_text get (seed_docs cfg) = Some fs" "store_docs now fresh fs s = Some s1"
    using assms(1,3,4) by (auto simp: seed_def split: option.splits)
  have "distinct (map fst fs)" unfolding fetched_sources [OF fs(1)] seed_sources by simp
  note stored = store_docs_hold [OF fs(2) assms(2) this]
  have "source \<in> fst ` set fs" using assms(5) fetched_sources [OF fs(1)] by (metis list.set_map)
  then obtain c where "holds_doc (source, c) s1" using stored by force
  then obtain m where m: "find_source source s1 = Some m" "refresh_doc c m = m" by (auto simp: holds_doc_def split: option.splits)
  have un: "m_verification m = ''unverified''" "m_status m = M_ACTIVE"
    by (subst m(2) [symmetric], simp add: refresh_doc_def)+
  have "x = m" if "x \<in> set (memories s1)" "m_id x = m_id m" for x
    using that find_source_in [OF m(1)] unique_item stored by blast
  then have "m_id m \<notin> m_id ` set (fst (retrieve_for_context redact t q n s1))"
    using un by (fastforce simp: retrieve_for_context_def search_def relevant_filter relevant_def Let_def dest!: in_set_takeD)
  with m un show ?thesis by blast
qed

end
