(* ===== verification/Security.thy ===== *)
theory Security
  imports Py_Base
begin

text \<open>
  Redaction of secrets: \<open>packages/observability/security.py\<close>. The regular expressions of the module are
  written as terms and matched as the \<open>re\<close> module does: backtracking, with the alternatives in the
  order of preference, greedy repetition of character classes, word boundaries, groups. The values
  taken from the environment are a list, the state of the module.
\<close>

section \<open>Regular expressions\<close>

text \<open>\<open>Many p lo hi\<close> is the greedy repetition of a class, without an upper bound if \<open>hi\<close> is \<open>None\<close>.\<close>

datatype re =
    Cls "char \<Rightarrow> bool"
  | Many "char \<Rightarrow> bool" nat "nat option"
  | Lit string
  | Cat re re
  | Alt re re
  | Opt re
  | Group nat re
  | WordB

text \<open>\<open>\w\<close> below code point 256.\<close>

definition word_char :: "char \<Rightarrow> bool" where
  "word_char c \<longleftrightarrow>
     (let n = cp c in (48 \<le> n \<and> n \<le> 57) \<or> (65 \<le> n \<and> n \<le> 90) \<or> (97 \<le> n \<and> n \<le> 122) \<or> n = 95 \<or>
       n \<in> {170, 178, 179, 181, 185, 186, 188, 189, 190} \<or> (192 \<le> n \<and> n \<noteq> 215 \<and> n \<noteq> 247))"

definition word_boundary :: "string \<Rightarrow> nat \<Rightarrow> bool" where
  "word_boundary s i \<longleftrightarrow> (0 < i \<and> i \<le> length s \<and> word_char (s ! (i - 1))) \<noteq> (i < length s \<and> word_char (s ! i))"

type_synonym groups = "nat \<rightharpoonup> string"

text \<open>All ways to match from position \<open>i\<close> on, the preferred one first: the end and the groups.\<close>

primrec matches :: "re \<Rightarrow> string \<Rightarrow> nat \<Rightarrow> groups \<Rightarrow> (nat \<times> groups) list" where
  "matches (Cls p) s i g = (if i < length s \<and> p (s ! i) then [(Suc i, g)] else [])"
| "matches (Many p lo hi) s i g =
     (let n = length (takeWhile p (drop i s)); top = (case hi of None \<Rightarrow> n | Some h \<Rightarrow> min n h)
      in map (\<lambda>k. (i + k, g)) (rev [lo..<Suc top]))"
| "matches (Lit w) s i g = (if prefix w (drop i s) then [(i + length w, g)] else [])"
| "matches (Cat a b) s i g = concat (map (\<lambda>(j, g'). matches b s j g') (matches a s i g))"
| "matches (Alt a b) s i g = matches a s i g @ matches b s i g"
| "matches (Opt a) s i g = matches a s i g @ [(i, g)]"
| "matches (Group n a) s i g =
     map (\<lambda>(j, g'). (j, g'(n \<mapsto> take (j - i) (drop i s)))) (matches a s i g)"
| "matches WordB s i g = (if word_boundary s i then [(i, g)] else [])"

text \<open>A replacement is text and references to groups. No pattern here matches the empty text.\<close>

datatype rpart = RText string | RRef nat

definition expand :: "rpart list \<Rightarrow> groups \<Rightarrow> string" where
  "expand t g = concat (map (\<lambda>p. case p of RText w \<Rightarrow> w | RRef n \<Rightarrow> (case g n of None \<Rightarrow> [] | Some w \<Rightarrow> w)) t)"

definition match_at :: "re \<Rightarrow> string \<Rightarrow> nat \<Rightarrow> (nat \<times> groups) option" where
  "match_at r s i = (case matches r s i Map.empty of [] \<Rightarrow> None | (j, g) # _ \<Rightarrow> if i < j then Some (j, g) else None)"

text \<open>\<open>pattern.sub(repl, s)\<close>, from position \<open>i\<close> on.\<close>

function sub_from :: "re \<Rightarrow> rpart list \<Rightarrow> string \<Rightarrow> nat \<Rightarrow> string" where
  "sub_from r t s i =
     (if length s \<le> i then []
      else (case match_at r s i of
              None \<Rightarrow> s ! i # sub_from r t s (Suc i)
            | Some (j, g) \<Rightarrow> expand t g @ sub_from r t s j))"
  by pat_completeness auto
termination
  by (relation "measure (\<lambda>(r, t, s, i). length s - i)")
    (auto simp: match_at_def split: list.splits if_splits)

declare sub_from.simps [simp del]

definition re_sub :: "re \<times> rpart list \<Rightarrow> string \<Rightarrow> string" where
  "re_sub p s = sub_from (fst p) (snd p) s 0"

definition re_search :: "re \<Rightarrow> string \<Rightarrow> bool" where
  "re_search r s \<longleftrightarrow> list_ex (\<lambda>i. matches r s i Map.empty \<noteq> []) [0..<Suc (length s)]"

section \<open>The patterns\<close>

definition chr_in :: "nat \<Rightarrow> nat \<Rightarrow> char \<Rightarrow> bool" where
  "chr_in a b c \<longleftrightarrow> a \<le> cp c \<and> cp c \<le> b"

definition any_case :: "(char \<Rightarrow> bool) \<Rightarrow> char \<Rightarrow> bool" where
  "any_case p c \<longleftrightarrow> p c \<or> p (to_lower c) \<or> p (to_upper c)"

definition one :: "string \<Rightarrow> char \<Rightarrow> bool" where
  "one cs c \<longleftrightarrow> c \<in> set cs"

fun cats :: "re list \<Rightarrow> re" where
  "cats [] = Lit []"
| "cats [r] = r"
| "cats (r # rs) = Cat r (cats rs)"

fun alts :: "re list \<Rightarrow> re" where
  "alts [] = Cls (\<lambda>_. False)"
| "alts [r] = r"
| "alts (r # rs) = Alt r (alts rs)"

text \<open>A literal under \<open>(?i)\<close>.\<close>

definition ilit :: "string \<Rightarrow> re" where
  "ilit w = cats (map (\<lambda>x. Cls (\<lambda>c. to_lower c = to_lower x)) w)"

definition alnum :: "char \<Rightarrow> bool" where
  "alnum c \<longleftrightarrow> chr_in 48 57 c \<or> chr_in 65 90 c \<or> chr_in 97 122 c"

definition token_char :: "char \<Rightarrow> bool" where
  "token_char c \<longleftrightarrow> alnum c \<or> c = CHR ''_'' \<or> c = CHR ''-''"

abbreviation spaces :: re where "spaces \<equiv> Many is_space 0 None"
abbreviation nonspaces :: re where "nonspaces \<equiv> Many (\<lambda>c. \<not> is_space c) 1 None"
abbreviation separator :: re where "separator \<equiv> Cls (one '':='')"

definition quote_char :: "char \<Rightarrow> bool" where
  "quote_char c \<longleftrightarrow> cp c = 39 \<or> cp c = 34"

definition PATTERNS :: "(re \<times> rpart list) list" where
  "PATTERNS =
     [(cats [Group 1 (alts [ilit ''authorization'', ilit ''bearer'',
                            cats [ilit ''api'', Opt (Cls (one ''_-'')), ilit ''key'']]),
             spaces, separator, spaces, Opt (Group 2 (Cat (ilit ''bearer'') (Many is_space 1 None))),
             Group 3 nonspaces],
       [RRef 1, RText ''=<REDACTED>'']),
      (cats [WordB, Many is_digit 6 None, Lit '':'', Many token_char 30 None, WordB], [RText ''<TG_TOKEN_REDACTED>'']),
      (cats [WordB, Lit ''ey'', Many token_char 8 None, Lit ''.'', Many token_char 8 None, Lit ''.'',
             Many token_char 8 None, WordB], [RText ''<JWT_REDACTED>'']),
      (cats [WordB, Group 1 (alts [Lit ''sk'', Lit ''pk'', Lit ''ghp'', Lit ''gho'']), Lit ''_'',
             Many alnum 20 None, WordB], [RText ''<SECRET_REDACTED>'']),
      (cats [Group 1 (alts [ilit ''TELEGRAM_BOT_TOKEN'', ilit ''LLM_API_KEY'', ilit ''JWT_SECRET'',
               Cat (Many (any_case (\<lambda>c. chr_in 65 90 c \<or> c = CHR ''_'')) 0 None) (ilit ''PASSWORD'')]),
             Lit ''='', Group 2 nonspaces], [RRef 1, RText ''=<REDACTED>'']),
      (cats [Lit ''-----BEGIN '', Opt (Lit ''RSA ''), Lit ''PRIVATE KEY-----''],
       [RText ''<PRIVATE_KEY_REDACTED>'']),
      (cats [WordB, Lit ''AKIA'', Many (\<lambda>c. chr_in 48 57 c \<or> chr_in 65 90 c) 16 (Some 16), WordB],
       [RText ''<AWS_KEY_REDACTED>'']),
      (cats [ilit ''aws_secret_access_key'', spaces, separator, spaces, Group 1 nonspaces],
       [RText ''aws_secret_access_key=<REDACTED>'']),
      (cats [Group 1 (alts [ilit ''password'', ilit ''passwd'', ilit ''pwd'']), spaces, separator, spaces,
             Opt (Cls quote_char),
             Group 2 (Many (\<lambda>c. \<not> is_space c \<and> \<not> quote_char c \<and> c \<noteq> CHR '';'') 8 None), Opt (Cls quote_char)],
       [RRef 1, RText ''=<REDACTED>'']),
      (cats [Group 1 (alts [ilit ''postgresql'', ilit ''postgres'', ilit ''mysql'', ilit ''mongodb'']),
             Group 2 (cats [Lit ''://'', Many (\<lambda>c. c \<noteq> CHR '':'') 1 None, Lit '':'']),
             Group 3 (Many (\<lambda>c. c \<noteq> CHR ''@'') 1 None), Group 4 (Lit ''@'')],
       [RRef 1, RRef 2, RText ''<REDACTED>'', RRef 4])]"

definition SECRET_VALUE_PATTERNS :: "re list" where
  "SECRET_VALUE_PATTERNS =
     [cats [WordB, Many (\<lambda>c. chr_in 48 57 c \<or> chr_in 65 70 c \<or> chr_in 97 102 c) 32 None, WordB],
      cats [WordB, Many (\<lambda>c. alnum c \<or> c = CHR ''+'' \<or> c = CHR ''/'') 32 None,
            Many (\<lambda>c. c = CHR ''='') 0 (Some 2), WordB]]"

section \<open>Secrets of the environment\<close>

definition SECRET_KEY_HINTS :: "string list" where
  "SECRET_KEY_HINTS = [''PASSWORD'', ''SECRET'', ''TOKEN'', ''API_KEY'', ''ENCRYPTION'', ''MASTER_KEY'']"

definition PLACEHOLDERS :: "string list" where
  "PLACEHOLDERS =
     [''CHANGE_ME'', ''REPLACE_ME'', ''dev-only-change-me'', ''dev-webhook-secret'',
      ''dev-only-32-byte-master-key-0000000000'', []]"

definition is_secret_key :: "string \<Rightarrow> bool" where
  "is_secret_key key \<longleftrightarrow> list_ex (\<lambda>h. contains h (upper key)) SECRET_KEY_HINTS"

definition loadable :: "string \<Rightarrow> string \<Rightarrow> bool" where
  "loadable k v \<longleftrightarrow>
     v \<noteq> [] \<and> v \<notin> set PLACEHOLDERS \<and> 12 \<le> length v \<and> \<not> startswith v ''/'' \<and> is_secret_key k \<and>
     \<not> contains ''CHANGE_ME'' v \<and> \<not> contains ''REPLACE_ME'' v"

fun load_secrets_from_env :: "(string \<times> string) list \<Rightarrow> string list \<Rightarrow> nat \<times> string list" where
  "load_secrets_from_env [] loaded = (0, loaded)"
| "load_secrets_from_env ((k, v) # env) loaded =
     (if loadable k v \<and> v \<notin> set loaded
      then (let (n, l) = load_secrets_from_env env (loaded @ [v]) in (Suc n, l))
      else load_secrets_from_env env loaded)"

section \<open>Redaction\<close>

definition env_pattern :: "string \<Rightarrow> re \<times> rpart list" where
  "env_pattern v = (Lit v, [RText ''<ENV_REDACTED>''])"

text \<open>The patterns in order, then the two generic ones.\<close>

definition redact :: "string list \<Rightarrow> string \<Rightarrow> string" where
  "redact loaded text =
     (if text = [] then text
      else fold re_sub (map (\<lambda>r. (r, [RText ''<SECRET_REDACTED>''])) SECRET_VALUE_PATTERNS)
             (fold re_sub (PATTERNS @ map env_pattern loaded) text))"

definition contains_secret :: "string list \<Rightarrow> string \<Rightarrow> bool" where
  "contains_secret loaded text \<longleftrightarrow> text \<noteq> [] \<and> redact loaded text \<noteq> text"

definition scrub_and_flag :: "string list \<Rightarrow> string \<Rightarrow> string \<times> bool" where
  "scrub_and_flag loaded text =
     (if text = [] then (text, False) else (redact loaded text, redact loaded text \<noteq> text))"

text \<open>A \<open>Redactor\<close> is the list of its additional literals.\<close>

definition add_literal :: "string \<Rightarrow> string list \<Rightarrow> string list" where
  "add_literal v extra = (if 4 \<le> length v then extra @ [v] else extra)"

definition scrub :: "string list \<Rightarrow> string list \<Rightarrow> string \<Rightarrow> string" where
  "scrub loaded extra text =
     fold re_sub (map (\<lambda>v. (Lit v, [RText ''<SECRET_REDACTED>''])) extra) (redact loaded text)"

definition redactor_contains_secret :: "string list \<Rightarrow> string list \<Rightarrow> string \<Rightarrow> bool" where
  "redactor_contains_secret loaded extra text \<longleftrightarrow>
     contains_secret loaded text \<or> list_ex (\<lambda>v. re_search (Lit v) text) extra"

definition redactor_scrub_and_flag :: "string list \<Rightarrow> string list \<Rightarrow> string \<Rightarrow> string \<times> bool" where
  "redactor_scrub_and_flag loaded extra text = (scrub loaded extra text, scrub loaded extra text \<noteq> text)"

section \<open>A replaced text\<close>

lemma sub_from_cases:
  "length s \<le> i \<Longrightarrow> sub_from r t s i = []"
  "i < length s \<Longrightarrow> match_at r s i = None \<Longrightarrow> sub_from r t s i = s ! i # sub_from r t s (Suc i)"
  "i < length s \<Longrightarrow> match_at r s i = Some (j, g) \<Longrightarrow> sub_from r t s i = expand t g @ sub_from r t s j"
  by (simp_all add: sub_from.simps [of r t s i])

lemma sub_induct [case_names End Miss Hit]:
  assumes "\<And>i. length s \<le> i \<Longrightarrow> P i"
    and "\<And>i. i < length s \<Longrightarrow> match_at r s i = None \<Longrightarrow> P (Suc i) \<Longrightarrow> P i"
    and "\<And>i j g. i < length s \<Longrightarrow> match_at r s i = Some (j, g) \<Longrightarrow> i < j \<Longrightarrow> P j \<Longrightarrow> P i"
  shows "P i"
proof (induction "length s - i" arbitrary: i rule: less_induct)
  case less
  show ?case
  proof (cases "length s \<le> i")
    case False
    then have i: "i < length s" by simp
    show ?thesis
    proof (cases "match_at r s i")
      case None
      then show ?thesis using assms(2) [OF i None] less [of "Suc i"] i by simp
    next
      case (Some m)
      obtain j g where m: "m = (j, g)" by fastforce
      then have "i < j" using Some by (auto simp: match_at_def split: list.splits if_splits)
      then show ?thesis using assms(3) [OF i] Some m less [of j] i by simp
    qed
  qed (rule assms(1))
qed

lemma prefix_delim: "d \<notin> set v \<Longrightarrow> prefix v (x @ d # y) \<longleftrightarrow> prefix v x"
proof (induction x arbitrary: v)
  case Nil
  then show ?case by (cases v) auto
next
  case (Cons c x)
  then show ?case by (cases v) auto
qed

lemma sublist_delim: "d \<notin> set v \<Longrightarrow> sublist v (x @ d # y) \<longleftrightarrow> sublist v x \<or> sublist v y"
proof (induction x)
  case Nil
  then show ?case using prefix_delim [of d v "[]" y] by (auto simp: sublist_Cons_right)
next
  case (Cons c x)
  then show ?case using prefix_delim [of d v "c # x" y] by (simp add: sublist_Cons_right)
qed

text \<open>The word \<open>v\<close> cannot overlap a replacement of the form \<open><...>\<close> and is not inside it.\<close>

definition apart :: "string \<Rightarrow> string \<Rightarrow> bool" where
  "apart v mid \<longleftrightarrow> v \<noteq> [] \<and> CHR ''<'' \<notin> set v \<and> CHR ''>'' \<notin> set v \<and> \<not> sublist v mid"

definition angled :: "string \<Rightarrow> rpart list" where
  "angled mid = [RText (''<'' @ mid @ ''>'')]"

lemma expand_angled: "expand (angled mid) g = ''<'' @ mid @ ''>''"
  by (simp add: expand_def angled_def)

lemma sublist_angled: "apart v mid \<Longrightarrow> sublist v (''<'' @ mid @ ''>'' @ rest) \<longleftrightarrow> sublist v rest"
  using sublist_delim [of "CHR ''<''" v "[]" "mid @ ''>'' @ rest"] sublist_delim [of "CHR ''>''" v mid rest]
  by (auto simp: apart_def)

text \<open>Words without brackets that start the result started the text.\<close>

lemma prefix_sub: "CHR ''<'' \<notin> set w \<Longrightarrow> prefix w (sub_from r (angled mid) s i) \<Longrightarrow> prefix w (drop i s)"
proof (induction i arbitrary: w rule: sub_induct [where s = s and r = r])
  case (End i)
  then show ?case by (simp add: sub_from_cases)
next
  case (Miss i)
  then show ?case
    by (cases w) (auto simp: sub_from_cases Cons_nth_drop_Suc [symmetric])
next
  case (Hit i j g)
  then show ?case
    by (cases w) (auto simp: sub_from_cases expand_angled)
qed

lemma sublist_sub:
  assumes "apart v mid" and "sublist v (sub_from r (angled mid) s i)"
  shows "sublist v (drop i s) \<and> (r = Lit v \<longrightarrow> False)"
  using assms(2)
proof (induction i rule: sub_induct [where s = s and r = r])
  case (End i)
  then show ?case using assms(1) by (simp add: sub_from_cases apart_def)
next
  case (Miss i)
  have d: "drop i s = s ! i # drop (Suc i) s" using Miss by (simp add: Cons_nth_drop_Suc)
  from Miss.prems consider "prefix v (s ! i # sub_from r (angled mid) s (Suc i))"
    | "sublist v (sub_from r (angled mid) s (Suc i))"
    using Miss.hyps by (auto simp: sub_from_cases sublist_Cons_right)
  then show ?case
  proof cases
    case 1
    then have p: "prefix v (drop i s)"
      using prefix_sub [of v r mid s i] assms(1) Miss.hyps by (simp add: sub_from_cases apart_def)
    moreover have "match_at (Lit v) s i \<noteq> None"
      using p assms(1) by (simp add: match_at_def apart_def)
    ultimately show ?thesis using Miss.hyps by auto
  next
    case 2
    then show ?thesis using Miss.IH d by (simp add: sublist_Cons_right)
  qed
next
  case (Hit i j g)
  then have "sublist v (sub_from r (angled mid) s j)"
    using sublist_angled [OF assms(1)] by (simp add: sub_from_cases expand_angled)
  then have "sublist v (drop j s)" "r = Lit v \<longrightarrow> False" using Hit.IH by simp_all
  moreover have "drop j s = drop (j - i) (drop i s)" using Hit.hyps by simp
  ultimately show ?case
    by (metis sublist_drop sublist_order.order_trans)
qed

lemma re_sub_keeps: "apart v mid \<Longrightarrow> \<not> sublist v s \<Longrightarrow> \<not> sublist v (re_sub (r, angled mid) s)"
  using sublist_sub [of v mid r s 0] by (auto simp: re_sub_def)

lemma re_sub_removes: "apart v mid \<Longrightarrow> \<not> sublist v (re_sub (Lit v, angled mid) s)"
  using sublist_sub [of v mid "Lit v" s 0] by (auto simp: re_sub_def)

lemma subs_keep: "apart v mid \<Longrightarrow> \<not> sublist v s \<Longrightarrow> \<not> sublist v (fold re_sub (map (\<lambda>r. (r, angled mid)) rs) s)"
  by (induction rs arbitrary: s) (auto simp: re_sub_keeps)

lemma subs_remove:
  assumes "apart v mid" and "v \<in> set vs"
  shows "\<not> sublist v (fold re_sub (map (\<lambda>w. (Lit w, angled mid)) vs) s)"
proof -
  obtain a b where "vs = a @ v # b" using assms(2) by (meson split_list)
  moreover have "map (\<lambda>w. (Lit w, angled mid)) b = map (\<lambda>r. (r, angled mid)) (map Lit b)" by simp
  ultimately show ?thesis
    using subs_keep [OF assms(1) re_sub_removes [OF assms(1)]] by (simp del: map_map)
qed

section \<open>Loading\<close>

lemma load_mono: "load_secrets_from_env env loaded = (n, l) \<Longrightarrow> set loaded \<subseteq> set l"
proof (induction env arbitrary: loaded n l)
  case (Cons kv env)
  then show ?case by (cases kv) (fastforce split: if_splits prod.splits)
qed simp

lemma load_secrets_in:
  "load_secrets_from_env env loaded = (n, l) \<Longrightarrow> (k, v) \<in> set env \<Longrightarrow> loadable k v \<Longrightarrow> v \<in> set l"
proof (induction env arbitrary: loaded n l)
  case (Cons kv env)
  obtain k' v' where kv: "kv = (k', v')" by fastforce
  show ?case
  proof (cases "loadable k' v' \<and> v' \<notin> set loaded")
    case True
    then obtain m where "load_secrets_from_env env (loaded @ [v']) = (m, l)"
      using Cons.prems(1) kv by (auto split: prod.splits)
    then show ?thesis using Cons.IH [of "loaded @ [v']"] load_mono Cons.prems(2,3) kv by fastforce
  next
    case False
    then have "load_secrets_from_env env loaded = (n, l)" using Cons.prems(1) kv by auto
    then show ?thesis using Cons.IH load_mono False Cons.prems(2,3) kv by fastforce
  qed
qed simp

lemma load_secrets_again:
  assumes "load_secrets_from_env env loaded = (n, l)"
  shows "load_secrets_from_env env l = (0, l)"
proof -
  have "\<forall>(k, v) \<in> set env. loadable k v \<longrightarrow> v \<in> set l \<Longrightarrow> load_secrets_from_env env l = (0, l)"
    by (induction env) auto
  then show ?thesis using load_secrets_in [OF assms] by auto
qed

text \<open>
  C16: a secret of the environment does not survive redaction. Once a value that qualifies (a secret
  key, at least twelve characters, no path, no placeholder) has been loaded, it occurs in no redacted
  text, whatever else was loaded and whatever the other patterns replace; a value that contains an
  angle bracket or lies within the replacement texts themselves is the exception. Loading again adds
  nothing.
\<close>

theorem loaded_secret_redacted:
  assumes "load_secrets_from_env env loaded = (n, l)" and "(k, v) \<in> set env" and "loadable k v"
    and "CHR ''<'' \<notin> set v" and "CHR ''>'' \<notin> set v"
    and "\<not> contains v ''ENV_REDACTED''" and "\<not> contains v ''SECRET_REDACTED''"
  shows "\<not> contains v (redact l text) \<and> load_secrets_from_env env l = (0, l)"
proof -
  have v: "apart v ''ENV_REDACTED''" "apart v ''SECRET_REDACTED''" "v \<in> set l"
    using assms load_secrets_in [OF assms(1-3)] by (auto simp: apart_def contains_sublist loadable_def)
  have e: "env_pattern = (\<lambda>w. (Lit w, angled ''ENV_REDACTED''))"
    "(\<lambda>r. (r, [RText ''<SECRET_REDACTED>''])) = (\<lambda>r. (r, angled ''SECRET_REDACTED''))"
    by (simp_all add: fun_eq_iff env_pattern_def angled_def)
  have "\<not> sublist v (redact l text)"
  proof (cases "text = []")
    case True
    then show ?thesis using v(1) by (simp add: redact_def apart_def)
  next
    case False
    then show ?thesis
      unfolding redact_def e using subs_keep [OF v(2) subs_remove [OF v(1,3)]] by simp
  qed
  then show ?thesis using load_secrets_again [OF assms(1)] by (simp add: contains_sublist)
qed

theorem loaded_secret_redacted_witness:
  "\<not> contains ''tok-0123456789'' (redact (snd (load_secrets_from_env [(''BOT_TOKEN'', ''tok-0123456789'')] []))
     ''send tok-0123456789 to all'')"
proof -
  have "is_secret_key ''BOT_TOKEN''"
    by (simp add: is_secret_key_def upper_def to_upper_def cp_def SECRET_KEY_HINTS_def)
  then have l: "loadable ''BOT_TOKEN'' ''tok-0123456789''"
    by (simp add: loadable_def PLACEHOLDERS_def startswith_def)
  then have c: "load_secrets_from_env [(''BOT_TOKEN'', ''tok-0123456789'')] [] = (1, [''tok-0123456789''])"
    by simp
  have "\<not> contains ''tok-0123456789'' (redact [''tok-0123456789''] ''send tok-0123456789 to all'') \<and>
      load_secrets_from_env [(''BOT_TOKEN'', ''tok-0123456789'')] [''tok-0123456789''] = (0, [''tok-0123456789''])"
    by (rule loaded_secret_redacted [OF c _ l]) simp_all
  then show ?thesis by (simp only: c snd_conv) blast
qed

text \<open>The literals of a \<open>Redactor\<close> are removed in the same way, whatever the module has loaded.\<close>

lemma literal_redacted:
  "v \<in> set extra \<Longrightarrow> apart v ''SECRET_REDACTED'' \<Longrightarrow> \<not> sublist v (scrub loaded extra text)"
  using subs_remove [of v "''SECRET_REDACTED''" extra] by (simp add: scrub_def angled_def)

end
