(* ===== verification/Base64.thy ===== *)
theory Base64
  imports Json
begin

text \<open>
  \<open>base64.urlsafe_b64encode\<close> and \<open>urlsafe_b64decode\<close> of the Python standard library, on bytes as
  characters. The decoder is the lenient one of \<open>binascii\<close>: it skips characters outside the alphabet and
  stops at complete padding. \<open>None\<close> stands for \<open>binascii.Error\<close> or \<open>ValueError\<close>.
\<close>

definition b64_char :: "nat \<Rightarrow> char" where
  "b64_char n =
     char_of (if n < 26 then 65 + n else if n < 52 then 71 + n else if n < 62 then n - 4
              else if n = 62 then 45 else 95)"

definition b64_val :: "char \<Rightarrow> nat option" where
  "b64_val c =
     (let n = cp c
      in if 65 \<le> n \<and> n \<le> 90 then Some (n - 65)
         else if 97 \<le> n \<and> n \<le> 122 then Some (n - 71)
         else if 48 \<le> n \<and> n \<le> 57 then Some (n + 4)
         else if n = 45 \<or> n = 43 then Some 62
         else if n = 95 \<or> n = 47 then Some 63 else None)"

fun b64url_encode :: "string \<Rightarrow> string" where
  "b64url_encode [] = []"
| "b64url_encode [a] = [b64_char (cp a div 4), b64_char (cp a mod 4 * 16), CHR ''='', CHR ''='']"
| "b64url_encode [a, b] =
     [b64_char (cp a div 4), b64_char (cp a mod 4 * 16 + cp b div 16), b64_char (cp b mod 16 * 4), CHR ''='']"
| "b64url_encode (a # b # c # s) =
     [b64_char (cp a div 4), b64_char (cp a mod 4 * 16 + cp b div 16),
      b64_char (cp b mod 16 * 4 + cp c div 64), b64_char (cp c mod 64)] @ b64url_encode s"

text \<open>The position within a group of four, the bits left over, the padding seen.\<close>

fun a2b :: "nat \<Rightarrow> nat \<Rightarrow> nat \<Rightarrow> string \<Rightarrow> string option" where
  "a2b q l p [] = (if q = 0 then Some [] else None)"
| "a2b q l p (c # s) =
     (if c = CHR ''=''
      then (if 2 \<le> q then (if 4 \<le> q + p + 1 then Some [] else a2b q l (p + 1) s) else a2b q l p s)
      else (case b64_val c of
              None \<Rightarrow> a2b q l p s
            | Some v \<Rightarrow>
                if q = 0 then a2b 1 v 0 s
                else if q = 1 then map_option (Cons (char_of (l * 4 + v div 16))) (a2b 2 (v mod 16) 0 s)
                else if q = 2 then map_option (Cons (char_of (l * 16 + v div 4))) (a2b 3 (v mod 4) 0 s)
                else map_option (Cons (char_of (l * 64 + v))) (a2b 0 0 0 s)))"

definition b64url_decode :: "string \<Rightarrow> string option" where
  "b64url_decode s = (if list_ex (\<lambda>c. 127 < cp c) s then None else a2b 0 0 0 s)"

text \<open>\<open>sig + "=" * (-len(sig) % 4)\<close>.\<close>

definition b64_pad :: "string \<Rightarrow> string" where
  "b64_pad s = s @ replicate ((4 - length s mod 4) mod 4) CHR ''=''"

section \<open>Round trip\<close>

lemma cp_b64: "n < 64 \<Longrightarrow> cp (b64_char n) = (if n < 26 then 65 + n else if n < 52 then 71 + n else if n < 62 then n - 4
    else if n = 62 then 45 else 95)"
  by (auto simp: b64_char_def cp_def)

lemma b64_val_char [simp]: "n < 64 \<Longrightarrow> b64_val (b64_char n) = Some n"
  by (auto simp: b64_val_def cp_b64 Let_def)

lemma b64_char_plain:
  assumes "n < 64"
  shows "b64_char n \<noteq> CHR ''=''" "cp (b64_char n) \<le> 127"
proof -
  show "b64_char n \<noteq> CHR ''=''"
  proof
    assume "b64_char n = CHR ''=''"
    then have "cp (b64_char n) = 61" by (simp add: cp_def)
    then show False using assms by (auto simp: cp_b64 split: if_splits)
  qed
  show "cp (b64_char n) \<le> 127" using assms by (auto simp: cp_b64)
qed

lemma cp_parts:
  "cp a div 4 < 64" "cp a div 16 < 16" "cp a div 64 < 4" "cp a mod 4 < 4" "cp a mod 16 < 16"
proof -
  have "cp a < 256" by (simp add: cp_def)
  then show "cp a div 4 < 64" "cp a div 16 < 16" "cp a div 64 < 4" "cp a mod 4 < 4" "cp a mod 16 < 16"
    by (simp_all add: div_less_iff_less_mult)
qed

lemma cp_bounds [simp]: "cp a div 4 < 64" "cp a mod 4 * 16 < 64" "cp a mod 4 * 16 + cp b div 16 < 64"
  "cp b mod 16 * 4 < 64" "cp b mod 16 * 4 + cp c div 64 < 64"
  using cp_parts [of a] cp_parts [of b] cp_parts [of c] by linarith+

lemma cp_high [simp]:
  "cp b div 16 div 16 = 0" "cp c div 64 div 4 = 0" "cp b div 16 mod 16 = cp b div 16" "cp c div 64 mod 4 = cp c div 64"
  using cp_parts [of b] cp_parts [of c] by simp_all

lemma mod64: "cp c mod 64 < 64" by simp

lemma a2b_encode: "a2b 0 0 0 (b64url_encode s) = Some s"
proof (induction s rule: b64url_encode.induct)
  case (4 a b c s)
  then show ?case using b64_char_plain(1) by simp
qed (use b64_char_plain(1) in simp_all)

text \<open>The unpadded form consists of characters of the alphabet, and padding it gives the encoding back.\<close>

definition b64_strip :: "string \<Rightarrow> string" where
  "b64_strip s = rstrip_by (\<lambda>c. c = CHR ''='') s"

definition b64_body :: "string \<Rightarrow> bool" where
  "b64_body s \<longleftrightarrow> list_all (\<lambda>c. \<exists>n < 64. c = b64_char n) s"

lemma encode_shape:
  "\<exists>b k. b64url_encode s = b @ replicate k CHR ''='' \<and> b64_body b \<and> k = (4 - length b mod 4) mod 4 \<and>
     length b = (length s * 4 + 2) div 3"
proof (induction s rule: b64url_encode.induct)
  case 1
  show ?case by (rule exI [of _ "[]"]) (simp add: b64_body_def)
next
  case (2 a)
  show ?case
    by (rule exI [of _ "[b64_char (cp a div 4), b64_char (cp a mod 4 * 16)]"], rule exI [of _ 2])
      (auto simp: b64_body_def numeral_2_eq_2 intro: cp_bounds)
next
  case (3 a b)
  show ?case
    by (rule exI [of _ "[b64_char (cp a div 4), b64_char (cp a mod 4 * 16 + cp b div 16), b64_char (cp b mod 16 * 4)]"],
        rule exI [of _ 1]) (auto simp: b64_body_def intro: cp_bounds)
next
  case (4 a b c s)
  then obtain t k where t: "b64url_encode s = t @ replicate k CHR ''=''" "b64_body t" "k = (4 - length t mod 4) mod 4"
      "length t = (length s * 4 + 2) div 3"
    by blast
  show ?case
    by (rule exI [of _ "[b64_char (cp a div 4), b64_char (cp a mod 4 * 16 + cp b div 16),
      b64_char (cp b mod 16 * 4 + cp c div 64), b64_char (cp c mod 64)] @ t"], rule exI [of _ k])
      (use t in \<open>auto simp: b64_body_def intro: cp_bounds mod64\<close>)
qed

lemma body_no_pad: "b64_body b \<Longrightarrow> c \<in> set b \<Longrightarrow> c \<noteq> CHR ''='' \<and> cp c \<le> 127"
  using b64_char_plain unfolding b64_body_def list_all_iff by metis

lemma strip_body: "b64_body b \<Longrightarrow> b64_strip (b @ replicate k CHR ''='') = b"
proof -
  assume "b64_body b"
  then have "\<forall>c \<in> set (rev b). c \<noteq> CHR ''=''" using body_no_pad by auto
  then have "dropWhile (\<lambda>c. c = CHR ''='') (rev b) = rev b"
    by (cases "rev b") auto
  moreover have "dropWhile (\<lambda>c. c = CHR ''='') (replicate k CHR ''='' @ rev b) = dropWhile (\<lambda>c. c = CHR ''='') (rev b)"
    by (induction k) auto
  ultimately show ?thesis by (simp add: b64_strip_def rstrip_by_def)
qed

lemma cp_lit_eq: "cp CHR ''='' = 61"
  by (simp add: cp_def)

lemma unpadded:
  obtains b where "b64_strip (b64url_encode s) = b" and "b64_body b" and "length b = (length s * 4 + 2) div 3"
    and "b64url_decode (b64_pad b) = Some s"
proof -
  obtain b k where b: "b64url_encode s = b @ replicate k CHR ''=''" "b64_body b" "k = (4 - length b mod 4) mod 4"
      "length b = (length s * 4 + 2) div 3"
    using encode_shape by blast
  have "b64_pad b = b64url_encode s" using b by (simp add: b64_pad_def)
  moreover have "\<not> list_ex (\<lambda>c. 127 < cp c) (b @ replicate k CHR ''='')"
    using body_no_pad [OF b(2)] by (fastforce simp: list_ex_iff cp_lit_eq)
  ultimately have "b64url_decode (b64_pad b) = Some s"
    using a2b_encode [of s] b(1) by (simp add: b64url_decode_def)
  then show thesis using that b strip_body by simp
qed

end
