(* ===== verification/Url.thy ===== *)
theory Url
  imports Py_Base "HOL-Library.Word"
begin

text \<open>
  The parts of the Python standard library that the connectors build on: the addresses and networks
  of \<open>ipaddress\<close>, \<open>str.partition\<close>, and \<open>urlsplit\<close>, \<open>urlparse\<close>, \<open>urlunparse\<close> and \<open>urljoin\<close> of \<open>urllib.parse\<close>
  (CPython 3.12). \<open>None\<close> stands for \<open>ValueError\<close>. Addresses are words of 32 and 128 bits.
\<close>

unbundle bit_operations_syntax

section \<open>Partition\<close>

text \<open>\<open>s.partition(c)\<close>: the text before the first \<open>c\<close>, whether there was one, the text after it.\<close>

definition partition_at :: "char \<Rightarrow> string \<Rightarrow> string \<times> bool \<times> string" where
  "partition_at c s = (takeWhile (\<lambda>x. x \<noteq> c) s, c \<in> set s, drop 1 (dropWhile (\<lambda>x. x \<noteq> c) s))"

text \<open>\<open>s.rpartition(c)\<close>: around the last \<open>c\<close>; without one everything is in the last part.\<close>

definition rpartition_at :: "char \<Rightarrow> string \<Rightarrow> string \<times> bool \<times> string" where
  "rpartition_at c s =
     (rev (drop 1 (dropWhile (\<lambda>x. x \<noteq> c) (rev s))), c \<in> set s, rev (takeWhile (\<lambda>x. x \<noteq> c) (rev s)))"

section \<open>Addresses\<close>

datatype ip = V4 "32 word" | V6 "128 word"

definition dec_val :: "string \<Rightarrow> int" where
  "dec_val s = foldl (\<lambda>n c. 10 * n + (int (cp c) - 48)) 0 s"

text \<open>\<open>IPv4Address._parse_octet\<close>: one to three digits without a leading zero.\<close>

definition octet :: "string \<Rightarrow> int option" where
  "octet s =
     (if s = [] \<or> \<not> list_all is_digit s \<or> 3 < length s \<or> (s \<noteq> ''0'' \<and> hd s = CHR ''0'') then None
      else if 255 < dec_val s then None else Some (dec_val s))"

definition ipv4_of :: "string \<Rightarrow> 32 word option" where
  "ipv4_of s =
     (case map octet (split_on CHR ''.'' s) of
        [Some a, Some b, Some c, Some d] \<Rightarrow> Some (word_of_int (((a * 256 + b) * 256 + c) * 256 + d))
      | _ \<Rightarrow> None)"

text \<open>\<open>IPv6Address._parse_hextet\<close>: one to four hexadecimal digits.\<close>

definition hextet :: "string \<Rightarrow> int option" where
  "hextet s =
     (if s = [] \<or> 4 < length s then None
      else foldl (\<lambda>acc c. case (acc, digit_val 16 c) of (Some n, Some d) \<Rightarrow> Some (16 * n + d) | _ \<Rightarrow> None)
             (Some 0) s)"

text \<open>The positions other than the ends at which a part is empty: the places of \<open>::\<close>.\<close>

definition join16 :: "int \<Rightarrow> int list \<Rightarrow> int" where
  "join16 start hs = foldl (\<lambda>n h. n * 65536 + h) start hs"

text \<open>A trailing dotted quad counts as two hextets.\<close>

definition expand_quad :: "string list \<Rightarrow> (int list \<times> string list) option" where
  "expand_quad ps =
     (if ps \<noteq> [] \<and> CHR ''.'' \<in> set (last ps)
      then (case ipv4_of (last ps) of
              None \<Rightarrow> None
            | Some w \<Rightarrow> Some ([uint w div 65536, uint w mod 65536], butlast ps))
      else Some ([], ps))"

fun part_value :: "int + string \<Rightarrow> int option" where
  "part_value (Inl n) = Some n"
| "part_value (Inr s) = hextet s"

definition is_empty_part :: "int + string \<Rightarrow> bool" where
  "is_empty_part p \<longleftrightarrow> p = Inr []"

definition ipv6_parts :: "string \<Rightarrow> (int + string) list option" where
  "ipv6_parts s =
     (let ps = split_on CHR '':'' s
      in if length ps < 3 then None
         else map_option (\<lambda>(quad, rest). map Inr rest @ map Inl quad) (expand_quad ps))"

definition values_of :: "(int + string) list \<Rightarrow> int list option" where
  "values_of ps =
     (if list_ex (\<lambda>p. part_value p = None) ps then None else Some (map (the \<circ> part_value) ps))"

definition ipv6_plain :: "string \<Rightarrow> 128 word option" where
  "ipv6_plain s =
     (case ipv6_parts s of
        None \<Rightarrow> None
      | Some ps \<Rightarrow>
          if 9 < length ps then None
          else (case filter (\<lambda>i. is_empty_part (ps ! i)) [1..<length ps - 1] of
                  [] \<Rightarrow> if length ps \<noteq> 8 then None else map_option (word_of_int \<circ> join16 0) (values_of ps)
                | [k] \<Rightarrow>
                    (let lead = is_empty_part (hd ps); trail = is_empty_part (last ps);
                         hi = (if lead then k - 1 else k);
                         lo = (if trail then length ps - k - 2 else length ps - k - 1)
                     in if (lead \<and> 0 < hi) \<or> (trail \<and> 0 < lo) \<or> 8 \<le> hi + lo then None
                        else (case (values_of (take hi ps), values_of (drop (length ps - lo) ps)) of
                                (Some hs, Some ls) \<Rightarrow>
                                  Some (word_of_int (join16 (join16 0 hs * 65536 ^ (8 - (hi + lo))) ls))
                              | _ \<Rightarrow> None))
                | _ \<Rightarrow> None))"

text \<open>An address may carry a scope after a percent sign; it does not take part in the number.\<close>

definition ipv6_of :: "string \<Rightarrow> 128 word option" where
  "ipv6_of s =
     (let (a, scoped, z) = partition_at CHR ''%'' s
      in if CHR ''/'' \<in> set s \<or> (scoped \<and> (z = [] \<or> CHR ''%'' \<in> set z)) then None else ipv6_plain a)"

text \<open>\<open>ipaddress.ip_address(s)\<close>.\<close>

definition ip_address :: "string \<Rightarrow> ip option" where
  "ip_address s =
     (case ipv4_of s of Some w \<Rightarrow> Some (V4 w) | None \<Rightarrow> map_option V6 (ipv6_of s))"

section \<open>Networks\<close>

datatype net = N4 "32 word" nat | N6 "128 word" nat

text \<open>\<open>ip_network(s)\<close> for a text with an address, a slash and a prefix length; host bits must be zero.\<close>

definition ip_network :: "string \<Rightarrow> net option" where
  "ip_network s =
     (let (a, slash, p) = partition_at CHR ''/'' s; n = nat (dec_val p)
      in case ip_address a of
           None \<Rightarrow> None
         | Some (V4 w) \<Rightarrow> if n \<le> 32 \<and> w AND push_bit (32 - n) (- 1) = w then Some (N4 w n) else None
         | Some (V6 w) \<Rightarrow> if n \<le> 128 \<and> w AND push_bit (128 - n) (- 1) = w then Some (N6 w n) else None)"

text \<open>\<open>ip in network\<close>: an address is never in a network of the other version.\<close>

fun in_network :: "ip \<Rightarrow> net \<Rightarrow> bool" where
  "in_network (V4 w) (N4 a n) \<longleftrightarrow> w AND push_bit (32 - n) (- 1) = a"
| "in_network (V6 w) (N6 a n) \<longleftrightarrow> w AND push_bit (128 - n) (- 1) = a"
| "in_network _ _ \<longleftrightarrow> False"

definition in_text_network :: "ip \<Rightarrow> string \<Rightarrow> bool" where
  "in_text_network i s \<longleftrightarrow> (case ip_network s of None \<Rightarrow> False | Some n \<Rightarrow> in_network i n)"

text \<open>The attributes of the addresses, by the networks CPython lists for them.\<close>

primrec is_loopback :: "ip \<Rightarrow> bool" where
  "is_loopback (V4 w) \<longleftrightarrow> in_text_network (V4 w) ''127.0.0.0/8''"
| "is_loopback (V6 w) \<longleftrightarrow> w = 1"

primrec is_link_local :: "ip \<Rightarrow> bool" where
  "is_link_local (V4 w) \<longleftrightarrow> in_text_network (V4 w) ''169.254.0.0/16''"
| "is_link_local (V6 w) \<longleftrightarrow> in_text_network (V6 w) ''fe80::/10''"

primrec is_multicast :: "ip \<Rightarrow> bool" where
  "is_multicast (V4 w) \<longleftrightarrow> in_text_network (V4 w) ''224.0.0.0/4''"
| "is_multicast (V6 w) \<longleftrightarrow> in_text_network (V6 w) ''ff00::/8''"

primrec is_unspecified :: "ip \<Rightarrow> bool" where
  "is_unspecified (V4 w) \<longleftrightarrow> w = 0"
| "is_unspecified (V6 w) \<longleftrightarrow> w = 0"

definition RESERVED6 :: "string list" where
  "RESERVED6 =
     [''::/8'', ''100::/8'', ''200::/7'', ''400::/6'', ''800::/5'', ''1000::/4'', ''4000::/3'', ''6000::/3'',
      ''8000::/3'', ''A000::/3'', ''C000::/3'', ''E000::/4'', ''F000::/5'', ''F800::/6'', ''FE00::/9'']"

primrec is_reserved :: "ip \<Rightarrow> bool" where
  "is_reserved (V4 w) \<longleftrightarrow> in_text_network (V4 w) ''240.0.0.0/4''"
| "is_reserved (V6 w) \<longleftrightarrow> list_ex (in_text_network (V6 w)) RESERVED6"

text \<open>\<open>IPv6Address.ipv4_mapped\<close>: the low half of \<open>::ffff:0:0/96\<close>.\<close>

definition ipv4_mapped :: "128 word \<Rightarrow> 32 word option" where
  "ipv4_mapped w = (if drop_bit 32 w = 0xFFFF then Some (ucast w) else None)"

section \<open>URLs\<close>

record url_parts =
  u_scheme :: string
  u_netloc :: string
  u_path :: string
  u_params :: string
  u_query :: string
  u_fragment :: string

definition is_alpha :: "char \<Rightarrow> bool" where
  "is_alpha c \<longleftrightarrow> (65 \<le> cp c \<and> cp c \<le> 90) \<or> (97 \<le> cp c \<and> cp c \<le> 122)"

definition scheme_char :: "char \<Rightarrow> bool" where
  "scheme_char c \<longleftrightarrow> is_alpha c \<or> is_digit c \<or> c \<in> {CHR ''+'', CHR ''-'', CHR ''.''}"

definition split_scheme :: "string \<Rightarrow> string \<Rightarrow> string \<times> string" where
  "split_scheme scheme url =
     (let (s, colon, rest) = partition_at CHR '':'' url
      in if colon \<and> s \<noteq> [] \<and> is_alpha (hd s) \<and> list_all scheme_char s then (lower s, rest) else (scheme, url))"

text \<open>An address in brackets must be an IPv6 address or have the form \<open>v1.x\<close>.\<close>

definition bracketed_ok :: "string \<Rightarrow> bool" where
  "bracketed_ok h \<longleftrightarrow>
     (if startswith h ''v''
      then (let (v, dot, r) = partition_at CHR ''.'' (drop 1 h)
            in v \<noteq> [] \<and> list_all (\<lambda>c. digit_val 16 c \<noteq> None) v \<and> dot \<and> r \<noteq> [])
      else (case ip_address h of Some (V6 _) \<Rightarrow> True | _ \<Rightarrow> False))"

definition netloc_ok :: "string \<Rightarrow> bool" where
  "netloc_ok netloc \<longleftrightarrow>
     (if CHR ''['' \<in> set netloc \<and> CHR '']'' \<in> set netloc
      then (let (_, _, r) = partition_at CHR ''['' netloc; (h, _, _) = partition_at CHR '']'' r in bracketed_ok h)
      else CHR ''['' \<notin> set netloc \<and> CHR '']'' \<notin> set netloc)"

text \<open>
  \<open>urlsplit\<close>. Leading control characters and blanks, and tabs and line ends anywhere, are removed
  first. (The Unicode check of the network location accepts every text below code point 256.)
\<close>

definition urlsplit :: "string \<Rightarrow> string \<Rightarrow> (string \<times> string \<times> string \<times> string \<times> string) option" where
  "urlsplit url0 scheme0 =
     (let clean = filter (\<lambda>c. cp c \<notin> {9, 10, 13}) (dropWhile (\<lambda>c. cp c \<le> 32) url0);
          (scheme, url) = split_scheme scheme0 clean;
          net = startswith url ''//'';
          delim = (\<lambda>c. c \<in> {CHR ''/'', CHR ''?'', CHR ''#''});
          netloc = (if net then takeWhile (\<lambda>c. \<not> delim c) (drop 2 url) else []);
          rest = (if net then dropWhile (\<lambda>c. \<not> delim c) (drop 2 url) else url);
          (rest1, _, fragment) = partition_at CHR ''#'' rest;
          (path, _, query) = partition_at CHR ''?'' rest1
      in if net \<and> \<not> netloc_ok netloc then None else Some (scheme, netloc, path, query, fragment))"

definition uses_params :: "string set" where
  "uses_params = {[], ''ftp'', ''hdl'', ''prospero'', ''http'', ''imap'', ''https'', ''shttp'', ''rtsp'',
     ''rtsps'', ''rtspu'', ''sip'', ''sips'', ''mms'', ''sftp'', ''tel''}"

definition uses_relative :: "string set" where
  "uses_relative = {[], ''ftp'', ''http'', ''gopher'', ''nntp'', ''imap'', ''wais'', ''file'', ''https'', ''shttp'',
     ''mms'', ''prospero'', ''rtsp'', ''rtsps'', ''rtspu'', ''sftp'', ''svn'', ''svn+ssh'', ''ws'', ''wss''}"

definition uses_netloc :: "string set" where
  "uses_netloc = uses_relative \<union> {''telnet'', ''snews'', ''rsync'', ''nfs'', ''git'', ''git+ssh'', ''itms-services''}"

text \<open>\<open>_splitparams\<close>: the parameters follow the first semicolon of the last segment of the path.\<close>

definition split_params :: "string \<Rightarrow> string \<times> string" where
  "split_params path =
     (let (d, slash, f) = rpartition_at CHR ''/'' path; (a, _, q) = partition_at CHR '';'' f
      in (if slash then d @ ''/'' @ a else a, q))"

definition urlparse :: "string \<Rightarrow> string \<Rightarrow> url_parts option" where
  "urlparse url scheme0 =
     (case urlsplit url scheme0 of
        None \<Rightarrow> None
      | Some (scheme, netloc, path, query, fragment) \<Rightarrow>
          (let (p, ps) = (if scheme \<in> uses_params \<and> CHR '';'' \<in> set path then split_params path else (path, []))
           in Some \<lparr>u_scheme = scheme, u_netloc = netloc, u_path = p, u_params = ps, u_query = query,
                    u_fragment = fragment\<rparr>))"

text \<open>The parts of the network location: \<open>hostname\<close>, \<open>port\<close>, \<open>username\<close>, \<open>password\<close>.\<close>

definition hostinfo :: "string \<Rightarrow> string \<times> string option" where
  "hostinfo netloc =
     (let (_, _, h) = rpartition_at CHR ''@'' netloc;
          (pre, br, bracketed) = partition_at CHR ''['' h;
          (host, port) =
            (if br then (let (a, _, r) = partition_at CHR '']'' bracketed; (_, _, p) = partition_at CHR '':'' r in (a, p))
             else (let (a, _, p) = partition_at CHR '':'' h in (a, p)))
      in (host, if port = [] then None else Some port))"

definition hostname :: "url_parts \<Rightarrow> string option" where
  "hostname u =
     (let h = fst (hostinfo (u_netloc u)); (a, pc, z) = partition_at CHR ''%'' h
      in if h = [] then None else Some (lower a @ (if pc then ''%'' else []) @ z))"

definition url_port :: "url_parts \<Rightarrow> int option option" where
  "url_port u =
     (case snd (hostinfo (u_netloc u)) of
        None \<Rightarrow> Some None
      | Some p \<Rightarrow> if list_all is_digit p \<and> dec_val p \<le> 65535 then Some (Some (dec_val p)) else None)"

definition userinfo :: "url_parts \<Rightarrow> string option \<times> string option" where
  "userinfo u =
     (let (i, found, _) = rpartition_at CHR ''@'' (u_netloc u); (n, colon, p) = partition_at CHR '':'' i
      in if found then (Some n, if colon then Some p else None) else (None, None))"

text \<open>\<open>urlunparse\<close> and \<open>urljoin\<close>.\<close>

definition urlunparse :: "url_parts \<Rightarrow> string" where
  "urlunparse u =
     (let p = (if u_params u \<noteq> [] then u_path u @ '';'' @ u_params u else u_path u);
          n = (if u_netloc u \<noteq> [] \<or> (u_scheme u \<noteq> [] \<and> u_scheme u \<in> uses_netloc \<and> \<not> startswith p ''//'')
               then ''//'' @ u_netloc u @ (if p \<noteq> [] \<and> \<not> startswith p ''/'' then ''/'' @ p else p) else p);
          s = (if u_scheme u \<noteq> [] then u_scheme u @ '':'' @ n else n);
          q = (if u_query u \<noteq> [] then s @ ''?'' @ u_query u else s)
      in if u_fragment u \<noteq> [] then q @ ''#'' @ u_fragment u else q)"

text \<open>Dot segments: \<open>..\<close> removes the segment before it, if there is one.\<close>

fun resolve_dots :: "string list \<Rightarrow> string list \<Rightarrow> string list" where
  "resolve_dots acc [] = acc"
| "resolve_dots acc (x # xs) =
     resolve_dots (if x = ''..'' then butlast acc else if x = ''.'' then acc else acc @ [x]) xs"

definition merge_segments :: "string \<Rightarrow> string \<Rightarrow> string list" where
  "merge_segments bpath path =
     (if startswith path ''/'' then split_on CHR ''/'' path
      else (let bs = split_on CHR ''/'' bpath; b = (if last bs \<noteq> [] then butlast bs else bs);
                xs = b @ split_on CHR ''/'' path
            in if length xs \<le> 2 then xs
               else [hd xs] @ filter (\<lambda>s. s \<noteq> []) (butlast (tl xs)) @ [last xs]))"

definition resolved_path :: "string \<Rightarrow> string \<Rightarrow> string" where
  "resolved_path bpath path =
     (let segs = merge_segments bpath path; r = resolve_dots [] segs;
          r' = (if last segs = ''.'' \<or> last segs = ''..'' then r @ [[]] else r);
          p = join_with ''/'' r'
      in if p = [] then ''/'' else p)"

definition urljoin :: "string \<Rightarrow> string \<Rightarrow> string option" where
  "urljoin base url =
     (if base = [] then Some url
      else if url = [] then Some base
      else case urlparse base [] of
             None \<Rightarrow> None
           | Some b \<Rightarrow>
             (case urlparse url (u_scheme b) of
                None \<Rightarrow> None
              | Some u \<Rightarrow>
                  if u_scheme u \<noteq> u_scheme b \<or> u_scheme u \<notin> uses_relative then Some url
                  else if u_scheme u \<in> uses_netloc \<and> u_netloc u \<noteq> [] then Some (urlunparse u)
                  else let v = (if u_scheme u \<in> uses_netloc then u\<lparr>u_netloc := u_netloc b\<rparr> else u)
                       in if u_path v = [] \<and> u_params v = []
                          then Some (urlunparse (v\<lparr>u_path := u_path b, u_params := u_params b,
                                 u_query := (if u_query v = [] then u_query b else u_query v)\<rparr>))
                          else Some (urlunparse (v\<lparr>u_path := resolved_path (u_path b) (u_path v)\<rparr>))))"

end
