(* ===== verification/Ssrf.thy ===== *)
theory Ssrf
  imports Url "HOL-Library.Char_ord" "HOL-Library.List_Lexorder"
begin

text \<open>
  The guard against server-side request forgery: \<open>packages/connectors/ssrf.py\<close>. A name is resolved
  with \<open>lookup\<close>, the answer of \<open>getaddrinfo\<close> at that moment; the cache of resolved names is the state
  \<open>pin\<close>, threaded through the calls.
\<close>

section \<open>Constants\<close>

definition BLOCKED_NETWORKS :: "string list" where
  "BLOCKED_NETWORKS =
     [''127.0.0.0/8'', ''10.0.0.0/8'', ''172.16.0.0/12'', ''192.168.0.0/16'', ''169.254.0.0/16'',
      ''0.0.0.0/8'', ''100.64.0.0/10'', ''192.0.2.0/24'', ''198.51.100.0/24'', ''203.0.113.0/24'',
      ''224.0.0.0/4'', ''240.0.0.0/4'', ''255.255.255.255/32'', ''::1/128'', ''fc00::/7'', ''fe80::/10'',
      ''ff00::/8'', ''::ffff:0:0/96'', ''::/128'', ''200::/7'', ''64:ff9b::/96'']"

definition METADATA_HOSTS :: "string list" where
  "METADATA_HOSTS =
     [''169.254.169.254'', ''metadata.google.internal'', ''metadata.google.com'', ''instance-data'']"

definition INTERNAL_HOSTNAMES :: "string list" where
  "INTERNAL_HOSTNAMES = [''host.docker.internal'', ''gateway.docker.internal'']"

definition ALLOWED_SCHEMES :: "string list" where
  "ALLOWED_SCHEMES = [''http'', ''https'']"

definition DNS_PIN_TTL :: time where "DNS_PIN_TTL = seconds 300"

text \<open>
  Errors: the guard's own \<open>SSRFError\<close>, and a \<open>ValueError\<close> that escapes from the parser of the URL or
  from the encoding of a name. The resolver answers with addresses, with \<open>gaierror\<close>, or fails to encode.
\<close>

datatype ssrf_error = SSRFError | PlainValueError

datatype dns_answer = Addresses "string list" | Gai_Error | Encoding_Error

type_synonym dns_pin = "string \<rightharpoonup> string list \<times> time"
type_synonym dns = "string \<Rightarrow> dns_answer"

definition canonical_host :: "string \<Rightarrow> string" where
  "canonical_host h = lower (rstrip_by (\<lambda>c. c = CHR ''.'') h)"

definition is_internal_hostname :: "string \<Rightarrow> bool" where
  "is_internal_hostname host \<longleftrightarrow>
     (let h = canonical_host host
      in h \<in> set INTERNAL_HOSTNAMES \<or> endswith h ''.internal'' \<or> endswith h ''.local'')"

section \<open>Resolution\<close>

definition resolve_all ::
  "dns \<Rightarrow> time \<Rightarrow> bool \<Rightarrow> string \<Rightarrow> dns_pin \<Rightarrow> (ssrf_error + string list) \<times> dns_pin" where
  "resolve_all lookup now use_pin host pin =
     (let h = canonical_host host;
          fresh = (case lookup host of
                     Gai_Error \<Rightarrow> (Inl SSRFError, pin)
                   | Encoding_Error \<Rightarrow> (Inl PlainValueError, pin)
                   | Addresses ips \<Rightarrow>
                       if ips = [] then (Inl SSRFError, pin)
                       else (Inr (sort (remdups ips)), pin(h \<mapsto> (sort (remdups ips), now + DNS_PIN_TTL))))
      in if use_pin
         then (case pin h of
                 Some (ips, expiry) \<Rightarrow> if now < expiry then (Inr ips, pin) else fresh
               | None \<Rightarrow> fresh)
         else fresh)"

definition clear_dns_pin :: "string option \<Rightarrow> dns_pin \<Rightarrow> dns_pin" where
  "clear_dns_pin host pin = (case host of None \<Rightarrow> Map.empty | Some h \<Rightarrow> pin(canonical_host h := None))"

section \<open>Addresses\<close>

definition ip_is_blocked :: "string \<Rightarrow> bool" where
  "ip_is_blocked s =
     (case ip_address s of
        None \<Rightarrow> True
      | Some i \<Rightarrow>
          if s \<in> set METADATA_HOSTS then True
          else if (case i of V6 w \<Rightarrow> ipv4_mapped w \<noteq> None | V4 _ \<Rightarrow> False) then True
          else if is_loopback i \<or> is_link_local i \<or> is_multicast i \<or> is_unspecified i \<or> is_reserved i then True
          else list_ex (in_text_network i) BLOCKED_NETWORKS)"

section \<open>Hosts and URLs\<close>

definition validate_host ::
  "dns \<Rightarrow> time \<Rightarrow> string list option \<Rightarrow> string \<Rightarrow> dns_pin \<Rightarrow> ssrf_error option \<times> dns_pin" where
  "validate_host lookup now allowed raw pin =
     (let host = canonical_host raw; literal = rstrip_by (\<lambda>c. c = CHR ''.'') raw
      in if host = [] then (Some SSRFError, pin)
         else if host \<in> set METADATA_HOSTS then (Some SSRFError, pin)
         else if is_internal_hostname host then (Some SSRFError, pin)
         else if (case allowed of None \<Rightarrow> False | Some hs \<Rightarrow> host \<notin> set (map canonical_host hs))
         then (Some SSRFError, pin)
         else if ip_address literal \<noteq> None
         then (if ip_is_blocked literal then (Some SSRFError, pin) else (None, pin))
         else (case resolve_all lookup now True host pin of
                 (Inl e, pin') \<Rightarrow> (Some e, pin')
               | (Inr ips, pin') \<Rightarrow> (if list_ex ip_is_blocked ips then Some SSRFError else None, pin')))"

definition OPEN_PORTS :: "int list" where "OPEN_PORTS = [80, 443, 8000, 8001, 8002, 3525]"

text \<open>A string option that is set and not empty.\<close>

definition present :: "string option \<Rightarrow> bool" where
  "present s \<longleftrightarrow> s \<noteq> None \<and> s \<noteq> Some []"

definition port_denied :: "string list option \<Rightarrow> int option \<Rightarrow> bool" where
  "port_denied allowed p =
     (case p of
        None \<Rightarrow> False
      | Some n \<Rightarrow> n \<notin> set OPEN_PORTS \<and> allowed \<noteq> None \<and> n \<notin> {80, 443})"

definition validate_url ::
  "dns \<Rightarrow> time \<Rightarrow> string list option \<Rightarrow> string \<Rightarrow> dns_pin \<Rightarrow> (ssrf_error + string) \<times> dns_pin" where
  "validate_url lookup now allowed url pin =
     (case urlparse url [] of
        None \<Rightarrow> (Inl PlainValueError, pin)
      | Some u \<Rightarrow>
          if u_scheme u \<notin> set ALLOWED_SCHEMES then (Inl SSRFError, pin)
          else (case hostname u of
                  None \<Rightarrow> (Inl SSRFError, pin)
                | Some h \<Rightarrow>
                    if present (fst (userinfo u)) \<or> present (snd (userinfo u)) then (Inl SSRFError, pin)
                    else if contains ''unix:'' (lower url) then (Inl SSRFError, pin)
                    else (case url_port u of
                            None \<Rightarrow> (Inl PlainValueError, pin)
                          | Some p \<Rightarrow>
                              if port_denied allowed p then (Inl SSRFError, pin)
                              else (case validate_host lookup now allowed h pin of
                                      (Some e, pin') \<Rightarrow> (Inl e, pin')
                                    | (None, pin') \<Rightarrow> (Inr url, pin')))))"

definition resolve_redirect_url ::
  "dns \<Rightarrow> time \<Rightarrow> string list option \<Rightarrow> string \<Rightarrow> string \<Rightarrow> dns_pin \<Rightarrow> (ssrf_error + string) \<times> dns_pin" where
  "resolve_redirect_url lookup now allowed current location pin =
     (if location = [] then (Inl SSRFError, pin)
      else case urljoin current location of
             None \<Rightarrow> (Inl PlainValueError, pin)
           | Some resolved \<Rightarrow> validate_url lookup now allowed resolved pin)"

section \<open>Which addresses are accepted\<close>

lemmas net_eval = ip_network_def ip_address_def ipv6_of_def partition_at_def ipv6_plain_def ipv6_parts_def
  expand_quad_def values_of_def hextet_def digit_val_def cp_def is_empty_part_def join16_def ipv4_of_def
  octet_def dec_val_def is_digit_def upt_rec mask_eq_exp_minus_1

lemma networks4:
  "ip_network ''127.0.0.0/8'' = Some (N4 0x7F000000 8)" "ip_network ''10.0.0.0/8'' = Some (N4 0x0A000000 8)"
  "ip_network ''172.16.0.0/12'' = Some (N4 0xAC100000 12)" "ip_network ''192.168.0.0/16'' = Some (N4 0xC0A80000 16)"
  "ip_network ''169.254.0.0/16'' = Some (N4 0xA9FE0000 16)" "ip_network ''0.0.0.0/8'' = Some (N4 0 8)"
  "ip_network ''100.64.0.0/10'' = Some (N4 0x64400000 10)" "ip_network ''192.0.2.0/24'' = Some (N4 0xC0000200 24)"
  "ip_network ''198.51.100.0/24'' = Some (N4 0xC6336400 24)" "ip_network ''203.0.113.0/24'' = Some (N4 0xCB007100 24)"
  "ip_network ''224.0.0.0/4'' = Some (N4 0xE0000000 4)" "ip_network ''240.0.0.0/4'' = Some (N4 0xF0000000 4)"
  "ip_network ''255.255.255.255/32'' = Some (N4 0xFFFFFFFF 32)"
  by (simp_all add: net_eval)

lemma networks6:
  "ip_network ''::1/128'' = Some (N6 0x1 128)"
  "ip_network ''fc00::/7'' = Some (N6 0xFC000000000000000000000000000000 7)"
  "ip_network ''fe80::/10'' = Some (N6 0xFE800000000000000000000000000000 10)"
  "ip_network ''ff00::/8'' = Some (N6 0xFF000000000000000000000000000000 8)"
  "ip_network ''::ffff:0:0/96'' = Some (N6 0xFFFF00000000 96)"
  "ip_network ''::/128'' = Some (N6 0 128)"
  "ip_network ''200::/7'' = Some (N6 0x2000000000000000000000000000000 7)"
  "ip_network ''64:ff9b::/96'' = Some (N6 0x64FF9B000000000000000000000000 96)"
  "ip_network ''::/8'' = Some (N6 0 8)"
  "ip_network ''100::/8'' = Some (N6 0x1000000000000000000000000000000 8)"
  "ip_network ''400::/6'' = Some (N6 0x4000000000000000000000000000000 6)"
  "ip_network ''800::/5'' = Some (N6 0x8000000000000000000000000000000 5)"
  "ip_network ''1000::/4'' = Some (N6 0x10000000000000000000000000000000 4)"
  "ip_network ''4000::/3'' = Some (N6 0x40000000000000000000000000000000 3)"
  "ip_network ''6000::/3'' = Some (N6 0x60000000000000000000000000000000 3)"
  "ip_network ''8000::/3'' = Some (N6 0x80000000000000000000000000000000 3)"
  "ip_network ''A000::/3'' = Some (N6 0xA0000000000000000000000000000000 3)"
  "ip_network ''C000::/3'' = Some (N6 0xC0000000000000000000000000000000 3)"
  "ip_network ''E000::/4'' = Some (N6 0xE0000000000000000000000000000000 4)"
  "ip_network ''F000::/5'' = Some (N6 0xF0000000000000000000000000000000 5)"
  "ip_network ''F800::/6'' = Some (N6 0xF8000000000000000000000000000000 6)"
  "ip_network ''FE00::/9'' = Some (N6 0xFE000000000000000000000000000000 9)"
  by (simp_all add: net_eval)

lemma high_bits:
  fixes w :: "'a::len word"
  shows "w AND push_bit k (- 1) = push_bit k (drop_bit k w)"
  by (rule bit_eqI) (auto simp: bit_simps)

lemma prefix_iff:
  fixes w a :: "'a::len word"
  assumes "a AND NOT (mask k) = a"
  shows "w AND NOT (mask k) = a \<longleftrightarrow> unat w div 2 ^ k = unat a div 2 ^ k"
proof -
  have h: "w AND NOT (mask k) = push_bit k (drop_bit k w)" for w :: "'a word"
    using high_bits [of w k] by simp
  have "drop_bit k (push_bit k (drop_bit k w)) = drop_bit k w" for w :: "'a word"
    by (rule bit_eqI) (auto simp: bit_simps dest: bit_imp_le_length)
  then have "w AND NOT (mask k) = a \<longleftrightarrow> drop_bit k w = drop_bit k a"
    using assms unfolding h by metis
  also have "\<dots> \<longleftrightarrow> unat w div 2 ^ k = unat a div 2 ^ k"
    by (simp only: word_unat_eq_iff unat_drop_bit_eq) (simp only: drop_bit_eq_div)
  finally show ?thesis .
qed

lemma unat_high [simp]:
  fixes w :: "'a::len word"
  shows "unat (w AND NOT (mask k)) div 2 ^ k = unat w div 2 ^ k"
  using prefix_iff [of "w AND NOT (mask k)" k w] by (simp add: and.assoc)

lemma network_text:
  "ip_network s = Some (N4 a n) \<Longrightarrow> in_text_network (V4 w) s \<longleftrightarrow> unat w div 2 ^ (32 - n) = unat a div 2 ^ (32 - n)"
  "ip_network s = Some (N6 b n) \<Longrightarrow> in_text_network (V6 v) s \<longleftrightarrow> unat v div 2 ^ (128 - n) = unat b div 2 ^ (128 - n)"
  "ip_network s = Some (N4 a n) \<Longrightarrow> \<not> in_text_network (V6 v) s"
  "ip_network s = Some (N6 b n) \<Longrightarrow> \<not> in_text_network (V4 w) s"
  by (auto simp: in_text_network_def ip_network_def Let_def split: option.splits ip.splits if_splits prod.splits
      dest: prefix_iff [THEN iffD1, rotated] prefix_iff [THEN iffD2, rotated])

text \<open>A prefix of an address is an interval of numbers.\<close>

definition between :: "nat \<Rightarrow> nat \<Rightarrow> nat \<Rightarrow> bool" where
  "between a b n \<longleftrightarrow> a \<le> n \<and> n < b"

lemma div_between: "0 < k \<Longrightarrow> n div k = c \<longleftrightarrow> between (c * k) ((c + 1) * k) n"
proof -
  assume k: "0 < k"
  have "n div k = c \<longleftrightarrow> c \<le> n div k \<and> n div k < c + 1" by auto
  then show ?thesis
    unfolding between_def using less_eq_div_iff_mult_less_eq [OF k, of c n] div_less_iff_less_mult [OF k, of n "c + 1"]
    by blast
qed

lemma between_merge:
  "a \<le> b \<Longrightarrow> b \<le> c \<Longrightarrow> (between a b n \<or> between b c n) \<longleftrightarrow> between a c n"
  "a \<le> b \<Longrightarrow> b \<le> c \<Longrightarrow> (between a b n \<or> between b c n \<or> P) \<longleftrightarrow> between a c n \<or> P"
  by (auto simp: between_def)

lemmas in_networks = networks4 [THEN network_text(1)] networks4 [THEN network_text(3)]
  networks6 [THEN network_text(2)] networks6 [THEN network_text(4)]

lemma reserved_between:
  "is_reserved (V6 w) \<longleftrightarrow> between 0 (0x2000 * 2 ^ 112) (unat w) \<or> between (0x4000 * 2 ^ 112) (0xFC00 * 2 ^ 112) (unat w) \<or>
     between (0xFE00 * 2 ^ 112) (0xFE80 * 2 ^ 112) (unat w)"
  by (simp add: RESERVED6_def in_networks div_between between_merge)

lemma metadata_names:
  "ip_address ''metadata.google.internal'' = None" "ip_address ''metadata.google.com'' = None"
  "ip_address ''instance-data'' = None" "ip_address ''169.254.169.254'' = Some (V4 0xA9FEA9FE)"
  by (simp_all add: net_eval)

text \<open>The reference: the ranges of IPv4 that are not public, first and last address.\<close>

definition quad :: "nat \<Rightarrow> nat \<Rightarrow> nat \<Rightarrow> nat \<Rightarrow> nat" where
  "quad a b c d = ((a * 256 + b) * 256 + c) * 256 + d"

definition SPECIAL4 :: "(nat \<times> nat) list" where
  "SPECIAL4 =
     [(quad 0 0 0 0, quad 0 255 255 255), (quad 10 0 0 0, quad 10 255 255 255),
      (quad 100 64 0 0, quad 100 127 255 255), (quad 127 0 0 0, quad 127 255 255 255),
      (quad 169 254 0 0, quad 169 254 255 255), (quad 172 16 0 0, quad 172 31 255 255),
      (quad 192 0 2 0, quad 192 0 2 255), (quad 192 168 0 0, quad 192 168 255 255),
      (quad 198 51 100 0, quad 198 51 100 255), (quad 203 0 113 0, quad 203 0 113 255),
      (quad 224 0 0 0, quad 255 255 255 255)]"

lemma between_closed: "between a (Suc b) n \<longleftrightarrow> a \<le> n \<and> n \<le> b"
  by (auto simp: between_def)

lemma blocked4:
  assumes a: "ip_address s = Some (V4 w)"
  shows "ip_is_blocked s \<longleftrightarrow> list_ex (\<lambda>(lo, hi). lo \<le> unat w \<and> unat w \<le> hi) SPECIAL4"
proof -
  let ?n = "unat w"
  have z: "w = 0 \<Longrightarrow> between 0 16777216 ?n" by (simp add: between_def)
  have m: "s \<in> set METADATA_HOSTS \<Longrightarrow> between 2851995648 2852061184 ?n"
    using a by (auto simp: METADATA_HOSTS_def metadata_names between_def)
  have e: "between 3758096384 4294967296 ?n \<longleftrightarrow> between 3758096384 4026531840 ?n \<or> between 4026531840 4294967296 ?n"
      "\<not> between 4026531840 4294967296 ?n \<Longrightarrow> ?n \<noteq> 4294967295"
    by (auto simp: between_def)
  have "ip_is_blocked s \<longleftrightarrow> list_ex (\<lambda>(lo, hi). between lo (Suc hi) ?n) SPECIAL4"
    using a m z e(2)
    by (simp add: ip_is_blocked_def BLOCKED_NETWORKS_def in_networks div_between SPECIAL4_def quad_def e(1))
      blast
  then show ?thesis by (simp add: between_closed)
qed

lemma mapped_between:
  assumes "ipv4_mapped w \<noteq> None"
  shows "between 0 (0x2000 * 2 ^ 112) (unat w)"
proof -
  have "drop_bit 32 w = 0xFFFF" using assms by (simp add: ipv4_mapped_def split: if_splits)
  then have "unat (drop_bit 32 w) = unat (0xFFFF :: 128 word)" by (rule arg_cong)
  then have "drop_bit 32 (unat w) = 0xFFFF" by (simp only: unat_drop_bit_eq) simp
  then have "unat w div 2 ^ 32 = 0xFFFF" by (simp only: drop_bit_eq_div)
  then show ?thesis by (simp add: div_between) (simp add: between_def)
qed

lemma blocked6:
  assumes a: "ip_address s = Some (V6 w)"
  shows "ip_is_blocked s \<longleftrightarrow> \<not> (let h = unat w div 2 ^ 112 in
      0x2000 \<le> h \<and> h \<le> 0x3FFF \<or> 0xFEC0 \<le> h \<and> h \<le> 0xFEFF)"
proof -
  let ?n = "unat w"
  have m: "s \<notin> set METADATA_HOSTS" using a by (auto simp: METADATA_HOSTS_def metadata_names)
  have small: "w = 0 \<Longrightarrow> between 0 (0x2000 * 2 ^ 112) ?n" "w = 1 \<Longrightarrow> between 0 (0x2000 * 2 ^ 112) ?n"
    by (simp_all add: between_def)
  have h: "0x2000 \<le> ?n div 2 ^ 112 \<and> ?n div 2 ^ 112 \<le> 0x3FFF \<longleftrightarrow> between (0x2000 * 2 ^ 112) (0x4000 * 2 ^ 112) ?n"
    "0xFEC0 \<le> ?n div 2 ^ 112 \<and> ?n div 2 ^ 112 \<le> 0xFEFF \<longleftrightarrow> between (0xFEC0 * 2 ^ 112) (0xFF00 * 2 ^ 112) ?n"
    by (auto simp: between_def)
  have lt: "?n < 0x10000 * 2 ^ 112" using unsigned_less [of w, where ?'a = nat] by simp
  show ?thesis
    using a m small mapped_between [of w] lt unfolding Let_def h
    by (simp add: ip_is_blocked_def BLOCKED_NETWORKS_def in_networks div_between reserved_between
        del: is_reserved.simps) (auto simp: between_def)
qed

text \<open>
  C15: the address filter agrees with the ranges of the internet. An address is let through exactly
  when it is well-formed and either an IPv4 address outside the private, loopback, link-local, shared,
  documentation, multicast and reserved ranges, or an IPv6 address in \<open>2000::/3\<close> or in
  \<open>fec0::/10\<close>; in particular every mapped and every unspecified address is refused.
\<close>

theorem accepted_addresses:
  "\<not> ip_is_blocked s \<longleftrightarrow>
     (case ip_address s of
        None \<Rightarrow> False
      | Some (V4 w) \<Rightarrow> list_all (\<lambda>(lo, hi). unat w < lo \<or> hi < unat w) SPECIAL4
      | Some (V6 w) \<Rightarrow> (let h = unat w div 2 ^ 112 in 0x2000 \<le> h \<and> h \<le> 0x3FFF \<or> 0xFEC0 \<le> h \<and> h \<le> 0xFEFF))"
proof (cases "ip_address s")
  case None
  then show ?thesis by (simp add: ip_is_blocked_def)
next
  case (Some i)
  then show ?thesis
    by (cases i) (auto simp: blocked4 blocked6 list_all_iff list_ex_iff not_le)
qed

section \<open>What a validated URL guarantees\<close>

lemma to_lower_idem [simp]: "to_lower (to_lower c) = to_lower c"
proof -
  have "cp (to_lower c) = (if (65 \<le> cp c \<and> cp c \<le> 90) \<or> (192 \<le> cp c \<and> cp c \<le> 222 \<and> cp c \<noteq> 215)
      then cp c + 32 else cp c)"
    by (auto simp: to_lower_def) (auto simp: cp_def)
  then have "\<not> ((65 \<le> cp (to_lower c) \<and> cp (to_lower c) \<le> 90) \<or>
      (192 \<le> cp (to_lower c) \<and> cp (to_lower c) \<le> 222 \<and> cp (to_lower c) \<noteq> 215))"
    by auto
  then show ?thesis unfolding to_lower_def [of "to_lower c"] by (rule if_not_P)
qed

lemma to_lower_dot: "to_lower c = CHR ''.'' \<longleftrightarrow> c = CHR ''.''"
proof -
  have "to_lower CHR ''.'' = CHR ''.''" by (simp add: to_lower_def cp_def)
  moreover have "cp (to_lower c) = cp CHR ''.'' \<Longrightarrow> cp c = cp CHR ''.''"
    by (auto simp: to_lower_def split: if_splits) (auto simp: cp_def)
  ultimately show ?thesis using cp_inject by metis
qed

lemma canonical_host_idem [simp]: "canonical_host (canonical_host h) = canonical_host h"
proof -
  have "rstrip_by (\<lambda>c. c = CHR ''.'') (lower s) = lower (rstrip_by (\<lambda>c. c = CHR ''.'') s)" for s
    by (simp add: rstrip_by_def lower_def rev_map dropWhile_map comp_def to_lower_dot)
  moreover have "rstrip_by p (rstrip_by p s) = rstrip_by p s" for p :: "char \<Rightarrow> bool" and s
    by (simp add: rstrip_by_def)
  ultimately show ?thesis by (simp add: canonical_host_def lower_def comp_def)
qed

text \<open>The properties of a host that passed: what was accepted at time \<open>now\<close> under the cache \<open>pin\<close>.\<close>

definition host_cleared :: "time \<Rightarrow> string list option \<Rightarrow> string \<Rightarrow> dns_pin \<Rightarrow> bool" where
  "host_cleared now allowed h pin \<longleftrightarrow>
     canonical_host h \<notin> set METADATA_HOSTS \<and> \<not> is_internal_hostname (canonical_host h) \<and>
     (\<forall>hs. allowed = Some hs \<longrightarrow> canonical_host h \<in> set (map canonical_host hs)) \<and>
     (if ip_address (rstrip_by (\<lambda>c. c = CHR ''.'') h) \<noteq> None
      then \<not> ip_is_blocked (rstrip_by (\<lambda>c. c = CHR ''.'') h)
      else \<exists>ips e. pin (canonical_host h) = Some (ips, e) \<and> now < e \<and> list_all (\<lambda>i. \<not> ip_is_blocked i) ips)"

lemma resolve_pins:
  "resolve_all lookup now True host pin = (Inr ips, pin') \<Longrightarrow>
     \<exists>e. pin' (canonical_host host) = Some (ips, e) \<and> now < e"
  by (auto simp: resolve_all_def DNS_PIN_TTL_def seconds_def Let_def
      split: dns_answer.splits if_splits option.splits prod.splits)

lemma validate_host_cleared:
  "validate_host lookup now allowed h pin = (None, pin') \<Longrightarrow> host_cleared now allowed h pin'"
  by (auto simp: validate_host_def host_cleared_def Let_def list_all_iff list_ex_iff
      split: if_splits prod.splits sum.splits option.splits dest!: resolve_pins)

definition url_cleared :: "time \<Rightarrow> string list option \<Rightarrow> string \<Rightarrow> dns_pin \<Rightarrow> bool" where
  "url_cleared now allowed url pin \<longleftrightarrow>
     (case urlparse url [] of
        None \<Rightarrow> False
      | Some u \<Rightarrow>
          u_scheme u \<in> {''http'', ''https''} \<and>
          \<not> present (fst (userinfo u)) \<and> \<not> present (snd (userinfo u)) \<and>
          (allowed \<noteq> None \<longrightarrow> url_port u \<in> Some ` ({None} \<union> Some ` {80, 443, 8000, 8001, 8002, 3525})) \<and>
          (\<exists>h. hostname u = Some h \<and> host_cleared now allowed h pin))"

lemma validate_url_cleared:
  "validate_url lookup now allowed url pin = (Inr v, pin') \<Longrightarrow> v = url \<and> url_cleared now allowed url pin'"
  by (auto simp: validate_url_def url_cleared_def ALLOWED_SCHEMES_def port_denied_def OPEN_PORTS_def
      split: if_splits prod.splits sum.splits option.splits dest!: validate_host_cleared)

end
