(* ===== verification/Http.thy ===== *)
theory Http
  imports Ssrf
begin

text \<open>
  The HTTP connectors: \<open>packages/connectors/http_json.py\<close>, \<open>github.py\<close> and \<open>internal_health.py\<close>. The
  network is an argument: \<open>net i url\<close> is what the \<open>i\<close>-th request of a call, to \<open>url\<close>, is answered.
  A call returns its result and the list of the URLs it has sent a request to. The body of a response
  is the list of the chunks it is streamed in; \<open>json.loads\<close> and the decoding of UTF-8 with replacement
  are arguments.
\<close>

record response =
  rs_status :: int
  rs_headers :: "string \<rightharpoonup> string"
  rs_chunks :: "string list"

datatype http_failure =
    Guarded ssrf_error | TooManyRedirects | BodyTooLarge | StatusError int | ContentTypeDenied string
  | JsonParseError | JsonOtherError | TransportError | RepoFormat | NotExpectedShape

datatype loads_error = JSONDecodeError | LoadsValueError

type_synonym loads = "string \<Rightarrow> loads_error + pyval"

section \<open>The JSON connector\<close>

definition ALLOWED_CONTENT_TYPES :: "string list" where
  "ALLOWED_CONTENT_TYPES = [''application/json'', ''application/vnd.api+json'', ''application/ld+json'']"

definition TEXT_FALLBACK_TYPES :: "string list" where
  "TEXT_FALLBACK_TYPES = [''text/plain'', ''text/markdown'', ''text/x-markdown'', ''application/octet-stream'']"

record connector =
  cn_allowed :: "string list option"
  cn_max_bytes :: int
  cn_max_redirects :: int

definition content_type :: "response \<Rightarrow> string" where
  "content_type r =
     (let h = (case rs_headers r ''content-type'' of None \<Rightarrow> [] | Some v \<Rightarrow> v)
      in lower (strip (hd (split_on CHR '';'' h))))"

definition redirects_to :: "response \<Rightarrow> string option" where
  "redirects_to r = (if rs_status r \<in> {301, 302, 303, 307, 308} then rs_headers r ''location'' else None)"

text \<open>The early check of \<open>Content-Length\<close>: a value that is not a number is ignored.\<close>

definition announced_too_large :: "int \<Rightarrow> response \<Rightarrow> bool" where
  "announced_too_large limit r =
     (case rs_headers r ''content-length'' of
        None \<Rightarrow> False
      | Some v \<Rightarrow> (case py_int 10 v of None \<Rightarrow> False | Some n \<Rightarrow> limit < n))"

definition status_ok :: "response \<Rightarrow> bool" where
  "status_ok r \<longleftrightarrow> 200 \<le> rs_status r \<and> rs_status r \<le> 299"

text \<open>The streaming loop: \<open>None\<close> as soon as the sum of the chunks exceeds the limit.\<close>

fun read_body :: "int \<Rightarrow> int \<Rightarrow> string list \<Rightarrow> string \<Rightarrow> string option" where
  "read_body limit got [] acc = Some acc"
| "read_body limit got (c # cs) acc =
     (if limit < got + int (length c) then None
      else read_body limit (got + int (length c)) cs (acc @ c))"

definition text_answer :: "(string \<Rightarrow> string) \<Rightarrow> string \<Rightarrow> string \<Rightarrow> pyval" where
  "text_answer decode body ctype =
     PDict [(''text'', PStr (take 5000 (decode body))), (''content_type'', PStr ctype)]"

definition parse_body ::
  "loads \<Rightarrow> (string \<Rightarrow> string) \<Rightarrow> string \<Rightarrow> string \<Rightarrow> http_failure + pyval" where
  "parse_body loads decode ctype body =
     (let is_json = (ctype \<in> set ALLOWED_CONTENT_TYPES \<or> contains ''json'' ctype);
          is_text = (ctype \<in> set TEXT_FALLBACK_TYPES)
      in if body = [] then Inr (PDict [])
         else if \<not> is_json \<and> is_text then Inr (text_answer decode body ctype)
         else if \<not> is_json \<and> \<not> is_text then Inl (ContentTypeDenied ctype)
         else (case loads body of
                 Inr v \<Rightarrow> Inr v
               | Inl JSONDecodeError \<Rightarrow>
                   if is_text then Inr (text_answer decode body ctype) else Inl JsonParseError
               | Inl LoadsValueError \<Rightarrow> Inl JsonOtherError))"

definition receive ::
  "connector \<Rightarrow> loads \<Rightarrow> (string \<Rightarrow> string) \<Rightarrow> response \<Rightarrow> http_failure + pyval" where
  "receive cn loads decode r =
     (if announced_too_large (cn_max_bytes cn) r then Inl BodyTooLarge
      else if \<not> status_ok r then Inl (StatusError (rs_status r))
      else (case read_body (cn_max_bytes cn) 0 (rs_chunks r) [] of
              None \<Rightarrow> Inl BodyTooLarge
            | Some body \<Rightarrow> parse_body loads decode (content_type r) body))"

text \<open>
  What the outside world does during a call: the resolver and the clock at the \<open>i\<close>-th validation, and
  the answer to the \<open>i\<close>-th request.
\<close>

record world =
  w_dns :: "nat \<Rightarrow> dns"
  w_now :: "nat \<Rightarrow> time"
  w_net :: "nat \<Rightarrow> string \<Rightarrow> unit + response"

text \<open>
  The loop of \<open>get_json\<close>: the \<open>i\<close>-th round validates \<open>current\<close>, requests it, and either follows the
  redirect, whose target is validated as well, or receives the answer.
\<close>

function fetch_loop ::
  "connector \<Rightarrow> loads \<Rightarrow> (string \<Rightarrow> string) \<Rightarrow> world \<Rightarrow> nat \<Rightarrow> int \<Rightarrow> string \<Rightarrow> dns_pin \<Rightarrow>
   (http_failure + pyval) \<times> string list \<times> dns_pin" where
  "fetch_loop cn loads decode w i redirects current pin =
     (case validate_url (w_dns w (2 * i)) (w_now w (2 * i)) (cn_allowed cn) current pin of
        (Inl e, pin1) \<Rightarrow> (Inl (Guarded e), [], pin1)
      | (Inr _, pin1) \<Rightarrow>
          (case w_net w i current of
             Inl _ \<Rightarrow> (Inl TransportError, [current], pin1)
           | Inr r \<Rightarrow>
               (case redirects_to r of
                  None \<Rightarrow> (receive cn loads decode r, [current], pin1)
                | Some location \<Rightarrow>
                    if cn_max_redirects cn < redirects + 1 then (Inl TooManyRedirects, [current], pin1)
                    else (case resolve_redirect_url (w_dns w (2 * i + 1)) (w_now w (2 * i + 1))
                                 (cn_allowed cn) current location pin1 of
                            (Inl e, pin2) \<Rightarrow> (Inl (Guarded e), [current], pin2)
                          | (Inr target, pin2) \<Rightarrow>
                              (let (res, sent, pin3) =
                                 fetch_loop cn loads decode w (Suc i) (redirects + 1) target pin2
                               in (res, current # sent, pin3))))))"
  by pat_completeness auto
termination
  by (relation "measure (\<lambda>(cn, loads, decode, w, i, redirects, current, pin). nat (cn_max_redirects cn - redirects))")
    auto

declare fetch_loop.simps [simp del]

definition get_json ::
  "connector \<Rightarrow> loads \<Rightarrow> (string \<Rightarrow> string) \<Rightarrow> dns \<Rightarrow> time \<Rightarrow> world \<Rightarrow> string \<Rightarrow> dns_pin \<Rightarrow>
   (http_failure + pyval) \<times> string list \<times> dns_pin" where
  "get_json cn loads decode dns now w url pin =
     (case validate_url dns now (cn_allowed cn) url pin of
        (Inl e, pin') \<Rightarrow> (Inl (Guarded e), [], pin')
      | (Inr _, pin') \<Rightarrow> fetch_loop cn loads decode w 0 0 url pin')"

section \<open>The GitHub connector\<close>

definition GITHUB_CT :: "string list" where
  "GITHUB_CT = [''application/json'', ''application/vnd.github+json'', ''application/vnd.github.v3+json'']"

text \<open>
  A rate-limited answer that is retried: the delay is at most 30 seconds; \<open>delay_of\<close> is \<open>float\<close> on the
  header. (Delays are in seconds.)
\<close>

definition rate_limited :: "response \<Rightarrow> bool" where
  "rate_limited r \<longleftrightarrow>
     ((rs_status r \<in> {429, 403} \<and> rs_headers r ''retry-after'' \<noteq> None) \<or>
      rs_headers r ''x-ratelimit-remaining'' \<noteq> None) \<and>
     (rs_headers r ''x-ratelimit-remaining'' = Some ''0'' \<or> rs_status r = 429)"

definition retry_delay :: "(string \<Rightarrow> rat option) \<Rightarrow> response \<Rightarrow> rat" where
  "retry_delay delay_of r =
     (let h = (case rs_headers r ''retry-after'' of None \<Rightarrow> ''2'' | Some v \<Rightarrow> v);
          d = (case delay_of h of None \<Rightarrow> 2 | Some d \<Rightarrow> d)
      in min d 30)"

definition github_receive :: "int \<Rightarrow> loads \<Rightarrow> response \<Rightarrow> http_failure + pyval" where
  "github_receive max_bytes loads r =
     (let ctype = content_type r
      in if ctype \<noteq> [] \<and> ctype \<notin> set GITHUB_CT \<and> \<not> contains ''json'' ctype then Inl (ContentTypeDenied ctype)
         else if announced_too_large max_bytes r then Inl BodyTooLarge
         else if \<not> status_ok r then Inl (StatusError (rs_status r))
         else (case read_body max_bytes 0 (rs_chunks r) [] of
                 None \<Rightarrow> Inl BodyTooLarge
               | Some body \<Rightarrow>
                   if body = [] then Inr (PDict [])
                   else (case loads body of
                           Inr v \<Rightarrow> Inr v
                         | Inl JSONDecodeError \<Rightarrow> Inl JsonParseError
                         | Inl LoadsValueError \<Rightarrow> Inl JsonOtherError)))"

text \<open>
  The attempts, from number \<open>a\<close> on with \<open>left\<close> more allowed after it; the sleeps between them are
  returned with the result.
\<close>

fun github_attempts ::
  "int \<Rightarrow> loads \<Rightarrow> (string \<Rightarrow> rat option) \<Rightarrow> (nat \<Rightarrow> unit + response) \<Rightarrow> nat \<Rightarrow> nat \<Rightarrow>
   (http_failure + pyval) \<times> rat list" where
  "github_attempts max_bytes loads delay_of net a 0 =
     (case net a of
        Inl _ \<Rightarrow> (Inl TransportError, [])
      | Inr r \<Rightarrow> (github_receive max_bytes loads r, []))"
| "github_attempts max_bytes loads delay_of net a (Suc left) =
     (case net a of
        Inl _ \<Rightarrow>
          (let (res, ds) = github_attempts max_bytes loads delay_of net (Suc a) left in (res, (1 / 2) * 2 ^ a # ds))
      | Inr r \<Rightarrow>
          if rate_limited r
          then (let (res, ds) = github_attempts max_bytes loads delay_of net (Suc a) left
                in (res, retry_delay delay_of r # ds))
          else (github_receive max_bytes loads r, []))"

definition github_get ::
  "dns \<Rightarrow> time \<Rightarrow> int \<Rightarrow> nat \<Rightarrow> loads \<Rightarrow> (string \<Rightarrow> rat option) \<Rightarrow> (nat \<Rightarrow> unit + response) \<Rightarrow> dns_pin \<Rightarrow>
   (http_failure + pyval) \<times> rat list \<times> dns_pin" where
  "github_get dns now max_bytes max_retries loads delay_of net pin =
     (case validate_host dns now None ''api.github.com'' pin of
        (Some e, pin') \<Rightarrow> (Inl (Guarded e), [], pin')
      | (None, pin') \<Rightarrow>
          (let (res, ds) = github_attempts max_bytes loads delay_of net 0 max_retries in (res, ds, pin')))"

text \<open>\<open>repo_activity\<close> and \<open>recent_releases\<close>: the URL, then the fields that are passed on.\<close>

definition strip_slashes :: "string \<Rightarrow> string" where
  "strip_slashes s = rstrip_by (\<lambda>c. c = CHR ''/'') (lstrip_by (\<lambda>c. c = CHR ''/'') s)"

definition repo_url :: "string \<Rightarrow> string option" where
  "repo_url repo =
     (case split_on CHR ''/'' (strip_slashes repo) of
        owner # name # _ \<Rightarrow> Some (''https://api.github.com/repos/'' @ owner @ ''/'' @ name)
      | _ \<Rightarrow> None)"

definition activity_of :: "pyval \<Rightarrow> http_failure + pydict" where
  "activity_of v =
     (case v of
        PDict d \<Rightarrow> Inr (map (\<lambda>(k, f). (k, dget d f PNone))
          [(''full_name'', ''full_name''), (''pushed_at'', ''pushed_at''), (''updated_at'', ''updated_at''),
           (''open_issues'', ''open_issues_count''), (''default_branch'', ''default_branch''),
           (''html_url'', ''html_url'')])
      | _ \<Rightarrow> Inl NotExpectedShape)"

definition repo_activity ::
  "dns \<Rightarrow> time \<Rightarrow> int \<Rightarrow> nat \<Rightarrow> loads \<Rightarrow> (string \<Rightarrow> rat option) \<Rightarrow> (string \<Rightarrow> nat \<Rightarrow> unit + response) \<Rightarrow>
   string \<Rightarrow> dns_pin \<Rightarrow> (http_failure + pydict) \<times> dns_pin" where
  "repo_activity dns now max_bytes max_retries loads delay_of net repo pin =
     (case validate_host dns now None ''api.github.com'' pin of
        (Some e, pin1) \<Rightarrow> (Inl (Guarded e), pin1)
      | (None, pin1) \<Rightarrow>
          (case repo_url repo of
             None \<Rightarrow> (Inl RepoFormat, pin1)
           | Some url \<Rightarrow>
               (case github_get dns now max_bytes max_retries loads delay_of (net url) pin1 of
                  (Inl e, _, pin2) \<Rightarrow> (Inl e, pin2)
                | (Inr v, _, pin2) \<Rightarrow> (activity_of v, pin2))))"

text \<open>
  The releases: an answer that is no list fails an assertion, an entry that is no object an attribute access;
  both are \<open>NotExpectedShape\<close> here. The number of entries per page is a parameter of the request only.
\<close>

definition release_of :: "pyval \<Rightarrow> pydict option" where
  "release_of v =
     (case v of
        PDict d \<Rightarrow> Some (map (\<lambda>k. (k, dget d k PNone)) [''tag_name'', ''published_at'', ''name''])
      | _ \<Rightarrow> None)"

fun releases_of :: "pyval list \<Rightarrow> pydict list option" where
  "releases_of [] = Some []"
| "releases_of (v # vs) =
     (case (release_of v, releases_of vs) of (Some d, Some ds) \<Rightarrow> Some (d # ds) | _ \<Rightarrow> None)"

definition recent_releases ::
  "dns \<Rightarrow> time \<Rightarrow> int \<Rightarrow> nat \<Rightarrow> loads \<Rightarrow> (string \<Rightarrow> rat option) \<Rightarrow> (string \<Rightarrow> nat \<Rightarrow> unit + response) \<Rightarrow>
   string \<Rightarrow> dns_pin \<Rightarrow> (http_failure + pydict list) \<times> dns_pin" where
  "recent_releases dns now max_bytes max_retries loads delay_of net repo pin =
     (case validate_host dns now None ''api.github.com'' pin of
        (Some e, pin1) \<Rightarrow> (Inl (Guarded e), pin1)
      | (None, pin1) \<Rightarrow>
          (case repo_url repo of
             None \<Rightarrow> (Inl RepoFormat, pin1)
           | Some url \<Rightarrow>
               (case github_get dns now max_bytes max_retries loads delay_of (net (url @ ''/releases'')) pin1 of
                  (Inl e, _, pin2) \<Rightarrow> (Inl e, pin2)
                | (Inr (PList vs), _, pin2) \<Rightarrow>
                    (case releases_of vs of None \<Rightarrow> (Inl NotExpectedShape, pin2) | Some ds \<Rightarrow> (Inr ds, pin2))
                | (Inr _, _, pin2) \<Rightarrow> (Inl NotExpectedShape, pin2))))"

section \<open>Internal health\<close>

text \<open>The check of the containers: a URL is probed, a service without a URL is only noted.\<close>

definition default_urls :: "(string \<times> string) list" where
  "default_urls =
     [(''api'', ''http://lumi-api:8000/health/live''), (''worker'', ''http://lumi-worker:8001/health/live''),
      (''scheduler'', ''http://lumi-scheduler:8002/health/live'')]"

definition probe :: "(string \<Rightarrow> string + int) \<Rightarrow> string \<Rightarrow> pydict" where
  "probe get url =
     (case get url of
        Inr status \<Rightarrow> [(''reachable'', PBool (status = 200)), (''http'', PInt status)]
      | Inl err \<Rightarrow> [(''reachable'', PBool False), (''error'', PStr err)])"

definition health_check :: "(string \<Rightarrow> string + int) \<Rightarrow> (string \<times> string) list \<Rightarrow> (string \<times> pydict) list" where
  "health_check get base_urls =
     (let urls = (if base_urls = [] then default_urls else base_urls);
          services = dset ''redis'' None (dset ''postgres'' None (map (\<lambda>(n, u). (n, Some u)) urls))
      in map (\<lambda>(n, u). (n, case u of
           None \<Rightarrow> [(''reachable'', PBool False), (''note'', PStr ''api /health/ready uzerinden dogrulanir'')]
         | Some url \<Rightarrow> probe get url)) services)"

definition check_local :: "(string \<Rightarrow> string + int) \<Rightarrow> (string \<times> pydict) list" where
  "check_local get = [(''self'', probe get ''http://127.0.0.1:8000/health/live'')]"

section \<open>What a call can do\<close>

lemma read_body_bound: "read_body limit got cs acc = Some b \<Longrightarrow> got = int (length acc) \<Longrightarrow> got \<le> limit \<Longrightarrow>
    b = acc @ concat cs \<and> int (length b) \<le> limit"
  by (induction limit got cs acc rule: read_body.induct) (auto split: if_splits)

lemma receive_bound:
  assumes "receive cn loads decode r = Inr v" and "0 \<le> cn_max_bytes cn"
  shows "status_ok r \<and> int (length (concat (rs_chunks r))) \<le> cn_max_bytes cn \<and>
    parse_body loads decode (content_type r) (concat (rs_chunks r)) = Inr v"
  using assms read_body_bound [of "cn_max_bytes cn" 0 "rs_chunks r" "[]"]
  by (auto simp: receive_def split: if_splits option.splits)

text \<open>The \<open>k\<close>-th request of a call was cleared by the validation before it.\<close>

definition cleared_at :: "connector \<Rightarrow> world \<Rightarrow> nat \<Rightarrow> string \<Rightarrow> bool" where
  "cleared_at cn w k u \<longleftrightarrow> (\<exists>p0 p. validate_url (w_dns w (2 * k)) (w_now w (2 * k)) (cn_allowed cn) u p0 = (Inr u, p) \<and>
     url_cleared (w_now w (2 * k)) (cn_allowed cn) u p)"

lemma cleared_atI:
  "validate_url (w_dns w (2 * k)) (w_now w (2 * k)) (cn_allowed cn) u p0 = (Inr v, p) \<Longrightarrow> cleared_at cn w k u"
  using validate_url_cleared unfolding cleared_at_def by blast

lemma fetch_loop_cases:
  assumes "fetch_loop cn loads decode w i red current pin = (res, sent, pin')"
  shows "(sent = [] \<and> (\<exists>e. res = Inl e)) \<or>
    cleared_at cn w i current \<and>
      (sent = [current] \<and> (case res of Inl e \<Rightarrow> True | Inr v \<Rightarrow> (\<exists>r. w_net w i current = Inr r \<and> receive cn loads decode r = Inr v)) \<or>
       (\<exists>target p sent'. red < cn_max_redirects cn \<and> sent = current # sent' \<and>
          fetch_loop cn loads decode w (Suc i) (red + 1) target p = (res, sent', pin')))"
  using assms
  by (subst (asm) fetch_loop.simps)
    (auto split: sum.splits option.splits prod.splits if_splits dest: cleared_atI)

lemma fetch_loop_cleared:
  "fetch_loop cn loads decode w i red current pin = (res, sent, pin') \<Longrightarrow>
     (\<forall>j < length sent. cleared_at cn w (i + j) (sent ! j)) \<and>
     int (length sent) \<le> max 0 (cn_max_redirects cn - red) + 1 \<and>
     (\<forall>v. res = Inr v \<longrightarrow> (\<exists>r. sent \<noteq> [] \<and> w_net w (i + length sent - 1) (last sent) = Inr r \<and>
        receive cn loads decode r = Inr v))"
proof (induction "nat (cn_max_redirects cn - red)" arbitrary: i red current pin sent)
  case 0
  then show ?case
    using fetch_loop_cases [OF "0.prems"] by (auto split: sum.splits)
next
  case (Suc n)
  show ?case
  proof (cases "\<exists>target p sent'. red < cn_max_redirects cn \<and> sent = current # sent' \<and> cleared_at cn w i current \<and>
      fetch_loop cn loads decode w (Suc i) (red + 1) target p = (res, sent', pin')")
    case False
    then show ?thesis using fetch_loop_cases [OF Suc.prems] by (auto split: sum.splits)
  next
    case True
    then obtain target p sent' where t: "sent = current # sent'" "cleared_at cn w i current"
        "fetch_loop cn loads decode w (Suc i) (red + 1) target p = (res, sent', pin')"
      by blast
    have "n = nat (cn_max_redirects cn - (red + 1))" using Suc.hyps(2) by simp
    from Suc.hyps(1) [OF this t(3)] show ?thesis
      using t(1,2) Suc.hyps(2) by (auto simp: nth_Cons split: nat.splits)
  qed
qed


section \<open>A concrete call\<close>

lemmas url_eval = urlparse_def urlsplit_def split_scheme_def partition_at_def rpartition_at_def is_alpha_def
  scheme_char_def is_digit_def startswith_def netloc_ok_def cp_def lower_def to_lower_def hostname_def
  hostinfo_def userinfo_def url_port_def split_params_def uses_params_def

lemma example_urls:
  "urlparse ''http://a.org/x'' [] = Some \<lparr>u_scheme = ''http'', u_netloc = ''a.org'', u_path = ''/x'',
     u_params = [], u_query = [], u_fragment = []\<rparr>"
  "urlparse ''http://a.org/y'' [] = Some \<lparr>u_scheme = ''http'', u_netloc = ''a.org'', u_path = ''/y'',
     u_params = [], u_query = [], u_fragment = []\<rparr>"
  "urlparse ''/y'' ''http'' = Some \<lparr>u_scheme = ''http'', u_netloc = [], u_path = ''/y'',
     u_params = [], u_query = [], u_fragment = []\<rparr>"
  by (simp_all add: url_eval)

lemma example_join: "urljoin ''http://a.org/x'' ''/y'' = Some ''http://a.org/y''"
  by (simp add: urljoin_def example_urls uses_relative_def uses_netloc_def resolved_path_def merge_segments_def
      startswith_def urlunparse_def)

lemma example_public: "\<not> ip_is_blocked ''1.2.3.4''"
  by (subst blocked4 [of _ "0x01020304"]) (simp_all add: net_eval SPECIAL4_def quad_def)

definition example_pin :: dns_pin where
  "example_pin = [''a.org'' \<mapsto> ([''1.2.3.4''], 10)]"

lemma example_host: "validate_host dns 5 None ''a.org'' example_pin = (None, example_pin)"
  by (simp add: validate_host_def canonical_host_def rstrip_by_def lower_def to_lower_def cp_def
      METADATA_HOSTS_def is_internal_hostname_def INTERNAL_HOSTNAMES_def endswith_def net_eval Let_def
      suffix_to_prefix resolve_all_def example_public example_pin_def)

lemma example_valid:
  "validate_url dns 5 None ''http://a.org/x'' example_pin = (Inr ''http://a.org/x'', example_pin)"
  "validate_url dns 5 None ''http://a.org/y'' example_pin = (Inr ''http://a.org/y'', example_pin)"
  by (simp_all add: validate_url_def example_urls ALLOWED_SCHEMES_def hostname_def hostinfo_def userinfo_def
      url_port_def rpartition_at_def partition_at_def present_def port_denied_def lower_def to_lower_def cp_def
      example_host)

definition example_world :: world where
  "example_world =
     \<lparr>w_dns = (\<lambda>_ _. Gai_Error), w_now = (\<lambda>_. 5),
      w_net = (\<lambda>i u. Inr (if u = ''http://a.org/x''
        then \<lparr>rs_status = 302, rs_headers = [''location'' \<mapsto> ''/y''], rs_chunks = []\<rparr>
        else \<lparr>rs_status = 200, rs_headers = [''content-type'' \<mapsto> ''text/plain''], rs_chunks = [''ok'']\<rparr>))\<rparr>"

definition example_connector :: connector where
  "example_connector = \<lparr>cn_allowed = None, cn_max_bytes = 100, cn_max_redirects = 3\<rparr>"


end
