(* ===== verification/Technocore.thy ===== *)
theory Technocore
  imports Base64 Http Security
begin

text \<open>
  The chat connector: \<open>packages/connectors/technocore.py\<close>. Ed25519, base58, SHA-256, the network, the
  resolver, the clocks and the random jitter are arguments; delays are in seconds. A text that is
  signed is the argument of the signature function as it is (its UTF-8 form is not made explicit).
\<close>

section \<open>Patterns\<close>

text \<open>\<open>re.match\<close> with a final \<open>$\<close>, which also matches before a line feed at the very end.\<close>

definition dollar :: "(string \<Rightarrow> bool) \<Rightarrow> string \<Rightarrow> bool" where
  "dollar p s \<longleftrightarrow> p s \<or> (s \<noteq> [] \<and> cp (last s) = 10 \<and> p (butlast s))"

definition room_first :: "char \<Rightarrow> bool" where
  "room_first c \<longleftrightarrow> chr_in 97 122 c \<or> chr_in 48 57 c"

definition room_ok :: "string \<Rightarrow> bool" where
  "room_ok = dollar (\<lambda>s. s \<noteq> [] \<and> room_first (hd s) \<and> length s \<le> 48 \<and>
     list_all (\<lambda>c. room_first c \<or> c = CHR ''_'' \<or> c = CHR ''-'') (tl s))"

definition base58_char :: "char \<Rightarrow> bool" where
  "base58_char c \<longleftrightarrow> alnum c \<and> c \<notin> {CHR ''0'', CHR ''O'', CHR ''I'', CHR ''l''}"

definition did_ok :: "string \<Rightarrow> bool" where
  "did_ok = dollar (\<lambda>s. startswith s ''did:key:z6Mk'' \<and> length s = 56 \<and> list_all base58_char (drop 12 s))"

definition sig_ok :: "string \<Rightarrow> bool" where
  "sig_ok = dollar (\<lambda>s. length s = 86 \<and> list_all token_char s)"

definition nonce_ok :: "string \<Rightarrow> bool" where
  "nonce_ok = dollar (\<lambda>s. s \<noteq> [] \<and> length s \<le> 19 \<and> list_all is_digit s)"

section \<open>Identity\<close>

datatype tc_error =
    TechnocoreError | PlainError | GuardError ssrf_error | StatusFailure int | AssertionFailure
  | DatabaseError | OsFailure | Base58Error

definition MULTICODEC :: string where "MULTICODEC = [char_of (237::nat), char_of (1::nat)]"

definition pubkey_to_did :: "(string \<Rightarrow> string) \<Rightarrow> string \<Rightarrow> tc_error + string" where
  "pubkey_to_did b58encode pub =
     (if length pub \<noteq> 32 then Inl PlainError else Inr (''did:key:z'' @ b58encode (MULTICODEC @ pub)))"

definition did_to_pubkey :: "(string \<Rightarrow> string option) \<Rightarrow> string \<Rightarrow> tc_error + string" where
  "did_to_pubkey b58decode did =
     (if \<not> did_ok did then Inl PlainError
      else case b58decode (drop 9 did) of
             None \<Rightarrow> Inl PlainError
           | Some raw \<Rightarrow> if take 2 raw \<noteq> MULTICODEC then Inl PlainError else Inr (drop 2 raw))"

section \<open>Text\<close>

text \<open>
  Below code point 256 the characters of a category \<open>C\<close> are the two control ranges and the soft
  hyphen; the other characters the function names lie above.
\<close>

definition invisible :: "char \<Rightarrow> bool" where
  "invisible c \<longleftrightarrow> cp c < 32 \<or> (127 \<le> cp c \<and> cp c \<le> 159) \<or> cp c = 173"

definition sweep_text :: "string \<Rightarrow> string" where
  "sweep_text text = map (\<lambda>c. if invisible c then CHR '' '' else c) text"

definition canonical_string :: "string \<Rightarrow> string \<Rightarrow> string \<Rightarrow> tc_error + string" where
  "canonical_string room nonce text =
     (if \<not> room_ok room then Inl PlainError
      else if \<not> nonce_ok nonce then Inl PlainError
      else Inr (room @ ''|'' @ nonce @ ''|'' @ sweep_text text))"

section \<open>Nonces of the process\<close>

definition nonce_next :: "int \<Rightarrow> int \<Rightarrow> int" where
  "nonce_next now_ms last_n =
     (let n = (if now_ms \<le> last_n then last_n + 1 else now_ms)
      in if n > 10 ^ 19 - 1 then last_n + 1 else n)"

text \<open>
  \<open>ensure_greater\<close> holds the lock, which is not reentrant, while it calls \<open>next\<close> for a candidate that
  is not a number: that call never returns (\<open>None\<close>).
\<close>

definition ensure_greater :: "string \<Rightarrow> int \<Rightarrow> int option" where
  "ensure_greater candidate last_n =
     (case py_int 10 candidate of
        None \<Rightarrow> None
      | Some n \<Rightarrow> Some (if n \<le> last_n then last_n + 1 else n))"

section \<open>Nonces and cursors in the database\<close>

text \<open>The columns \<open>last_nonce\<close> and \<open>last_seq\<close> are 32-bit integers; a flush of another value fails.\<close>

definition fits_int32 :: "int \<Rightarrow> bool" where
  "fits_int32 n \<longleftrightarrow> - (2 ^ 31) \<le> n \<and> n < 2 ^ 31"

type_synonym nonce_rows = "string \<times> string \<rightharpoonup> int"
type_synonym cursor_rows = "string \<rightharpoonup> int"

definition next_nonce_db ::
  "string \<Rightarrow> string \<Rightarrow> int \<Rightarrow> int \<Rightarrow> nonce_rows \<Rightarrow> (tc_error + int) \<times> int \<times> nonce_rows" where
  "next_nonce_db room did now_ms last_n rows =
     (if did = [] then (Inl TechnocoreError, last_n, rows)
      else let cand = nonce_next now_ms last_n;
               n = (case rows (room, did) of
                      None \<Rightarrow> cand
                    | Some m \<Rightarrow> if cand \<le> m then m + 1 else cand)
           in if fits_int32 n then (Inr n, cand, rows((room, did) \<mapsto> n)) else (Inl DatabaseError, cand, rows))"

definition get_cursor :: "string \<Rightarrow> cursor_rows \<Rightarrow> int" where
  "get_cursor room rows = (case rows room of None \<Rightarrow> 0 | Some n \<Rightarrow> n)"

definition set_cursor :: "string \<Rightarrow> int \<Rightarrow> cursor_rows \<Rightarrow> tc_error option \<times> cursor_rows" where
  "set_cursor room seq rows =
     (if seq < 0 then (Some PlainError, rows)
      else case rows room of
             None \<Rightarrow> if fits_int32 seq then (None, rows(room \<mapsto> seq)) else (Some DatabaseError, rows)
           | Some m \<Rightarrow>
               if seq > m then (if fits_int32 seq then (None, rows(room \<mapsto> seq)) else (Some DatabaseError, rows))
               else (None, rows))"

text \<open>\<open>int(v)\<close> of a JSON value; \<open>None\<close> for \<open>TypeError\<close> or \<open>ValueError\<close>.\<close>

definition int_of_py :: "pyval \<Rightarrow> int option" where
  "int_of_py v =
     (case v of
        PInt i \<Rightarrow> Some i
      | PBool b \<Rightarrow> Some (of_bool b)
      | PFloat r \<Rightarrow> Some (if r < 0 then - \<lfloor>- r\<rfloor> else \<lfloor>r\<rfloor>)
      | PStr s \<Rightarrow> py_int 10 s
      | _ \<Rightarrow> None)"

definition advance_cursor :: "string \<Rightarrow> pydict \<Rightarrow> cursor_rows \<Rightarrow> (tc_error + int) \<times> cursor_rows" where
  "advance_cursor room data rows =
     (let v = dget data ''last_seq'' (PInt 0)
      in case int_of_py (if truthy v then v else PInt 0) of
           None \<Rightarrow> (Inl PlainError, rows)
         | Some n \<Rightarrow>
             (case set_cursor room n rows of
                (None, rows') \<Rightarrow> (Inr n, rows')
              | (Some e, rows') \<Rightarrow> (Inl e, rows')))"

section \<open>The delay after a status 429\<close>

definition not_09 :: "char \<Rightarrow> bool" where
  "not_09 c \<longleftrightarrow> \<not> chr_in 48 57 c"

definition number_re :: re where
  "number_re = Group 1 (Cat (Many is_digit 1 None) (Opt (Cat (Lit ''.'') (Many is_digit 1 None))))"

text \<open>\<open>re.search(r, s).group(1)\<close>.\<close>

definition search_group :: "re \<Rightarrow> string \<Rightarrow> string option" where
  "search_group r s =
     (case filter (\<lambda>ms. ms \<noteq> []) (map (\<lambda>i. matches r s i Map.empty) [0..<Suc (length s)]) of
        [] \<Rightarrow> None
      | ms # _ \<Rightarrow> snd (hd ms) 1)"

definition delay_in_body :: "string \<Rightarrow> string option" where
  "delay_in_body body =
     (case search_group (cats [ilit ''retry'', Many not_09 0 None, number_re]) body of
        Some d \<Rightarrow> Some d
      | None \<Rightarrow>
          (case search_group (cats [ilit ''wait'', Many not_09 0 None, number_re]) body of
             Some d \<Rightarrow> Some d
           | None \<Rightarrow> search_group number_re body))"

text \<open>\<open>float_of\<close> is \<open>float\<close>; \<open>None\<close> stands for \<open>ValueError\<close> and for values that are not finite.\<close>

definition sane_delay :: "(string \<Rightarrow> rat option) \<Rightarrow> string \<Rightarrow> rat option" where
  "sane_delay float_of s =
     (case float_of s of None \<Rightarrow> None | Some v \<Rightarrow> if 0 < v \<and> v < 3600 then Some v else None)"

definition parse_retry_after :: "(string \<Rightarrow> rat option) \<Rightarrow> string \<Rightarrow> string option \<Rightarrow> rat" where
  "parse_retry_after float_of body header =
     (case (case delay_in_body body of None \<Rightarrow> None | Some d \<Rightarrow> sane_delay float_of d) of
        Some v \<Rightarrow> v
      | None \<Rightarrow>
          (case header of
             None \<Rightarrow> 1
           | Some h \<Rightarrow> (case sane_delay float_of (strip h) of Some v \<Rightarrow> v | None \<Rightarrow> 1)))"

section \<open>The connector and its key\<close>

text \<open>The signing key is its seed; \<open>tc_did\<close> is the public identity.\<close>

record connector_state =
  tc_base :: string
  tc_key_path :: string
  tc_retries :: nat
  tc_seed :: "string option"
  tc_did :: "string option"

definition new_connector :: "string \<Rightarrow> string \<Rightarrow> nat \<Rightarrow> connector_state" where
  "new_connector base_url key_path retries =
     \<lparr>tc_base = rstrip_by (\<lambda>c. c = CHR ''/'') base_url, tc_key_path = key_path, tc_retries = retries,
      tc_seed = None, tc_did = None\<rparr>"

definition did_public :: "connector_state \<Rightarrow> string" where
  "did_public tc = (case tc_did tc of None \<Rightarrow> [] | Some d \<Rightarrow> d)"

datatype disk_file = Missing | Directory | Content string

type_synonym files = "string \<Rightarrow> disk_file"

text \<open>The cryptography: public key of a seed, signature, verification, base58.\<close>

record crypto =
  cr_public :: "string \<Rightarrow> string"
  cr_sign :: "string \<Rightarrow> string \<Rightarrow> string"
  cr_verify :: "string \<Rightarrow> string \<Rightarrow> string \<Rightarrow> bool"
  cr_b58encode :: "string \<Rightarrow> string"
  cr_b58decode :: "string \<Rightarrow> string option"

definition seed_of :: "string \<Rightarrow> tc_error + string" where
  "seed_of bytes =
     (let s = (if length bytes = 64 then take 32 bytes else bytes)
      in if length s \<noteq> 32 then Inl TechnocoreError else Inr s)"

definition install_key :: "crypto \<Rightarrow> string \<Rightarrow> connector_state \<Rightarrow> (tc_error + string) \<times> connector_state" where
  "install_key cr seed tc =
     (case pubkey_to_did (cr_b58encode cr) (cr_public cr seed) of
        Inl e \<Rightarrow> (Inl e, tc\<lparr>tc_seed := Some seed\<rparr>)
      | Inr d \<Rightarrow> (Inr d, tc\<lparr>tc_seed := Some seed, tc_did := Some d\<rparr>))"

text \<open>The empty path is the path of the current directory.\<close>

definition key_file :: "string \<Rightarrow> connector_state \<Rightarrow> string" where
  "key_file path tc =
     (let p = (if path \<noteq> [] then path else tc_key_path tc) in if p = [] then ''.'' else p)"

definition load_key ::
  "crypto \<Rightarrow> files \<Rightarrow> string \<Rightarrow> connector_state \<Rightarrow> (tc_error + string) \<times> connector_state" where
  "load_key cr fs path tc =
     (case fs (key_file path tc) of
        Missing \<Rightarrow> (Inr [], tc)
      | Directory \<Rightarrow> (Inl OsFailure, tc)
      | Content bytes \<Rightarrow>
          (case seed_of bytes of Inl e \<Rightarrow> (Inl e, tc) | Inr seed \<Rightarrow> install_key cr seed tc))"

text \<open>Without a file a fresh seed is written, unless the path is empty.\<close>

definition load_or_generate_key ::
  "crypto \<Rightarrow> string \<Rightarrow> files \<Rightarrow> string \<Rightarrow> connector_state \<Rightarrow> (tc_error + string) \<times> connector_state \<times> files" where
  "load_or_generate_key cr fresh fs path tc =
     (let p = key_file path tc
      in if p = ''.'' then (let (r, tc') = install_key cr fresh tc in (r, tc', fs))
         else (case fs p of
                 Directory \<Rightarrow> (Inl OsFailure, tc, fs)
               | Content bytes \<Rightarrow>
                   (case seed_of bytes of
                      Inl e \<Rightarrow> (Inl e, tc, fs)
                    | Inr seed \<Rightarrow> (let (r, tc') = install_key cr seed tc in (r, tc', fs)))
               | Missing \<Rightarrow> (let (r, tc') = install_key cr fresh tc in (r, tc', fs(p := Content fresh)))))"

definition tc_status :: "connector_state \<Rightarrow> pydict" where
  "tc_status tc =
     [(''key_loaded'', PBool (tc_seed tc \<noteq> None)), (''did'', PStr (did_public tc)),
      (''key_path'', PStr (tc_key_path tc))]"

section \<open>Signatures\<close>

definition tc_sign :: "crypto \<Rightarrow> connector_state \<Rightarrow> string \<Rightarrow> string \<Rightarrow> string \<Rightarrow> tc_error + string" where
  "tc_sign cr tc room nonce text =
     (case tc_seed tc of
        None \<Rightarrow> Inl TechnocoreError
      | Some seed \<Rightarrow>
          (case canonical_string room nonce text of
             Inl e \<Rightarrow> Inl e
           | Inr canon \<Rightarrow>
               (let sig = b64_strip (b64url_encode (cr_sign cr seed canon))
                in if length sig \<noteq> 86 then Inl AssertionFailure else Inr sig)))"

definition tc_verify :: "crypto \<Rightarrow> string \<Rightarrow> string \<Rightarrow> string \<Rightarrow> string \<Rightarrow> string \<Rightarrow> bool" where
  "tc_verify cr did room nonce text sig =
     (case did_to_pubkey (cr_b58decode cr) did of
        Inl _ \<Rightarrow> False
      | Inr pub \<Rightarrow>
          (case canonical_string room nonce text of
             Inl _ \<Rightarrow> False
           | Inr canon \<Rightarrow>
               (case b64url_decode (b64_pad sig) of
                  None \<Rightarrow> False
                | Some bytes \<Rightarrow> cr_verify cr pub canon bytes)))"

section \<open>Requests\<close>

record reply =
  tr_status :: int
  tr_text :: string
  tr_size :: int
  tr_json :: "pyval option"
  tr_retry_after :: "string option"

text \<open>The world during a call, by attempt; a request fails with an exception or is answered.\<close>

record tc_world =
  tw_dns :: "nat \<Rightarrow> dns"
  tw_now :: "nat \<Rightarrow> time"
  tw_net :: "nat \<Rightarrow> unit + reply"
  tw_jitter :: "nat \<Rightarrow> rat"
  tw_float :: "string \<Rightarrow> rat option"

definition validate_base_host :: "dns \<Rightarrow> time \<Rightarrow> string \<Rightarrow> dns_pin \<Rightarrow> tc_error option \<times> dns_pin" where
  "validate_base_host lookup now base pin =
     (case urlparse base [] of
        None \<Rightarrow> (Some PlainError, pin)
      | Some u \<Rightarrow>
          (case hostname u of
             None \<Rightarrow> (Some TechnocoreError, pin)
           | Some h \<Rightarrow>
               (case validate_host lookup now None h pin of
                  (None, pin') \<Rightarrow> (None, pin')
                | (Some e, pin') \<Rightarrow> (Some (GuardError e), pin'))))"

definition network_delay :: "tc_world \<Rightarrow> nat \<Rightarrow> rat" where
  "network_delay w a = 1 / 5 * 2 ^ a + tw_jitter w a"

definition limit_delay :: "tc_world \<Rightarrow> nat \<Rightarrow> reply \<Rightarrow> rat" where
  "limit_delay w a r = min (parse_retry_after (tw_float w) (tr_text r) (tr_retry_after r) + tw_jitter w a) 30"

definition success :: "reply \<Rightarrow> bool" where
  "success r \<longleftrightarrow> 200 \<le> tr_status r \<and> tr_status r \<le> 299"

text \<open>
  What is done with an answer that is not a 429; for a reader's request the cursor is advanced, and a
  failure of that is ignored. \<open>PlainError\<close> is the \<open>TypeError\<close> of an item assignment to a list.
\<close>

definition read_answer ::
  "string \<Rightarrow> int \<Rightarrow> bool \<Rightarrow> reply \<Rightarrow> cursor_rows \<Rightarrow> (tc_error + pyval) \<times> cursor_rows" where
  "read_answer room since with_session r rows =
     (if \<not> success r then (Inl (StatusFailure (tr_status r)), rows)
      else if tr_size r > 1048576 then (Inl TechnocoreError, rows)
      else (case (case tr_json r of
                    Some v \<Rightarrow> v
                  | None \<Rightarrow> PDict [(''room'', PStr room), (''messages'', PList []), (''count'', PInt 0),
                                    (''last_seq'', PInt since), (''raw'', PStr (tr_text r))]) of
              PDict d \<Rightarrow>
                (let d' = dset ''_untrusted'' (PBool True) d
                 in (Inr (PDict d'), if with_session then snd (advance_cursor room d' rows) else rows))
            | _ \<Rightarrow> (Inl PlainError, rows)))"

text \<open>The attempts of \<open>read_room\<close>; the sleeps are returned with the result.\<close>

fun read_attempts ::
  "tc_world \<Rightarrow> string \<Rightarrow> string \<Rightarrow> int \<Rightarrow> bool \<Rightarrow> nat \<Rightarrow> nat \<Rightarrow> dns_pin \<Rightarrow> cursor_rows \<Rightarrow>
   (tc_error + pyval) \<times> rat list \<times> dns_pin \<times> cursor_rows" where
  "read_attempts w base room since ses a left pin rows =
     (case validate_base_host (tw_dns w a) (tw_now w a) base pin of
        (Some e, pin') \<Rightarrow> (Inl e, [], pin', rows)
      | (None, pin') \<Rightarrow>
          (case (tw_net w a, left) of
             (Inl _, 0) \<Rightarrow> (Inl TechnocoreError, [], pin', rows)
           | (Inl _, Suc left') \<Rightarrow>
               (let (res, ds, st) = read_attempts w base room since ses (Suc a) left' pin' rows
                in (res, network_delay w a # ds, st))
           | (Inr r, _) \<Rightarrow>
               if tr_status r = 429
               then (case left of
                       0 \<Rightarrow> (Inl TechnocoreError, [], pin', rows)
                     | Suc left' \<Rightarrow>
                         (let (res, ds, st) = read_attempts w base room since ses (Suc a) left' pin' rows
                          in (res, limit_delay w a r # ds, st)))
               else (let (res, rows') = read_answer room since ses r rows in (res, [], pin', rows'))))"

declare read_attempts.simps [simp del]

text \<open>The wait is cut to 0 to 10 seconds; only the request sees it.\<close>

definition clamp_wait :: "int \<Rightarrow> int" where
  "clamp_wait n = (if n < 0 \<or> 10 < n then max 0 (min 10 n) else n)"

definition read_room ::
  "tc_world \<Rightarrow> connector_state \<Rightarrow> string \<Rightarrow> int \<Rightarrow> bool \<Rightarrow> dns_pin \<Rightarrow> cursor_rows \<Rightarrow>
   (tc_error + pyval) \<times> rat list \<times> dns_pin \<times> cursor_rows" where
  "read_room w tc room since ses pin rows =
     (if \<not> room_ok room then (Inl TechnocoreError, [], pin, rows)
      else read_attempts w (tc_base tc) room since ses 0 (tc_retries tc) pin rows)"

section \<open>Posting\<close>

text \<open>The text of a payload: a string, the text of a dictionary, or the dictionary as compact JSON.\<close>

definition payload_text :: "(rat \<Rightarrow> string) \<Rightarrow> pyval \<Rightarrow> string option" where
  "payload_text fl payload =
     (case payload of
        PStr s \<Rightarrow> Some s
      | PDict d \<Rightarrow>
          (case map_of d ''text'' of
             Some (PStr s) \<Rightarrow> Some s
           | _ \<Rightarrow> Some (dumps fl False '','' '':'' payload))
      | _ \<Rightarrow> None)"

definition message_text :: "(rat \<Rightarrow> string) \<Rightarrow> pyval \<Rightarrow> string option" where
  "message_text fl payload =
     (case payload_text fl payload of
        None \<Rightarrow> None
      | Some raw \<Rightarrow> if strip (sweep_text raw) = [] then None else Some (take 4096 (sweep_text raw)))"

record nonce_state =
  ns_last :: int
  ns_rows :: nonce_rows

datatype nonce_result = Hangs | Nonce_Error tc_error | Nonce string

text \<open>The three sources of the nonce: the caller, the database, the process.\<close>

definition choose_nonce ::
  "string \<Rightarrow> string \<Rightarrow> string option \<Rightarrow> bool \<Rightarrow> int \<Rightarrow> nonce_state \<Rightarrow> nonce_result \<times> nonce_state" where
  "choose_nonce room did given ses now_ms ns =
     (case given of
        Some g \<Rightarrow>
          if \<not> nonce_ok g then (Nonce_Error TechnocoreError, ns)
          else (case ensure_greater g (ns_last ns) of
                  None \<Rightarrow> (Hangs, ns)
                | Some n \<Rightarrow> (Nonce (int_str n), ns\<lparr>ns_last := n\<rparr>))
      | None \<Rightarrow>
          if ses
          then (let (res, l, rows) = next_nonce_db room did now_ms (ns_last ns) (ns_rows ns)
                in (case res of Inl e \<Rightarrow> Nonce_Error e | Inr n \<Rightarrow> Nonce (int_str n),
                    ns\<lparr>ns_last := l, ns_rows := rows\<rparr>))
          else (let n = nonce_next now_ms (ns_last ns) in (Nonce (int_str n), ns\<lparr>ns_last := n\<rparr>)))"

record post_body =
  pb_text :: string
  pb_did :: string
  pb_sig :: string
  pb_nonce :: string

definition post_answer :: "string \<Rightarrow> reply \<Rightarrow> tc_error + pyval" where
  "post_answer room r =
     (if \<not> success r then Inl (StatusFailure (tr_status r))
      else Inr (case tr_json r of
                  Some v \<Rightarrow> v
                | None \<Rightarrow> PDict [(''room'', PStr room), (''raw'', PStr (tr_text r)),
                                  (''status_code'', PInt (tr_status r))]))"

text \<open>The attempts of \<open>signed_post\<close>: the result, the sleeps, the bodies sent.\<close>

fun post_attempts ::
  "tc_world \<Rightarrow> string \<Rightarrow> post_body \<Rightarrow> nat \<Rightarrow> nat \<Rightarrow> (tc_error + pyval) \<times> rat list \<times> post_body list" where
  "post_attempts w room body a left =
     (case (tw_net w a, left) of
        (Inl _, 0) \<Rightarrow> (Inl TechnocoreError, [], [body])
      | (Inl _, Suc left') \<Rightarrow>
          (let (res, ds, sent) = post_attempts w room body (Suc a) left' in (res, network_delay w a # ds, body # sent))
      | (Inr r, _) \<Rightarrow>
          if tr_status r = 429
          then (case left of
                  0 \<Rightarrow> (Inl TechnocoreError, [], [body])
                | Suc left' \<Rightarrow>
                    (let (res, ds, sent) = post_attempts w room body (Suc a) left'
                     in (res, limit_delay w a r # ds, body # sent)))
          else (post_answer room r, [], [body]))"

declare post_attempts.simps [simp del]

datatype post_result = PostHangs | PostFails tc_error | PostReturns pyval

definition result_of :: "tc_error + pyval \<Rightarrow> post_result" where
  "result_of r = (case r of Inl e \<Rightarrow> PostFails e | Inr v \<Rightarrow> PostReturns v)"

definition send_post ::
  "tc_world \<Rightarrow> connector_state \<Rightarrow> string \<Rightarrow> post_body \<Rightarrow> dns_pin \<Rightarrow>
   post_result \<times> rat list \<times> post_body list \<times> dns_pin" where
  "send_post w tc room body pin =
     (if \<not> did_ok (pb_did body) \<or> \<not> sig_ok (pb_sig body) \<or> \<not> nonce_ok (pb_nonce body)
      then (PostFails AssertionFailure, [], [], pin)
      else case validate_base_host (tw_dns w 0) (tw_now w 0) (tc_base tc) pin of
             (Some e, pin') \<Rightarrow> (PostFails e, [], [], pin')
           | (None, pin') \<Rightarrow>
               (let (res, ds, sent) = post_attempts w room body 0 (tc_retries tc)
                in (result_of res, ds, sent, pin')))"

definition signed_post ::
  "crypto \<Rightarrow> (rat \<Rightarrow> string) \<Rightarrow> tc_world \<Rightarrow> connector_state \<Rightarrow> string \<Rightarrow> pyval \<Rightarrow> string option \<Rightarrow> string option \<Rightarrow>
   bool \<Rightarrow> int \<Rightarrow> nonce_state \<Rightarrow> dns_pin \<Rightarrow>
   post_result \<times> rat list \<times> post_body list \<times> dns_pin \<times> nonce_state" where
  "signed_post cr fl w tc room payload signature given ses now_ms ns pin =
     (if \<not> room_ok room then (PostFails TechnocoreError, [], [], pin, ns)
      else if tc_seed tc = None \<or> did_public tc = [] then (PostFails TechnocoreError, [], [], pin, ns)
      else case message_text fl payload of
             None \<Rightarrow> (PostFails TechnocoreError, [], [], pin, ns)
           | Some text \<Rightarrow>
               (case choose_nonce room (did_public tc) given ses now_ms ns of
                  (Hangs, ns') \<Rightarrow> (PostHangs, [], [], pin, ns')
                | (Nonce_Error e, ns') \<Rightarrow> (PostFails e, [], [], pin, ns')
                | (Nonce n, ns') \<Rightarrow>
                    (case (if present signature then Inr (the signature) else tc_sign cr tc room n text) of
                       Inl e \<Rightarrow> (PostFails e, [], [], pin, ns')
                     | Inr sig \<Rightarrow>
                         (let body = \<lparr>pb_text = text, pb_did = did_public tc, pb_sig = sig, pb_nonce = n\<rparr>;
                              (res, ds, sent, pin') = send_post w tc room body pin
                          in (res, ds, sent, pin', ns')))))"

section \<open>The signed GET\<close>

text \<open>\<open>urllib.parse.quote(s, safe="")\<close> over UTF-8, below code point 256.\<close>

definition percent :: "nat \<Rightarrow> string" where
  "percent b = CHR ''%'' # map to_upper (hexn 2 b)"

definition quote_url :: "string \<Rightarrow> string" where
  "quote_url s =
     concat (map (\<lambda>c. if alnum c \<or> c \<in> {CHR ''_'', CHR ''.'', CHR ''-'', CHR ''~''} then [c]
                       else if cp c < 128 then percent (cp c)
                       else percent (192 + cp c div 64) @ percent (128 + cp c mod 64)) s)"

definition build_signed_get_url ::
  "crypto \<Rightarrow> connector_state \<Rightarrow> string \<Rightarrow> string \<Rightarrow> string option \<Rightarrow> int \<Rightarrow> int \<Rightarrow> (tc_error + string) \<times> int" where
  "build_signed_get_url cr tc room text given now_ms last_n =
     (if did_public tc = [] then (Inl TechnocoreError, last_n)
      else let fresh = nonce_next now_ms last_n; use = present given;
               n = (if use then the given else int_str fresh); l = (if use then last_n else fresh)
           in if \<not> nonce_ok n then (Inl TechnocoreError, l)
              else (case tc_sign cr tc room n (sweep_text text) of
                      Inl e \<Rightarrow> (Inl e, l)
                    | Inr sig \<Rightarrow>
                        (Inr (tc_base tc @ ''/r/'' @ room @ ''/say-signed/'' @ did_public tc @ ''/'' @ sig @ ''/'' @ n
                              @ ''/'' @ quote_url (sweep_text text)), l)))"

section \<open>Documents\<close>

definition DOC_PATHS :: "string list" where
  "DOC_PATHS = [''skill.md'', ''llms.txt'', ''patterns.md'', ''.well-known/agent.json'', ''openapi.json'']"

text \<open>A document is its digest; an answer is a status and the digest of its content.\<close>

definition fetch_docs ::
  "dns \<Rightarrow> time \<Rightarrow> (string \<Rightarrow> string + int \<times> string) \<Rightarrow> connector_state \<Rightarrow> dns_pin \<Rightarrow>
   (tc_error + (string \<times> string) list) \<times> dns_pin" where
  "fetch_docs lookup now net tc pin =
     (case validate_base_host lookup now (tc_base tc) pin of
        (Some e, pin') \<Rightarrow> (Inl e, pin')
      | (None, pin') \<Rightarrow>
          (Inr (map (\<lambda>p. (p, case net (tc_base tc @ ''/'' @ p) of
                               Inl e \<Rightarrow> ''error_'' @ e
                             | Inr (st, digest) \<Rightarrow> if st = 200 then digest else ''http_'' @ int_str st)) DOC_PATHS), pin'))"

section \<open>What a signature covers\<close>

lemma dollar_chars: "dollar p s \<Longrightarrow> (\<And>t. p t \<Longrightarrow> c \<notin> set t) \<Longrightarrow> cp c \<noteq> 10 \<Longrightarrow> c \<notin> set s"
  unfolding dollar_def
proof (elim disjE conjE)
  assume "s \<noteq> []" "cp (last s) = 10" "p (butlast s)" "\<And>t. p t \<Longrightarrow> c \<notin> set t" "cp c \<noteq> 10"
  then show "c \<notin> set s"
    by (metis append_butlast_last_id in_set_conv_decomp rotate1.simps(2) set_ConsD set_rotate1)
qed blast

lemma cp_bar: "cp CHR ''|'' = 124"
  by (simp add: cp_def)

lemma room_no_bar: "room_ok r \<Longrightarrow> CHR ''|'' \<notin> set r"
  unfolding room_ok_def
proof (rule dollar_chars, assumption, elim conjE)
  fix t assume t: "t \<noteq> []" "room_first (hd t)" "list_all (\<lambda>c. room_first c \<or> c = CHR ''_'' \<or> c = CHR ''-'') (tl t)"
  have "\<not> room_first CHR ''|''" by (simp add: room_first_def chr_in_def cp_bar)
  then show "CHR ''|'' \<notin> set t" using t by (cases t) (auto simp: list_all_iff)
qed (simp add: cp_bar)

lemma nonce_no_bar: "nonce_ok n \<Longrightarrow> CHR ''|'' \<notin> set n"
  unfolding nonce_ok_def
  by (rule dollar_chars, assumption) (auto simp: list_all_iff is_digit_def cp_bar)

lemma split_bar: "CHR ''|'' \<notin> set a \<Longrightarrow> CHR ''|'' \<notin> set b \<Longrightarrow> a @ CHR ''|'' # x = b @ CHR ''|'' # y \<Longrightarrow> a = b \<and> x = y"
proof (induction a arbitrary: b)
  case Nil
  then show ?case by (cases b) auto
next
  case (Cons c a)
  then show ?case by (cases b) auto
qed

text \<open>
  The signed text determines what it is about. Two messages with the same canonical text have
  the same room and the same nonce, and their texts differ in invisible characters only.
\<close>

theorem canonical_string_binds:
  assumes "canonical_string room nonce text = Inr c" and "canonical_string room2 nonce2 text2 = Inr c"
  shows "room = room2 \<and> nonce = nonce2 \<and> sweep_text text = sweep_text text2"
proof -
  have r: "room_ok room" "room_ok room2" "nonce_ok nonce" "nonce_ok nonce2"
    "room @ CHR ''|'' # nonce @ CHR ''|'' # sweep_text text = room2 @ CHR ''|'' # nonce2 @ CHR ''|'' # sweep_text text2"
    using assms by (auto simp: canonical_string_def split: if_splits)
  from split_bar [OF room_no_bar [OF r(1)] room_no_bar [OF r(2)] r(5)]
  have "room = room2" "nonce @ CHR ''|'' # sweep_text text = nonce2 @ CHR ''|'' # sweep_text text2" by auto
  with split_bar [OF nonce_no_bar [OF r(3)] nonce_no_bar [OF r(4)]] show ?thesis by blast
qed

theorem canonical_string_binds_witness:
  "sweep_text [CHR ''a'', char_of (10::nat)] = sweep_text ''a ''"
proof -
  have ok: "room_ok ''lobby''" "nonce_ok ''17''"
    by (simp_all add: room_ok_def nonce_ok_def dollar_def room_first_def chr_in_def is_digit_def cp_def)
  have "canonical_string ''lobby'' ''17'' [CHR ''a'', char_of (10::nat)] = Inr ''lobby|17|a ''"
    "canonical_string ''lobby'' ''17'' ''a '' = Inr ''lobby|17|a ''"
    using ok by (simp_all add: canonical_string_def sweep_text_def invisible_def) (simp_all add: cp_def)
  from canonical_string_binds [OF this] show ?thesis by blast
qed

section \<open>A posted message\<close>

lemma post_attempts_cases:
  assumes "post_attempts w room body a left = (res, ds, sent)"
  shows "sent = [body] \<or>
    (\<exists>l d ds' sent'. left = Suc l \<and> sent = body # sent' \<and> post_attempts w room body (Suc a) l = (res, ds', sent'))"
proof (cases left)
  case 0
  then show ?thesis
    using assms by (subst (asm) post_attempts.simps) (auto split: sum.splits if_splits)
next
  case (Suc l)
  obtain res' ds' sent' where r: "post_attempts w room body (Suc a) l = (res', ds', sent')"
    by (metis prod_cases3)
  show ?thesis
    using assms unfolding Suc
    by (subst (asm) post_attempts.simps, cases "tw_net w a") (auto simp: r split: if_splits)
qed

lemma post_attempts_sent:
  "post_attempts w room body a left = (res, ds, sent) \<Longrightarrow> set sent = {body} \<and> length sent \<le> Suc left"
proof (induction left arbitrary: a ds sent)
  case 0
  then show ?case using post_attempts_cases [OF 0] by auto
next
  case (Suc l)
  then show ?case using post_attempts_cases [OF Suc.prems] by auto
qed

lemma sweep_visible: "list_all (\<lambda>c. \<not> invisible c) (sweep_text s)"
  by (auto simp: sweep_text_def list_all_iff) (simp add: invisible_def cp_def)

lemma message_text_shape:
  "message_text fl payload = Some t \<Longrightarrow> length t \<le> 4096 \<and> list_all (\<lambda>c. \<not> invisible c) t"
  using sweep_visible
  by (auto simp: message_text_def list_all_iff split: option.splits if_splits dest: in_set_takeD)

lemma signed_verifies:
  assumes s: "tc_sign cr tc room n text = Inr sig" and seed: "tc_seed tc = Some seed"
    and d: "pubkey_to_did (cr_b58encode cr) (cr_public cr seed) = Inr did" and ok: "did_ok did"
    and b58: "cr_b58decode cr (cr_b58encode cr (MULTICODEC @ cr_public cr seed)) = Some (MULTICODEC @ cr_public cr seed)"
    and ed: "\<And>m. cr_verify cr (cr_public cr seed) m (cr_sign cr seed m)"
  shows "tc_verify cr did room n text sig"
proof -
  obtain canon where c: "canonical_string room n text = Inr canon"
      "sig = b64_strip (b64url_encode (cr_sign cr seed canon))"
    using s seed by (auto simp: tc_sign_def Let_def split: sum.splits if_splits)
  have "b64url_decode (b64_pad sig) = Some (cr_sign cr seed canon)"
    using unpadded [of "cr_sign cr seed canon"] c(2) by metis
  moreover have "did_to_pubkey (cr_b58decode cr) did = Inr (cr_public cr seed)"
    using d ok b58 by (auto simp: did_to_pubkey_def pubkey_to_did_def MULTICODEC_def split: if_splits)
  ultimately show ?thesis using c ed by (simp add: tc_verify_def)
qed

text \<open>
  C17: what is posted can be verified by anyone. When \<open>signed_post\<close> signs the message itself, every
  request it sends carries the same body; its text is at most 4096 visible characters, and the
  signature of the body verifies for the room, the nonce and the text of the body under the identity
  of the body, given that base58 decodes what it encoded for this key and that the verification
  accepts the signatures of this key. There are at most as many requests as the retries allow.
\<close>

theorem posted_message_verifies:
  assumes post: "signed_post cr fl w tc room payload None given ses now_ms ns pin = (res, ds, sent, pin', ns')"
    and key: "tc_seed tc = Some seed" "tc_did tc = Some did"
      "pubkey_to_did (cr_b58encode cr) (cr_public cr seed) = Inr did"
    and base58: "cr_b58decode cr (cr_b58encode cr (MULTICODEC @ cr_public cr seed)) = Some (MULTICODEC @ cr_public cr seed)"
    and ed25519: "\<And>m. cr_verify cr (cr_public cr seed) m (cr_sign cr seed m)"
  shows "length sent \<le> Suc (tc_retries tc) \<and>
    (\<forall>b \<in> set sent. set sent = {b} \<and> pb_did b = did \<and> length (pb_text b) \<le> 4096 \<and>
       list_all (\<lambda>c. \<not> invisible c) (pb_text b) \<and>
       tc_verify cr (pb_did b) room (pb_nonce b) (pb_text b) (pb_sig b))"
proof (cases "sent = []")
  case False
  obtain msg n sig where t: "message_text fl payload = Some msg" "tc_sign cr tc room n msg = Inr sig"
      "send_post w tc room \<lparr>pb_text = msg, pb_did = did, pb_sig = sig, pb_nonce = n\<rparr> pin = (res, ds, sent, pin')"
    using post False key(2)
    by (auto simp: signed_post_def present_def did_public_def Let_def
        split: if_splits option.splits prod.splits nonce_result.splits sum.splits)
  let ?b = "\<lparr>pb_text = msg, pb_did = did, pb_sig = sig, pb_nonce = n\<rparr>"
  have d: "did_ok did" and "\<exists>r. post_attempts w room ?b 0 (tc_retries tc) = (r, ds, sent)"
    using t(3) False by (auto simp: send_post_def Let_def split: if_splits option.splits prod.splits)
  then have "set sent = {?b}" "length sent \<le> Suc (tc_retries tc)" using post_attempts_sent by blast+
  moreover have "tc_verify cr did room n msg sig"
    by (rule signed_verifies [OF t(2) key(1,3) d base58 ed25519])
  ultimately show ?thesis using message_text_shape [OF t(1)] by auto
qed simp

section \<open>Nonces\<close>

lemma nonce_next_greater: "l < nonce_next now_ms l"
  by (simp add: nonce_next_def Let_def)

lemma ensure_greater_greater: "ensure_greater g l = Some n \<Longrightarrow> l < n"
  by (auto simp: ensure_greater_def split: option.splits if_splits)

text \<open>The posts of one process without a database session: what is issued for each request.\<close>

fun issued :: "(string \<times> string \<times> string option \<times> int) list \<Rightarrow> nonce_state \<Rightarrow> string list" where
  "issued [] ns = []"
| "issued ((room, did, given, now_ms) # rs) ns =
     (let (res, ns') = choose_nonce room did given False now_ms ns
      in (case res of Nonce n \<Rightarrow> [n] | _ \<Rightarrow> []) @ issued rs ns')"

lemma choose_nonce_number:
  "choose_nonce room did given False now_ms ns = (res, ns') \<Longrightarrow>
     (case res of Nonce n \<Rightarrow> n = int_str (ns_last ns') \<and> ns_last ns < ns_last ns' | _ \<Rightarrow> ns' = ns)"
  by (auto simp: choose_nonce_def nonce_next_greater Let_def
      dest: ensure_greater_greater split: option.splits if_splits)

lemma issued_numbers:
  "\<exists>ks. issued rs ns = map int_str ks \<and> sorted_wrt (<) (ns_last ns # ks)"
proof (induction rs arbitrary: ns)
  case (Cons r rs)
  obtain room did given now_ms where r: "r = (room, did, given, now_ms)" by (cases r) auto
  obtain res ns' where c: "choose_nonce room did given False now_ms ns = (res, ns')" by fastforce
  obtain ks where ks: "issued rs ns' = map int_str ks" "sorted_wrt (<) (ns_last ns' # ks)" using Cons by blast
  show ?case
  proof (cases res)
    case (Nonce n)
    then have "issued (r # rs) ns = map int_str (ns_last ns' # ks)" "sorted_wrt (<) (ns_last ns # ns_last ns' # ks)"
      using choose_nonce_number [OF c] ks c r by (auto intro: less_trans)
    then show ?thesis by blast
  qed (use choose_nonce_number [OF c] ks c r in auto)
qed simp


text \<open>
  The variant with the database cannot work with the clock it uses: the column is a 32-bit integer,
  and the milliseconds since 1970 left its range in January 1970.
\<close>

lemma nonce_db_overflows:
  assumes "2 ^ 31 \<le> now_ms" and "now_ms < 10 ^ 19" and "did \<noteq> []"
  shows "\<exists>l. next_nonce_db room did now_ms last_n rows = (Inl DatabaseError, l, rows)"
proof -
  have "2 ^ 31 \<le> nonce_next now_ms last_n" using assms(1,2) by (auto simp: nonce_next_def Let_def)
  then show ?thesis
    using assms(3) by (auto simp: next_nonce_db_def fits_int32_def Let_def split: option.splits)
qed

text \<open>A nonce of 19 nines, once asked for, ends all posting of the process: the next has 20 digits.\<close>

lemma digits_below: "list_all is_digit s \<Longrightarrow> nat_val s < 10 ^ length s"
proof (induction s rule: rev_induct)
  case (snoc c s)
  then have "cp c - 48 \<le> 9" by (auto simp: is_digit_def)
  moreover have "nat_val s + 1 \<le> 10 ^ length s" using snoc by simp
  then have "nat_val s * 10 + 10 \<le> 10 ^ length s * 10" by linarith
  ultimately show ?case by (simp add: nat_val_def)
qed (simp add: nat_val_def)

lemma nonce_exhausted:
  assumes "10 ^ 19 - 1 \<le> l"
  shows "\<not> nonce_ok (int_str (nonce_next now_ms l))"
proof
  let ?n = "nonce_next now_ms l"
  assume ok: "nonce_ok (int_str ?n)"
  have n: "10 ^ 19 \<le> ?n" using nonce_next_greater [of l now_ms] assms by simp
  then have s: "int_str ?n = nat_str (nat ?n)" by (simp add: int_str_def)
  have "cp (last (nat_str (nat ?n))) \<noteq> 10"
    using nat_str_digits [of "last (nat_str (nat ?n))" "nat ?n"] by (simp add: is_digit_def)
  then have len: "length (nat_str (nat ?n)) \<le> 19" "list_all is_digit (nat_str (nat ?n))"
    using ok by (auto simp: nonce_ok_def dollar_def s)
  have "nat ?n < 10 ^ length (nat_str (nat ?n))" using digits_below [OF len(2)] by (simp add: nat_val_str)
  also have "\<dots> \<le> 10 ^ 19" using len(1) by (rule power_increasing) simp
  finally show False using n by simp
qed

section \<open>Cursors and delays\<close>

lemma set_cursor_mono: "set_cursor room seq rows = (e, rows') \<Longrightarrow> 0 \<le> get_cursor r rows \<Longrightarrow> get_cursor r rows \<le> get_cursor r rows'"
  by (auto simp: set_cursor_def get_cursor_def split: option.splits if_splits)

lemma set_cursor_max:
  "set_cursor room seq rows = (None, rows') \<Longrightarrow> 0 \<le> get_cursor room rows \<Longrightarrow>
     get_cursor room rows' = max (get_cursor room rows) seq"
  by (auto simp: set_cursor_def get_cursor_def split: option.splits if_splits)

lemma limit_delay_bound: "limit_delay w a r \<le> 30"
  by (simp add: limit_delay_def)

text \<open>Without a path the production loader fails instead of reporting that there is no key.\<close>

lemma load_key_without_path:
  assumes "fs ''.'' = Directory" and "tc_key_path tc = []"
  shows "load_key cr fs [] tc = (Inl OsFailure, tc)"
  using assms by (simp add: load_key_def key_file_def)

section \<open>A concrete post\<close>

lemma token_b64: "n < 64 \<Longrightarrow> token_char (b64_char n)"
proof -
  assume n: "n < 64"
  let ?m = "cp (b64_char n)"
  have "b64_char n = CHR ''-'' \<longleftrightarrow> ?m = 45" "b64_char n = CHR ''_'' \<longleftrightarrow> ?m = 95"
    using cp_inject [of "b64_char n" "CHR ''-''"] cp_inject [of "b64_char n" "CHR ''_''"]
    by (simp_all add: cp_def)
  moreover have "?m \<in> {48..57} \<union> {65..90} \<union> {97..122} \<union> {45, 95}"
    using n by (simp add: cp_b64) linarith
  ultimately show ?thesis by (auto simp: token_char_def alnum_def chr_in_def)
qed

lemma sig_ok_body: "b64_body b \<Longrightarrow> length b = 86 \<Longrightarrow> sig_ok b"
  using token_b64 by (auto simp: sig_ok_def dollar_def b64_body_def list_all_iff)

definition demo_did :: string where
  "demo_did = ''did:key:z6Mk'' @ replicate 44 CHR ''a''"

definition demo_key :: string where
  "demo_key = replicate 32 CHR ''k''"

definition demo_crypto :: crypto where
  "demo_crypto =
     \<lparr>cr_public = (\<lambda>_. demo_key), cr_sign = (\<lambda>_ _. replicate 64 CHR ''s''),
      cr_verify = (\<lambda>_ _ s. s = replicate 64 CHR ''s''),
      cr_b58encode = (\<lambda>_. ''6Mk'' @ replicate 44 CHR ''a''), cr_b58decode = (\<lambda>_. Some (MULTICODEC @ demo_key))\<rparr>"

definition demo_connector :: connector_state where
  "demo_connector =
     \<lparr>tc_base = ''http://a.org/x'', tc_key_path = [], tc_retries = 2, tc_seed = Some [], tc_did = Some demo_did\<rparr>"

definition demo_world :: tc_world where
  "demo_world =
     \<lparr>tw_dns = (\<lambda>_ _. Gai_Error), tw_now = (\<lambda>_. 5),
      tw_net = (\<lambda>_. Inr \<lparr>tr_status = 200, tr_text = [], tr_size = 0, tr_json = None, tr_retry_after = None\<rparr>),
      tw_jitter = (\<lambda>_. 0), tw_float = (\<lambda>_. None)\<rparr>"

lemma demo_host: "validate_base_host dns 5 ''http://a.org/x'' example_pin = (None, example_pin)"
  by (simp add: validate_base_host_def example_urls hostname_def hostinfo_def rpartition_at_def
      partition_at_def lower_def to_lower_def cp_def example_host)

lemma demo_did_ok: "did_ok demo_did"
proof -
  have "base58_char CHR ''a''" by (simp add: base58_char_def alnum_def chr_in_def cp_def)
  then show ?thesis
    by (simp add: did_ok_def dollar_def demo_did_def startswith_def list_all_iff)
qed

lemma demo_sign:
  obtains sig where "tc_sign demo_crypto demo_connector ''lobby'' ''17'' ''hi'' = Inr sig" and "sig_ok sig"
proof -
  obtain b where b: "b64_strip (b64url_encode (replicate 64 CHR ''s'')) = b" "b64_body b" "length b = 86"
    using unpadded [of "replicate 64 CHR ''s''"] by auto
  have "room_ok ''lobby''" "nonce_ok ''17''"
    by (simp_all add: room_ok_def nonce_ok_def dollar_def room_first_def chr_in_def is_digit_def cp_def)
  then have "tc_sign demo_crypto demo_connector ''lobby'' ''17'' ''hi'' = Inr b"
    using b(1,3) by (simp add: tc_sign_def demo_connector_def demo_crypto_def canonical_string_def)
  then show thesis using that sig_ok_body [OF b(2,3)] by blast
qed

theorem posted_message_verifies_witness:
  "\<exists>b. fst (snd (snd (signed_post demo_crypto (\<lambda>_. []) demo_world demo_connector ''lobby'' (PStr ''hi'') None None
         False 17 \<lparr>ns_last = 3, ns_rows = Map.empty\<rparr> example_pin))) = [b] \<and>
     tc_verify demo_crypto (pb_did b) ''lobby'' (pb_nonce b) (pb_text b) (pb_sig b)"
proof -
  obtain sig where sig: "tc_sign demo_crypto demo_connector ''lobby'' ''17'' ''hi'' = Inr sig" "sig_ok sig"
    by (rule demo_sign)
  have n: "int_str 17 = ''17''" "nonce_ok ''17''" "room_ok ''lobby''"
    by (simp add: int_str_def nat_str.simps char_of_def bit_iff_odd)
      (simp_all add: room_ok_def nonce_ok_def dollar_def room_first_def chr_in_def is_digit_def cp_def)
  have m: "message_text (\<lambda>_. []) (PStr ''hi'') = Some ''hi''"
    by (simp add: message_text_def payload_text_def sweep_text_def invisible_def strip_def rstrip_by_def
        lstrip_by_def is_space_def cp_def)
  let ?b = "\<lparr>pb_text = ''hi'', pb_did = demo_did, pb_sig = sig, pb_nonce = ''17''\<rparr>"
  have "post_attempts demo_world ''lobby'' ?b 0 2 =
      (Inr (PDict [(''room'', PStr ''lobby''), (''raw'', PStr []), (''status_code'', PInt 200)]), [], [?b])"
    by (subst post_attempts.simps) (simp add: demo_world_def post_answer_def success_def)
  then have "\<exists>r. send_post demo_world demo_connector ''lobby'' ?b example_pin = (r, [], [?b], example_pin)"
    using demo_did_ok sig(2) n(2)
    by (simp add: send_post_def demo_connector_def demo_world_def demo_host)
  then obtain r where p: "send_post demo_world demo_connector ''lobby'' ?b example_pin = (r, [], [?b], example_pin)"
    by blast
  have "demo_did \<noteq> []" by (simp add: demo_did_def)
  then have c: "signed_post demo_crypto (\<lambda>_. []) demo_world demo_connector ''lobby'' (PStr ''hi'') None None False 17
      \<lparr>ns_last = 3, ns_rows = Map.empty\<rparr> example_pin = (r, [], [?b], example_pin, \<lparr>ns_last = 17, ns_rows = Map.empty\<rparr>)"
    using n m sig(1) p
    by (simp add: signed_post_def choose_nonce_def nonce_next_def present_def did_public_def)
      (simp add: demo_connector_def)
  have "length demo_key = 32" by (simp add: demo_key_def)
  then have "pubkey_to_did (cr_b58encode demo_crypto) (cr_public demo_crypto []) = Inr demo_did"
    by (simp add: pubkey_to_did_def demo_crypto_def demo_did_def)
  from posted_message_verifies [OF c _ _ this] show ?thesis
    unfolding c by (simp add: demo_connector_def) (simp add: demo_crypto_def)
qed

end
