(* ===== verification/Evaluator.thy ===== *)
theory Evaluator
  imports Config Security Technocore
begin

text \<open>
  The risk evaluation of chat messages: \<open>packages/connectors/agent_evaluator.py\<close>, and the alert it
  leads to: \<open>agent_alert.py\<close>. The answer of the language model, \<open>json.loads\<close> and the text of
  structured values are arguments. Characters above code point 255 in constant texts (dashes,
  bullets, emojis) are written in ASCII.
\<close>

section \<open>Tiers\<close>

definition VALID_TIERS :: "string list" where
  "VALID_TIERS = [''SAFE'', ''WATCH'', ''RISKY'', ''DANGEROUS'']"

definition tier_from_score :: "int \<Rightarrow> string" where
  "tier_from_score score =
     (if 80 \<le> score then ''DANGEROUS'' else if 55 \<le> score then ''RISKY''
      else if 30 \<le> score then ''WATCH'' else ''SAFE'')"

record dims =
  d_intent :: int
  d_safety :: int
  d_quality :: int
  d_value :: int
  d_risk :: int

record evaluation =
  ev_score :: int
  ev_tier :: string
  ev_reason :: string
  ev_dims :: dims
  ev_model :: string

section \<open>The heuristic\<close>

abbreviation sp1 :: re where "sp1 \<equiv> Many is_space 1 None"
abbreviation sp0 :: re where "sp0 \<equiv> Many is_space 0 None"

definition phrase :: "string list \<Rightarrow> re" where
  "phrase ws = (case ws of [] \<Rightarrow> Lit [] | w # r \<Rightarrow> cats (ilit w # concat (map (\<lambda>x. [sp1, ilit x]) r)))"

definition HEURISTIC_PATTERNS :: "(re \<times> string \<times> int) list" where
  "HEURISTIC_PATTERNS =
     [(phrase [''ignore'', ''previous'', ''instructions''], ''prompt injection'', 75),
      (phrase [''ignore'', ''all'', ''instructions''], ''prompt injection'', 75),
      (cats [ilit ''system'', sp0, ilit ''prompt''], ''prompt injection'', 50),
      (alts [ilit ''jailbreak'', phrase [''DAN'', ''mode''], phrase [''do'', ''anything'', ''now'']],
       ''prompt injection'', 80),
      (alts [ilit ''ssrf'', Lit ''169.254.169.254'', ilit ''metadata.google'',
             Cat (ilit ''localhost:'') (Cls is_digit), Lit ''127.0.0.1''], ''ssrf'', 85),
      (alts [cats [ilit ''fetch'', sp0, Lit ''(''], Cat (ilit ''curl'') (Cls is_space), Cat (ilit ''wget'') (Cls is_space),
             Cat (ilit ''http://'') (Cls is_digit)], ''ssrf'', 60),
      (alts [cats [ilit ''api'', Opt (Cls (one ''_-'')), ilit ''key''], ilit ''secret'', ilit ''password'',
             cats [ilit ''token'', sp0, Cls (one '':='')],
             cats [ilit ''BEGIN'', sp1, Opt (Cat (ilit ''RSA'') sp1), ilit ''PRIVATE'', sp1, ilit ''KEY'']],
       ''secret leak'', 70),
      (alts [ilit ''exfiltrate'', phrase [''leak'', ''data''], phrase [''dump'', ''db''],
             phrase [''drop'', ''table''], phrase [''rm'', ''-rf'']], ''data exfiltration'', 80),
      (alts [cats [ilit ''eval'', sp0, Lit ''(''], cats [ilit ''exec'', sp0, Lit ''(''], ilit ''__import__'',
             ilit ''os.system'', ilit ''subprocess''], ''code execution'', 75),
      (alts [ilit ''overwrite'', phrase [''delete'', ''all''], phrase [''truncate'', ''table'']],
       ''destructive'', 70)]"

text \<open>The labels in the order of the patterns, and the greatest score.\<close>

definition matched_labels :: "string \<Rightarrow> string list" where
  "matched_labels text =
     map (\<lambda>(_, l, _). l) (filter (\<lambda>(r, _, _). re_search r text) HEURISTIC_PATTERNS)
     @ (if 3500 < length text then [''long message''] else [])"

definition heuristic_score :: "string \<Rightarrow> int" where
  "heuristic_score text =
     (let m = fold (\<lambda>(r, _, s) m. if re_search r text \<and> m < s then s else m) HEURISTIC_PATTERNS 10
      in if 3500 < length text then max m 25 else m)"

definition add_label :: "int \<Rightarrow> string \<Rightarrow> dims \<Rightarrow> dims" where
  "add_label mx l d =
     (if l = ''prompt injection'' then d\<lparr>d_intent := mx, d_safety := max (d_safety d) (mx - 10)\<rparr>
      else if l \<in> {''ssrf'', ''code execution'', ''destructive'', ''data exfiltration''}
      then d\<lparr>d_risk := max (d_risk d) mx\<rparr>
      else if l = ''secret leak'' then d\<lparr>d_risk := max (d_risk d) mx, d_safety := max (d_safety d) (mx - 20)\<rparr>
      else d\<lparr>d_risk := max (d_risk d) (mx div 2)\<rparr>)"

definition heuristic_evaluate :: "string \<Rightarrow> string \<Rightarrow> evaluation" where
  "heuristic_evaluate model text =
     (let labels = sort (remdups (matched_labels text)); mx = heuristic_score text
      in if strip text = []
         then \<lparr>ev_score = 5, ev_tier = ''SAFE'', ev_reason = ''empty message - SAFE'',
               ev_dims = \<lparr>d_intent = 5, d_safety = 5, d_quality = 10, d_value = 10, d_risk = 5\<rparr>, ev_model = model\<rparr>
         else if labels \<noteq> []
         then (let d = fold (add_label mx) labels
                         \<lparr>d_intent = 0, d_safety = 0, d_quality = 10, d_value = 10, d_risk = 0\<rparr>;
                   d' = (if 60 \<le> mx then d\<lparr>d_risk := max (d_risk d) mx\<rparr> else d)
               in \<lparr>ev_score = mx, ev_tier = tier_from_score mx,
                   ev_reason = ''heuristic: '' @ join_with '', '' labels, ev_dims = d', ev_model = model\<rparr>)
         else \<lparr>ev_score = 10, ev_tier = ''SAFE'', ev_reason = ''no heuristic risk detected - SAFE'',
               ev_dims = \<lparr>d_intent = 5, d_safety = 5, d_quality = 5, d_value = 5, d_risk = 10\<rparr>, ev_model = model\<rparr>)"

section \<open>The answer of the model\<close>

text \<open>\<open>str(v)\<close>; \<open>rp\<close> is the text of floats, lists and dictionaries.\<close>

definition py_str :: "(pyval \<Rightarrow> string) \<Rightarrow> pyval \<Rightarrow> string" where
  "py_str rp v =
     (case v of
        PStr s \<Rightarrow> s
      | PInt i \<Rightarrow> int_str i
      | PBool b \<Rightarrow> (if b then ''True'' else ''False'')
      | PNone \<Rightarrow> ''None''
      | _ \<Rightarrow> rp v)"

definition clamp100 :: "int \<Rightarrow> int" where "clamp100 i = max 0 (min 100 i)"

definition dim_of :: "pyval \<Rightarrow> int \<Rightarrow> string \<Rightarrow> int" where
  "dim_of dims_raw score k =
     (case dims_raw of
        PDict d \<Rightarrow> (case int_of_py (dget d k (PInt (score div 2))) of None \<Rightarrow> score div 2 | Some i \<Rightarrow> clamp100 i)
      | _ \<Rightarrow> score div 2)"

text \<open>A value that is no dictionary has no \<open>get\<close>: \<open>None\<close> stands for the exception.\<close>

definition normalize_llm_result :: "(pyval \<Rightarrow> string) \<Rightarrow> string \<Rightarrow> pyval \<Rightarrow> evaluation option" where
  "normalize_llm_result rp model raw =
     (case raw of
        PDict d \<Rightarrow>
          (let score = clamp100 (case int_of_py (dget d ''score'' (PInt 10)) of None \<Rightarrow> 10 | Some i \<Rightarrow> i);
               t = strip (upper (py_str rp (dget d ''tier'' (PStr []))));
               tier = (if t \<in> set VALID_TIERS then t else tier_from_score score);
               r = take 500 (py_str rp (dget d ''reason'' (PStr [])));
               dr = dget d ''dimensions'' PNone; raw_dims = (if truthy dr then dr else PDict [])
           in Some \<lparr>ev_score = score, ev_tier = tier, ev_reason = (if r = [] then ''llm evaluation'' else r),
                ev_dims = \<lparr>d_intent = dim_of raw_dims score ''intent'', d_safety = dim_of raw_dims score ''safety'',
                           d_quality = dim_of raw_dims score ''quality'', d_value = dim_of raw_dims score ''value'',
                           d_risk = dim_of raw_dims score ''risk''\<rparr>,
                ev_model = model\<rparr>)
      | _ \<Rightarrow> None)"

definition build_user_prompt :: "string \<Rightarrow> string \<Rightarrow> string option \<Rightarrow> string \<Rightarrow> string" where
  "build_user_prompt text nick did room =
     ''room='' @ room @ '' nick='' @ nick @ '' did='' @ (if present did then the did else ''unknown'')
     @ [CHR 0x0A] @ ''message: '' @ take 4000 text"

text \<open>
  \<open>llm prompt\<close> is the request: the name of the exception, or the content of the first choice.
\<close>

definition evaluate_agent_message ::
  "settings \<Rightarrow> (string \<Rightarrow> string + pyval) \<Rightarrow> loads \<Rightarrow> (pyval \<Rightarrow> string) \<Rightarrow> string \<Rightarrow> string \<Rightarrow> string option \<Rightarrow>
   string \<Rightarrow> evaluation" where
  "evaluate_agent_message cfg llm loads rp text nick did room =
     (let provider = lower (if llm_provider cfg \<noteq> [] then llm_provider cfg else ''mock'');
          model = (if llm_model cfg \<noteq> [] then llm_model cfg else ''gpt-4o-mini'')
      in if provider = ''mock'' \<or> llm_base_url cfg = [] then heuristic_evaluate ''heuristic/mock'' text
         else (let answer = (case llm (build_user_prompt text nick did room) of
                      Inl e \<Rightarrow> Inl e
                    | Inr (PStr c) \<Rightarrow>
                        (case loads c of Inr v \<Rightarrow> Inr v | Inl JSONDecodeError \<Rightarrow> Inl ''JSONDecodeError''
                         | Inl LoadsValueError \<Rightarrow> Inl ''ValueError'')
                    | Inr (PDict d) \<Rightarrow> Inr (PDict d)
                    | Inr _ \<Rightarrow> Inl ''TypeError'')
               in case answer of
                    Inl e \<Rightarrow> heuristic_evaluate (''heuristic/fallback:'' @ e) text
                  | Inr v \<Rightarrow>
                      (case normalize_llm_result rp model v of
                         Some r \<Rightarrow> r
                       | None \<Rightarrow> heuristic_evaluate ''heuristic/fallback:AttributeError'' text)))"

section \<open>The alert\<close>

definition ALERT_TIERS :: "string list" where "ALERT_TIERS = [''RISKY'', ''DANGEROUS'']"

text \<open>
  The recipients are the configured users and the identities that are allowed in the database. The
  Bot API is \<open>post\<close> (whether it accepted the message for a user), the service of the API process is
  \<open>service\<close>. The result comes with the users a message was sent to directly.
\<close>

definition alert_recipients :: "settings \<Rightarrow> int list \<Rightarrow> int set" where
  "alert_recipients cfg identities =
     (case allowed_user_ids cfg of None \<Rightarrow> {} | Some ids \<Rightarrow> ids) \<union> set identities"

definition send_risk_alert ::
  "settings \<Rightarrow> int list \<Rightarrow> (int \<Rightarrow> bool) \<Rightarrow> bool \<Rightarrow> string \<Rightarrow> bool \<times> int set" where
  "send_risk_alert cfg identities post service tier =
     (if upper tier \<notin> set ALERT_TIERS then (False, {})
      else if telegram_bot_token cfg = [] then (service, {})
      else let ids = alert_recipients cfg identities
           in if \<exists>u \<in> ids. post u then (True, ids) else (service, ids))"

section \<open>Bounds\<close>

definition dims_bounded :: "dims \<Rightarrow> bool" where
  "dims_bounded d \<longleftrightarrow> list_all (\<lambda>i. 0 \<le> i \<and> i \<le> 100) [d_intent d, d_safety d, d_quality d, d_value d, d_risk d]"

definition evaluation_ok :: "evaluation \<Rightarrow> bool" where
  "evaluation_ok e \<longleftrightarrow> 0 \<le> ev_score e \<and> ev_score e \<le> 100 \<and> ev_tier e \<in> set VALID_TIERS \<and> dims_bounded (ev_dims e)"

lemma tier_valid: "tier_from_score i \<in> set VALID_TIERS"
  by (simp add: tier_from_score_def VALID_TIERS_def)

lemma fold_max_score:
  "list_all (\<lambda>(r, l, s). 0 \<le> s \<and> s \<le> 85) ps \<Longrightarrow> 10 \<le> m \<Longrightarrow> m \<le> 85 \<Longrightarrow>
     10 \<le> fold (\<lambda>(r, _, s) m. if re_search r w \<and> m < s then s else m) ps m \<and>
     fold (\<lambda>(r, _, s) m. if re_search r w \<and> m < s then s else m) ps m \<le> (85 :: int)"
proof (induction ps arbitrary: m)
  case (Cons p ps)
  obtain r l s where p: "p = (r, l, s)" by (cases p) auto
  let ?m = "if re_search r w \<and> m < s then s else m"
  have "10 \<le> ?m" "?m \<le> 85" using Cons.prems p by auto
  then show ?case using Cons.IH [of ?m] Cons.prems(1) p by simp
qed simp

lemma heuristic_score_range: "10 \<le> heuristic_score w \<and> heuristic_score w \<le> 85"
proof -
  have "list_all (\<lambda>(r, l, s). 0 \<le> s \<and> s \<le> 85) HEURISTIC_PATTERNS" by (simp add: HEURISTIC_PATTERNS_def)
  from fold_max_score [OF this, of 10 w] show ?thesis unfolding heuristic_score_def Let_def
    by (simp add: le_max_iff_disj)
qed

lemma add_label_bounded:
  assumes "0 \<le> mx" and "mx \<le> 100" and "dims_bounded d"
  shows "dims_bounded (add_label mx l d)"
proof -
  have "mx div 2 \<le> 100" using assms(1,2) by simp
  then show ?thesis using assms by (simp add: add_label_def dims_bounded_def le_max_iff_disj)
qed

lemma fold_labels: "0 \<le> mx \<Longrightarrow> mx \<le> 100 \<Longrightarrow> dims_bounded d \<Longrightarrow> dims_bounded (fold (add_label mx) ls d)"
  by (induction ls arbitrary: d) (simp_all add: add_label_bounded)

lemma heuristic_ok: "evaluation_ok (heuristic_evaluate model w)"
proof -
  define mx where "mx = heuristic_score w"
  define d where "d = fold (add_label mx) (sort (remdups (matched_labels w)))
    \<lparr>d_intent = 0, d_safety = 0, d_quality = 10, d_value = 10, d_risk = 0\<rparr>"
  have mx: "0 \<le> mx" "mx \<le> 100" using heuristic_score_range [of w] by (auto simp: mx_def)
  then have d: "dims_bounded d" unfolding d_def by (rule fold_labels) (simp add: dims_bounded_def)
  then have "dims_bounded (d\<lparr>d_risk := max (d_risk d) mx\<rparr>)" using mx by (simp add: dims_bounded_def)
  then show ?thesis
    using mx d tier_valid [of mx]
    unfolding heuristic_evaluate_def evaluation_ok_def Let_def mx_def [symmetric] d_def [symmetric]
    by (simp add: VALID_TIERS_def) (simp add: dims_bounded_def)
qed

lemma clamp_range: "0 \<le> clamp100 i \<and> clamp100 i \<le> 100"
  by (simp add: clamp100_def)

lemma dim_range: "0 \<le> score \<Longrightarrow> score \<le> 100 \<Longrightarrow> 0 \<le> dim_of v score k \<and> dim_of v score k \<le> 100"
  using clamp_range by (auto simp: dim_of_def split: pyval.splits option.splits)

lemma normalize_ok: "normalize_llm_result rp model v = Some e \<Longrightarrow> evaluation_ok e"
proof (cases v)
  case (PDict d)
  assume e: "normalize_llm_result rp model v = Some e"
  let ?s = "clamp100 (case int_of_py (dget d ''score'' (PInt 10)) of None \<Rightarrow> 10 | Some i \<Rightarrow> i)"
  have s: "0 \<le> ?s" "?s \<le> 100" using clamp_range by blast+
  show ?thesis
    using e PDict s dim_range [OF s] tier_valid [of ?s]
    by (auto simp: normalize_llm_result_def evaluation_ok_def dims_bounded_def Let_def)
qed (auto simp: normalize_llm_result_def)

text \<open>
  An evaluation is well-formed whatever the message says and whatever the language model
  answers: the score and the five dimensions lie between 0 and 100 and the tier is one of the four.
  Without a usable answer the tier is the one that belongs to the score.
\<close>

theorem evaluation_well_formed:
  "evaluation_ok (evaluate_agent_message cfg llm loads rp text nick did room) \<and>
   ev_tier (heuristic_evaluate model text) = tier_from_score (ev_score (heuristic_evaluate model text))"
proof
  show "evaluation_ok (evaluate_agent_message cfg llm loads rp text nick did room)"
    using heuristic_ok normalize_ok
    by (auto simp: evaluate_agent_message_def Let_def split: sum.splits option.splits)
  show "ev_tier (heuristic_evaluate model text) = tier_from_score (ev_score (heuristic_evaluate model text))"
    by (simp add: heuristic_evaluate_def tier_from_score_def Let_def)
qed

text \<open>The tier of the model's answer need not fit its score: the highest score can come as SAFE.\<close>

lemma model_tier_is_trusted:
  "map_option (\<lambda>e. (ev_score e, ev_tier e))
     (normalize_llm_result rp model (PDict [(''score'', PInt 100), (''tier'', PStr ''safe'')])) = Some (100, ''SAFE'')"
  by (simp add: normalize_llm_result_def clamp100_def int_of_py_def dget_def py_str_def upper_def to_upper_def
      strip_def rstrip_by_def lstrip_by_def is_space_def cp_def VALID_TIERS_def Let_def)
    (simp add: char_of_def bit_iff_odd)

end
