(* ===== verification/Telegram.thy ===== *)
theory Telegram
  imports Evaluator Approval Memory
begin

text \<open>
  The Telegram bot: \<open>packages/agent_core/telegram.py\<close>. A handler is a function of the surroundings of
  the call (settings, clock, fresh identifiers, whether Redis answers), the sender, the arguments and
  the database; it returns its answer, the entries it published to the stream and the committed
  database. The wording of the answers is not modelled: an answer names the message and carries the
  values it shows. Parsing of updates is the library's, so an update is given parsed.
\<close>

section \<open>Access\<close>

record bot =
  bt_cfg :: settings
  bt_redact :: "string \<Rightarrow> string"
  bt_now :: time
  bt_task :: uuid
  bt_run :: uuid
  bt_redis :: bool

text \<open>\<open>allowed_with_db\<close>; \<open>None\<close> when the list in the settings cannot be read.\<close>

definition allowed_with_db :: "settings \<Rightarrow> int \<Rightarrow> db \<Rightarrow> bool option" where
  "allowed_with_db cfg uid s =
     map_option (\<lambda>ids. uid \<in> ids \<or> list_ex (\<lambda>i. ti_user i = uid \<and> ti_allowed i) (identities s)) (allowed_user_ids cfg)"

text \<open>The synchronous check knows the settings only.\<close>

definition allowed_by_settings :: "settings \<Rightarrow> int \<Rightarrow> bool option" where
  "allowed_by_settings cfg uid = map_option (\<lambda>ids. uid \<in> ids) (allowed_user_ids cfg)"

datatype gate = Let_in int | Turned_away | Ignored | Gate_raises

definition require :: "settings \<Rightarrow> int option \<Rightarrow> db \<Rightarrow> gate" where
  "require cfg sender s =
     (case sender of
        None \<Rightarrow> Ignored
      | Some uid \<Rightarrow>
          if uid = 0 then Ignored
          else case allowed_with_db cfg uid s of
                 None \<Rightarrow> Gate_raises
               | Some True \<Rightarrow> Let_in uid
               | Some False \<Rightarrow> Turned_away)"

text \<open>
  A message to everybody allowed. \<open>ready\<close>: the application exists or can be built; \<open>sends\<close>: whether
  the Bot API takes the message for a user.
\<close>

definition send_to_allowed :: "settings \<Rightarrow> bool \<Rightarrow> (int \<Rightarrow> bool) \<Rightarrow> string \<Rightarrow> db \<Rightarrow> bool \<times> int set" where
  "send_to_allowed cfg ready sends msg s =
     (if telegram_bot_token cfg = [] \<or> msg = [] \<or> \<not> ready then (False, {})
      else let ids = alert_recipients cfg (map ti_user (filter ti_allowed (identities s)))
           in (\<exists>u \<in> ids. sends u, ids))"

datatype getme = Bot_is pydict | No_bot | Getme_raises

definition verify_token_via_getme :: "settings \<Rightarrow> (string + pyval) \<Rightarrow> getme" where
  "verify_token_via_getme cfg resp =
     (let failed = (if is_production cfg then Getme_raises else No_bot)
      in if telegram_bot_token cfg = [] then No_bot
         else case resp of
                Inr (PDict d) \<Rightarrow>
                  if truthy (dget d ''ok'' PNone)
                  then (case dget d ''result'' (PDict []) of PDict b \<Rightarrow> Bot_is b | _ \<Rightarrow> failed)
                  else failed
              | _ \<Rightarrow> failed)"

section \<open>Answers\<close>

datatype reply =
    No_access | Overview | Usage string | No_such_run | Bad_run_id | No_runs | Empty_prompt
  | Bot_status string string nat nat nat bool
  | Run_list "(string \<times> run_status \<times> int) list"
  | Last_run uuid run_status int string "(uuid \<times> string \<times> string) option"
  | Task_created uuid
  | Watching uuid run_status "(int \<times> string) list"
  | Decided bool string
  | Not_decided svc_error
  | Pause_requested string | Stop_requested string | Resumed string | Not_resumable run_status
  | Memory_list "(string \<times> memory_status \<times> string) list" | No_memory string
  | Bad_callback | Unknown_action

datatype answer = Silent | Aborted | Says reply

type_synonym stream_entry = "pydict \<times> string"
type_synonym outcome = "answer \<times> stream_entry list \<times> db"

text \<open>The guard in front of every command.\<close>

definition guarded :: "bot \<Rightarrow> int option \<Rightarrow> db \<Rightarrow> (int \<Rightarrow> outcome) \<Rightarrow> outcome" where
  "guarded b sender s act =
     (case require (bt_cfg b) sender s of
        Let_in uid \<Rightarrow> act uid
      | Turned_away \<Rightarrow> (Says No_access, [], s)
      | Ignored \<Rightarrow> (Silent, [], s)
      | Gate_raises \<Rightarrow> (Aborted, [], s))"

definition join_args :: "string list \<Rightarrow> string" where
  "join_args args = join_with '' '' args"

definition first_arg :: "string list \<Rightarrow> string" where
  "first_arg args = (case args of [] \<Rightarrow> [] | a # _ \<Rightarrow> a)"

definition id8 :: "uuid \<Rightarrow> string" where
  "id8 i = take 8 (uuid_str i)"

section \<open>Commands that only read\<close>

definition newest_runs :: "db \<Rightarrow> run list" where
  "newest_runs s = sort_key (\<lambda>r. - r_created r) (runs s)"

definition cmd_status :: "bot \<Rightarrow> int option \<Rightarrow> db \<Rightarrow> outcome" where
  "cmd_status b sender s = guarded b sender s (\<lambda>_.
     let cfg = bt_cfg b
     in (Says (Bot_status (llm_provider cfg) (if llm_model cfg \<noteq> [] then llm_model cfg else ''-'')
                 (case allowed_user_ids cfg of None \<Rightarrow> 0 | Some ids \<Rightarrow> card ids) (length (runs s))
                 (length (filter (\<lambda>a. a_status a = A_PENDING) (approvals s))) (telegram_bot_token cfg \<noteq> [])),
         [], s))"

definition cmd_runs :: "bot \<Rightarrow> int option \<Rightarrow> db \<Rightarrow> outcome" where
  "cmd_runs b sender s = guarded b sender s (\<lambda>_.
     if runs s = [] then (Says No_runs, [], s)
     else (Says (Run_list (map (\<lambda>r. (id8 (r_id r), r_status r, r_iteration r)) (take 8 (newest_runs s)))), [], s))"

definition cmd_last :: "bot \<Rightarrow> int option \<Rightarrow> db \<Rightarrow> outcome" where
  "cmd_last b sender s = guarded b sender s (\<lambda>_.
     case newest_runs s of
       [] \<Rightarrow> (Says No_runs, [], s)
     | r # _ \<Rightarrow>
         (let a = (if r_status r = WAITING_APPROVAL
                   then (case sort_key (\<lambda>a. - a_created a) (filter (\<lambda>a. a_run a = Some (r_id r)) (approvals s)) of
                           [] \<Rightarrow> None
                         | a # _ \<Rightarrow> Some (a_id a, a_class a, take 80 (bt_redact b (a_target a))))
                   else None)
          in (Says (Last_run (r_id r) (r_status r) (r_iteration r)
                (case r_error r of None \<Rightarrow> ''-'' | Some x \<Rightarrow> if x \<noteq> [] then x else ''-'') a), [], s)))"

definition cmd_watch :: "bot \<Rightarrow> int option \<Rightarrow> string list \<Rightarrow> db \<Rightarrow> outcome" where
  "cmd_watch b sender args s = guarded b sender s (\<lambda>_.
     if first_arg args = [] then (Says (Usage ''watch''), [], s)
     else case uuid_of_string (first_arg args) of
            None \<Rightarrow> (Says Bad_run_id, [], s)
          | Some uid \<Rightarrow>
              (case get_run uid s of
                 None \<Rightarrow> (Says No_such_run, [], s)
               | Some r \<Rightarrow>
                   (Says (Watching uid (r_status r)
                      (map (\<lambda>e. (e_seq e, e_type e))
                        (rev (take 6 (sort_key (\<lambda>e. - e_seq e) (filter (\<lambda>e. e_run e = uid) (events s))))))),
                    [], s)))"

definition cmd_memory :: "bot \<Rightarrow> int option \<Rightarrow> string list \<Rightarrow> db \<Rightarrow> outcome" where
  "cmd_memory b sender args s = guarded b sender s (\<lambda>_.
     let q = join_args args;
         items = take 6 (sort_key (\<lambda>m. - m_created m)
                   (filter (\<lambda>m. q = [] \<or> ilike (m_content m) (''%'' @ q @ ''%'')) (memories s)))
     in if items = [] then (Says (No_memory q), [], s)
        else (Says (Memory_list (map (\<lambda>m. (id8 (m_id m), m_status m, take 120 (m_content m))) items)), [], s))"

section \<open>New tasks\<close>

definition bot_task :: "uuid \<Rightarrow> string \<Rightarrow> string \<Rightarrow> task" where
  "bot_task i title prompt =
     \<lparr>t_id = i, t_title = title, t_prompt = prompt, t_scope = [], t_budget = [], t_key = None\<rparr>"

text \<open>An entry is published after the commit; a failure of Redis is ignored.\<close>

definition publish_run :: "bool \<Rightarrow> string \<Rightarrow> uuid \<Rightarrow> stream_entry list" where
  "publish_run redis kind rid =
     (if redis then [([(''run_id'', PStr (uuid_str rid))], kind @ uuid_str rid)] else [])"

definition enqueue_task :: "bot \<Rightarrow> string \<Rightarrow> string \<Rightarrow> db \<Rightarrow> outcome" where
  "enqueue_task b title prompt s =
     (case add_task (bot_task (bt_task b) title prompt) s of
        None \<Rightarrow> (Aborted, [], s)
      | Some s1 \<Rightarrow>
          (case add_run (new_run (bt_run b) (bt_task b) (run_max_token_budget (bt_cfg b)) (run_max_cost_budget (bt_cfg b)) (bt_now b)) s1 of
             None \<Rightarrow> (Aborted, [], s)
           | Some s2 \<Rightarrow> (Says (Task_created (bt_run b)), publish_run (bt_redis b) ''task:'' (bt_run b), s2)))"

definition cmd_ask :: "bot \<Rightarrow> int option \<Rightarrow> string list \<Rightarrow> db \<Rightarrow> outcome" where
  "cmd_ask b sender args s = guarded b sender s (\<lambda>_.
     let prompt = join_args args
     in if prompt = [] then (Says (Usage ''ask''), [], s) else enqueue_task b (take 80 prompt) prompt s)"

definition title_and_prompt :: "string \<Rightarrow> string \<times> string" where
  "title_and_prompt raw =
     (if CHR ''|'' \<in> set raw
      then (strip (takeWhile (\<lambda>c. c \<noteq> CHR ''|'') raw), strip (tl (dropWhile (\<lambda>c. c \<noteq> CHR ''|'') raw)))
      else (take 80 raw, raw))"

definition cmd_task :: "bot \<Rightarrow> int option \<Rightarrow> string list \<Rightarrow> db \<Rightarrow> outcome" where
  "cmd_task b sender args s = guarded b sender s (\<lambda>_.
     let raw = join_args args; (title, prompt) = title_and_prompt raw
     in if raw = [] then (Says (Usage ''task''), [], s)
        else if prompt = [] then (Says Empty_prompt, [], s)
        else enqueue_task b (if title \<noteq> [] then title else ''Telegram task'') prompt s)"

section \<open>Decisions\<close>

definition resolved_user :: "int \<Rightarrow> db \<Rightarrow> string" where
  "resolved_user uid s =
     (case find (\<lambda>i. ti_user i = uid) (identities s) of
        None \<Rightarrow> []
      | Some i \<Rightarrow> (case ti_owner i of None \<Rightarrow> [] | Some u \<Rightarrow> uuid_str u))"

text \<open>
  As in the API, only an error that mentions the expiry or EXPIRED commits what the service flushed; every other one ends
  the session without a commit.
\<close>

fun keeps_expiry :: "svc_error \<Rightarrow> bool" where
  "keeps_expiry ApprovalExpired = True"
| "keeps_expiry (AlreadyDecided st) = (st = A_EXPIRED)"
| "keeps_expiry _ = False"

definition bot_decide :: "time \<Rightarrow> string \<Rightarrow> string \<Rightarrow> int \<Rightarrow> db \<Rightarrow> (svc_error + string) \<times> db" where
  "bot_decide now approval_id decision uid s =
     (if uuid_of_string approval_id = None then (Inl BadApprovalId, s)
      else case decide_with_continuation now approval_id decision (Some (resolved_user uid s)) s of
             (Inr _, s1) \<Rightarrow> (Inr decision, s1)
           | (Inl e, s1) \<Rightarrow> (Inl e, if keeps_expiry e then s1 else s))"

definition decision_outcome :: "bot \<Rightarrow> string \<Rightarrow> string \<Rightarrow> int \<Rightarrow> db \<Rightarrow> outcome" where
  "decision_outcome b approval_id decision uid s =
     (case bot_decide (bt_now b) approval_id decision uid s of
        (Inr d, s1) \<Rightarrow> (Says (Decided (d = ''approve'') (take 8 approval_id)), [], s1)
      | (Inl e, s1) \<Rightarrow> (Says (Not_decided e), [], s1))"

definition cmd_decision :: "string \<Rightarrow> bot \<Rightarrow> int option \<Rightarrow> string list \<Rightarrow> db \<Rightarrow> outcome" where
  "cmd_decision decision b sender args s = guarded b sender s (\<lambda>uid.
     if first_arg args = [] then (Says (Usage decision), [], s)
     else decision_outcome b (first_arg args) decision uid s)"

text \<open>The buttons below the last run: \<open>approve:<id>\<close> and \<open>reject:<id>\<close>.\<close>

definition on_callback :: "bot \<Rightarrow> int option \<Rightarrow> string \<Rightarrow> db \<Rightarrow> outcome" where
  "on_callback b sender data s = (if sender = None \<or> sender = Some 0 then (Says No_access, [], s) else guarded b sender s (\<lambda>uid.
     if CHR '':'' \<notin> set data then (Says Bad_callback, [], s)
     else let action = takeWhile (\<lambda>c. c \<noteq> CHR '':'') data; aid = tl (dropWhile (\<lambda>c. c \<noteq> CHR '':'') data)
          in if action \<noteq> ''approve'' \<and> action \<noteq> ''reject'' then (Says Unknown_action, [], s)
             else decision_outcome b aid action uid s))"

section \<open>Control of runs\<close>

definition on_run :: "string \<Rightarrow> bot \<Rightarrow> int option \<Rightarrow> string list \<Rightarrow> db \<Rightarrow> (uuid \<Rightarrow> run \<Rightarrow> outcome) \<Rightarrow> outcome" where
  "on_run name b sender args s act = guarded b sender s (\<lambda>_.
     if first_arg args = [] then (Says (Usage name), [], s)
     else case uuid_of_string (first_arg args) of
            None \<Rightarrow> (Says Bad_run_id, [], s)
          | Some uid \<Rightarrow> (case get_run uid s of None \<Rightarrow> (Says No_such_run, [], s) | Some r \<Rightarrow> act uid r))"

definition cmd_pause :: "bot \<Rightarrow> int option \<Rightarrow> string list \<Rightarrow> db \<Rightarrow> outcome" where
  "cmd_pause b sender args s = on_run ''pause'' b sender args s (\<lambda>uid _.
     (Says (Pause_requested (take 8 (first_arg args))), [], upd_run (bt_now b) uid (\<lambda>r. r\<lparr>r_control := Some ''pause''\<rparr>) s))"

definition cmd_stop :: "bot \<Rightarrow> int option \<Rightarrow> string list \<Rightarrow> db \<Rightarrow> outcome" where
  "cmd_stop b sender args s = on_run ''stop'' b sender args s (\<lambda>uid _.
     (Says (Stop_requested (take 8 (first_arg args))), [], upd_run (bt_now b) uid (\<lambda>r. r\<lparr>r_control := Some ''stop''\<rparr>) s))"

definition cmd_resume :: "bot \<Rightarrow> int option \<Rightarrow> string list \<Rightarrow> db \<Rightarrow> outcome" where
  "cmd_resume b sender args s = on_run ''resume'' b sender args s (\<lambda>uid r.
     if r_status r \<noteq> PAUSED \<and> r_control r \<noteq> Some ''pause'' then (Says (Not_resumable (r_status r)), [], s)
     else (Says (Resumed (take 8 (first_arg args))), publish_run (bt_redis b) ''resume:'' uid,
           upd_run (bt_now b) uid
             (\<lambda>r. r\<lparr>r_control := None, r_status := (if r_status r = PAUSED then QUEUED else r_status r)\<rparr>) s))"

section \<open>The dispatcher\<close>

datatype tg_update = Command "int option" string "string list" | Callback "int option" string | Other_update

definition COMMANDS :: "string list" where
  "COMMANDS = [''start'', ''help'', ''status'', ''ask'', ''task'', ''watch'', ''runs'', ''last'', ''approve'', ''reject'',
     ''pause'', ''resume'', ''stop'', ''memory'']"

definition run_command :: "string \<Rightarrow> bot \<Rightarrow> int option \<Rightarrow> string list \<Rightarrow> db \<Rightarrow> outcome" where
  "run_command name b sender args s =
     (if name = ''start'' \<or> name = ''help'' then (Says Overview, [], s)
      else if name = ''status'' then cmd_status b sender s
      else if name = ''ask'' then cmd_ask b sender args s
      else if name = ''task'' then cmd_task b sender args s
      else if name = ''watch'' then cmd_watch b sender args s
      else if name = ''runs'' then cmd_runs b sender s
      else if name = ''last'' then cmd_last b sender s
      else if name = ''approve'' then cmd_decision ''approve'' b sender args s
      else if name = ''reject'' then cmd_decision ''reject'' b sender args s
      else if name = ''pause'' then cmd_pause b sender args s
      else if name = ''resume'' then cmd_resume b sender args s
      else if name = ''stop'' then cmd_stop b sender args s
      else if name = ''memory'' then cmd_memory b sender args s
      else (Silent, [], s))"

definition process_update :: "bot \<Rightarrow> tg_update \<Rightarrow> db \<Rightarrow> outcome" where
  "process_update b u s =
     (case u of
        Command sender name args \<Rightarrow> run_command name b sender args s
      | Callback sender data \<Rightarrow>
          if startswith data ''approve:'' \<or> startswith data ''reject:'' then on_callback b sender data s else (Silent, [], s)
      | Other_update \<Rightarrow> (Silent, [], s))"

text \<open>
  \<open>handle_raw_update\<close>: \<open>ready\<close> says whether the application exists or can be built, \<open>parse\<close> is the
  library's reading of the body. Every error after the build is caught; the first component is
  whether the function returned.
\<close>

definition handle_raw_update ::
  "bot \<Rightarrow> bool \<Rightarrow> (pyval \<Rightarrow> tg_update option) \<Rightarrow> pyval \<Rightarrow> db \<Rightarrow> bool \<times> stream_entry list \<times> db" where
  "handle_raw_update b ready parse body s =
     (if \<not> ready then (False, [], s)
      else case parse body of
             None \<Rightarrow> (True, [], s)
           | Some u \<Rightarrow> (case process_update b u s of (_, pub, s') \<Rightarrow> (True, pub, s')))"

definition webhook_opaque_path :: "(string \<Rightarrow> string) \<Rightarrow> string \<Rightarrow> string" where
  "webhook_opaque_path sha256_hex secret = (if secret = [] then [] else take 32 (sha256_hex secret))"

text \<open>The entry the allowlist gets for a new user: the sorted numbers, joined by commas.\<close>

definition ensure_user_id_in_allowlist :: "int \<Rightarrow> settings \<Rightarrow> settings option" where
  "ensure_user_id_in_allowlist uid cfg =
     map_option (\<lambda>ids. cfg\<lparr>telegram_allowed_user_ids := join_with '','' (map int_str (sorted_list_of_set (insert uid ids)))\<rparr>)
       (allowed_user_ids cfg)"

section \<open>Who can do what\<close>

definition sender_of :: "tg_update \<Rightarrow> int option" where
  "sender_of u = (case u of Command sender _ _ \<Rightarrow> sender | Callback sender _ \<Rightarrow> sender | Other_update \<Rightarrow> None)"

lemma require_let_in:
  "require cfg sender s = Let_in uid \<longleftrightarrow>
     sender = Some uid \<and> uid \<noteq> 0 \<and>
     (\<exists>ids. allowed_user_ids cfg = Some ids \<and> (uid \<in> ids \<or> (\<exists>i \<in> set (identities s). ti_user i = uid \<and> ti_allowed i)))"
  by (auto simp: require_def allowed_with_db_def list_ex_iff split: option.splits bool.splits)

lemma guarded_cases:
  obtains uid where "require (bt_cfg b) sender s = Let_in uid" and "guarded b sender s act = act uid"
  | ans where "guarded b sender s act = (ans, [], s)" and "ans \<in> {Silent, Aborted, Says No_access}"
  by (cases "require (bt_cfg b) sender s") (auto simp: guarded_def)

lemma guarded_stranger:
  "\<forall>uid. require (bt_cfg b) sender s \<noteq> Let_in uid \<Longrightarrow>
     \<exists>ans. guarded b sender s act = (ans, [], s) \<and> ans \<in> {Silent, Aborted, Says No_access}"
  by (rule guarded_cases [of b sender s act]) auto

lemmas command_defs =
  cmd_status_def cmd_runs_def cmd_last_def cmd_watch_def cmd_memory_def cmd_ask_def cmd_task_def
  cmd_decision_def cmd_pause_def cmd_stop_def cmd_resume_def on_run_def

lemma guarded_strangerD:
  assumes "guarded b sender s act = (ans, pub, s')" and "\<forall>uid. require (bt_cfg b) sender s \<noteq> Let_in uid"
  shows "pub = [] \<and> s' = s \<and> ans \<in> {Silent, Aborted, Says No_access, Says Overview}"
  using guarded_stranger [OF assms(2), of act] assms(1) by auto

text \<open>Every command but the overview goes through the guard; the callback has an answer of its own.\<close>

definition through_guard :: "bot \<Rightarrow> int option \<Rightarrow> db \<Rightarrow> outcome \<Rightarrow> bool" where
  "through_guard b sender s out \<longleftrightarrow>
     (\<exists>ans. out = (ans, [], s) \<and> ans \<in> {Silent, Says No_access, Says Overview}) \<or> (\<exists>act. out = guarded b sender s act)"

lemma through_guard_intros:
  "through_guard b sender s (guarded b sender s act)"
  "through_guard b sender s (Silent, [], s)"
  "through_guard b sender s (Says No_access, [], s)"
  "through_guard b sender s (Says Overview, [], s)"
  by (auto simp: through_guard_def)

lemma through_guard_if:
  "through_guard b sender s x \<Longrightarrow> through_guard b sender s y \<Longrightarrow> through_guard b sender s (if c then x else y)"
  by simp

lemma command_guarded: "through_guard b sender s (run_command name b sender args s)"
  unfolding run_command_def command_defs by (intro through_guard_if through_guard_intros)

lemma callback_guarded: "through_guard b sender s (on_callback b sender data s)"
  unfolding on_callback_def by (intro through_guard_if through_guard_intros)

lemma update_guarded:
  "through_guard b (sender_of u) s (process_update b u s)"
  by (cases u) (simp_all add: process_update_def sender_of_def command_guarded callback_guarded through_guard_intros)

lemma stranger_outcome:
  assumes "\<forall>uid. require (bt_cfg b) (sender_of u) s \<noteq> Let_in uid" and "process_update b u s = (ans, pub, s')"
  shows "pub = [] \<and> s' = s \<and> ans \<in> {Silent, Aborted, Says No_access, Says Overview}"
proof -
  consider (plain) a where "process_update b u s = (a, [], s)" "a \<in> {Silent, Says No_access, Says Overview}"
    | (guard) act where "guarded b (sender_of u) s act = (ans, pub, s')"
    using update_guarded [of b u s] assms(2) unfolding through_guard_def by metis
  then show ?thesis by cases (use assms(2) guarded_strangerD [OF _ assms(1)] in auto)
qed

text \<open>
  Only an allowed user reaches the system through the bot. Whoever gets an entry published, a
  row changed or an answer other than the refusal and the public overview is a sender with a number
  that the settings list or that the database marks as allowed.
\<close>

theorem strangers_change_nothing:
  assumes "process_update b u s = (ans, pub, s')"
    and "pub \<noteq> [] \<or> s' \<noteq> s \<or> ans \<notin> {Silent, Aborted, Says No_access, Says Overview}"
  shows "\<exists>uid ids. sender_of u = Some uid \<and> uid \<noteq> 0 \<and> allowed_user_ids (bt_cfg b) = Some ids \<and>
    (uid \<in> ids \<or> (\<exists>i \<in> set (identities s). ti_user i = uid \<and> ti_allowed i))"
proof (rule ccontr)
  assume "\<not> ?thesis"
  then have "\<forall>uid. require (bt_cfg b) (sender_of u) s \<noteq> Let_in uid" by (auto simp: require_let_in)
  then have "pub = [] \<and> s' = s \<and> ans \<in> {Silent, Aborted, Says No_access, Says Overview}"
    using stranger_outcome [OF _ assms(1)] by blast
  then show False using assms(2) by blast
qed

definition demo_bot :: bot where
  "demo_bot = \<lparr>bt_cfg = default_settings\<lparr>telegram_allowed_user_ids := ''7''\<rparr>, bt_redact = (\<lambda>x. x), bt_now = 5,
     bt_task = 1, bt_run = 2, bt_redis = True\<rparr>"

lemma demo_allowed: "allowed_user_ids (bt_cfg demo_bot) = Some {7}"
  by (simp add: demo_bot_def default_settings_def) code_simp

lemma demo_require: "require (bt_cfg demo_bot) (Some 7) s = Let_in 7"
  by (simp add: require_def allowed_with_db_def demo_allowed)

lemma demo_ask:
  "process_update demo_bot (Command (Some 7) ''ask'' [''hi'']) empty_db =
     (Says (Task_created 2), [([(''run_id'', PStr (uuid_str 2))], ''task:'' @ uuid_str 2)],
      put_run (new_run 2 1 200000 5 5) (put_task (bot_task 1 ''hi'' ''hi'') empty_db))"
  by (simp add: process_update_def run_command_def cmd_ask_def guarded_def demo_require)
    (simp add: join_args_def enqueue_task_def add_task_def add_run_def tadd_def bot_task_def empty_db_def
      demo_bot_def default_settings_def publish_run_def put_run_def put_task_def new_run_def tget_def Let_def)

theorem strangers_change_nothing_witness:
  "process_update demo_bot (Command (Some 7) ''ask'' [''hi'']) empty_db \<noteq> (Silent, [], empty_db) \<and>
   (\<exists>ids. allowed_user_ids (bt_cfg demo_bot) = Some ids \<and> 7 \<in> ids)"
  using strangers_change_nothing [OF demo_ask] demo_ask by (auto simp: sender_of_def empty_db_def)

section \<open>What a message changes\<close>

text \<open>The four changes: a new task, a decision, a control request, a resumed run.\<close>

definition bot_change :: "bot \<Rightarrow> db \<Rightarrow> stream_entry list \<Rightarrow> db \<Rightarrow> bool" where
  "bot_change b s pub s' \<longleftrightarrow>
     (pub = [] \<and> s' = s) \<or>
     (\<exists>title prompt. pub = publish_run (bt_redis b) ''task:'' (bt_run b) \<and> prompt \<noteq> [] \<and> length title \<le> 255 \<and>
        s' = put_run (new_run (bt_run b) (bt_task b) (run_max_token_budget (bt_cfg b)) (run_max_cost_budget (bt_cfg b)) (bt_now b))
               (put_task (bot_task (bt_task b) title prompt) s)) \<or>
     (\<exists>aid d uid. d \<in> {''approve'', ''reject''} \<and> pub = [] \<and> s' = snd (bot_decide (bt_now b) aid d uid s)) \<or>
     (\<exists>uid r c. get_run uid s = Some r \<and> c \<in> {''pause'', ''stop''} \<and> pub = [] \<and>
        s' = upd_run (bt_now b) uid (\<lambda>r. r\<lparr>r_control := Some c\<rparr>) s) \<or>
     (\<exists>uid r. get_run uid s = Some r \<and> (r_status r = PAUSED \<or> r_control r = Some ''pause'') \<and>
        pub = publish_run (bt_redis b) ''resume:'' uid \<and>
        s' = upd_run (bt_now b) uid
               (\<lambda>r. r\<lparr>r_control := None, r_status := (if r_status r = PAUSED then QUEUED else r_status r)\<rparr>) s)"

definition changes :: "bot \<Rightarrow> db \<Rightarrow> outcome \<Rightarrow> bool" where
  "changes b s out \<longleftrightarrow> bot_change b s (fst (snd out)) (snd (snd out))"

lemma changes_nothing [simp]: "changes b s (ans, [], s)"
  by (simp add: changes_def bot_change_def)

lemma changes_guarded: "(\<And>uid. changes b s (act uid)) \<Longrightarrow> changes b s (guarded b sender s act)"
  by (simp add: guarded_def split: gate.split)

lemma changes_if: "(c \<Longrightarrow> changes b s x) \<Longrightarrow> (\<not> c \<Longrightarrow> changes b s y) \<Longrightarrow> changes b s (if c then x else y)"
  by simp

lemma changes_enqueue: "prompt \<noteq> [] \<Longrightarrow> changes b s (enqueue_task b title prompt s)"
proof (cases "add_task (bot_task (bt_task b) title prompt) s")
  case (Some s1)
  assume p: "prompt \<noteq> []"
  from Some have t: "s1 = put_task (bot_task (bt_task b) title prompt) s" "length title \<le> 255"
    by (auto dest: add_task_put) (auto simp: add_task_def bot_task_def split: if_splits)
  then show ?thesis
    using p Some by (auto simp: enqueue_task_def changes_def bot_change_def dest!: add_run_put split: option.splits)
qed (simp add: enqueue_task_def)

lemma changes_decision: "d \<in> {''approve'', ''reject''} \<Longrightarrow> changes b s (decision_outcome b aid d uid s)"
  unfolding changes_def bot_change_def decision_outcome_def
  by (rule disjI2, rule disjI2, rule disjI1, rule exI [of _ aid], rule exI [of _ d], rule exI [of _ uid])
    (simp split: prod.split sum.split)

lemma changes_on_run:
  "(\<And>uid r. get_run uid s = Some r \<Longrightarrow> changes b s (act uid r)) \<Longrightarrow> changes b s (on_run name b sender args s act)"
  by (auto simp: on_run_def intro!: changes_guarded split: option.split)

lemma changes_control:
  "get_run uid s = Some r \<Longrightarrow> c \<in> {''pause'', ''stop''} \<Longrightarrow>
     changes b s (ans, [], upd_run (bt_now b) uid (\<lambda>r. r\<lparr>r_control := Some c\<rparr>) s)"
  unfolding changes_def bot_change_def snd_conv fst_conv by blast

lemma changes_resume:
  "get_run uid s = Some r \<Longrightarrow> r_status r = PAUSED \<or> r_control r = Some ''pause'' \<Longrightarrow>
     changes b s (ans, publish_run (bt_redis b) ''resume:'' uid, upd_run (bt_now b) uid
       (\<lambda>r. r\<lparr>r_control := None, r_status := (if r_status r = PAUSED then QUEUED else r_status r)\<rparr>) s)"
  unfolding changes_def bot_change_def snd_conv fst_conv by blast

lemmas read_defs = cmd_status_def cmd_runs_def cmd_last_def cmd_watch_def cmd_memory_def

lemma changes_commands:
  "changes b s (cmd_status b sender s)" "changes b s (cmd_runs b sender s)" "changes b s (cmd_last b sender s)"
  "changes b s (cmd_watch b sender args s)" "changes b s (cmd_memory b sender args s)"
  "changes b s (cmd_ask b sender args s)" "changes b s (cmd_task b sender args s)"
  "d \<in> {''approve'', ''reject''} \<Longrightarrow> changes b s (cmd_decision d b sender args s)"
  "changes b s (cmd_pause b sender args s)" "changes b s (cmd_stop b sender args s)" "changes b s (cmd_resume b sender args s)"
  "changes b s (on_callback b sender data s)"
  unfolding read_defs cmd_ask_def cmd_task_def cmd_decision_def cmd_pause_def cmd_stop_def cmd_resume_def on_callback_def Let_def
  by (auto intro!: changes_guarded changes_if changes_enqueue changes_decision changes_on_run changes_control changes_resume
      split: option.split list.split prod.split)

lemma changes_update: "changes b s (process_update b u s)"
proof -
  have "changes b s (run_command name b sender args s)" for name sender args
    unfolding run_command_def by (intro changes_if changes_commands changes_nothing) simp_all
  then show ?thesis
    by (cases u) (auto simp: process_update_def changes_commands)
qed


section \<open>Limits\<close>

text \<open>
  A task from the bot does not go through the outbox: when Redis does not answer, the run is accepted
  and stays QUEUED without a message anywhere that would start it.
\<close>

lemma task_without_redis:
  assumes "enqueue_task (b\<lparr>bt_redis := False\<rparr>) title prompt s = (Says (Task_created rid), pub, s')"
  shows "pub = [] \<and> outbox s' = outbox s \<and> (\<exists>r. get_run rid s' = Some r \<and> r_status r = QUEUED)"
proof -
  let ?r = "new_run (bt_run b) (bt_task b) (run_max_token_budget (bt_cfg b)) (run_max_cost_budget (bt_cfg b)) (bt_now b)"
  obtain s1 where s1: "add_task (bot_task (bt_task b) title prompt) s = Some s1" "add_run ?r s1 = Some s'"
      "rid = bt_run b" "pub = []"
    using assms by (auto simp: enqueue_task_def publish_run_def split: option.splits)
  then have "get_run rid s' = Some ?r" using run_store.get_add [OF s1(2), of rid] by (simp add: new_run_def)
  moreover have "outbox s' = outbox s" using s1(1,2) by (auto dest!: add_task_put add_run_put)
  ultimately show ?thesis using s1(4) by (simp add: new_run_def)
qed

text \<open>
  A stop request on a run that waits for an approval is accepted and lost: the approval puts the run
  back into the queue without the request.
\<close>

lemma stop_lost_by_approval:
  assumes "get_run rid s = Some r" and "r_status r = WAITING_APPROVAL" and "a_run a = Some rid"
    and "ap_continue now ''approve'' a (upd_run t rid (\<lambda>r. r\<lparr>r_control := Some ''stop''\<rparr>) s) = (Inr a, s')"
  shows "\<exists>r'. get_run rid s' = Some r' \<and> r_status r' = QUEUED \<and> r_control r' = None"
proof -
  define s0 where "s0 = upd_run t rid (\<lambda>r. r\<lparr>r_control := Some ''stop''\<rparr>) s"
  have g: "get_run rid s0 = Some (r\<lparr>r_control := Some ''stop'', r_updated := Aware t\<rparr>)"
    unfolding s0_def upd_run_def using assms(1) run_store.get_key [OF assms(1)] by (subst run_store.get_upd) auto
  from assms(2,3,4) g obtain m where
    "add_outbox m (upd_run now rid (\<lambda>r. r\<lparr>r_status := QUEUED, r_control := None\<rparr>) s0) = Some s'"
    by (auto simp: ap_continue_def s0_def [symmetric] Let_def split: option.splits)
  then have "s' = put_outbox m (upd_run now rid (\<lambda>r. r\<lparr>r_status := QUEUED, r_control := None\<rparr>) s0)"
    by (simp add: add_outbox_eq split: if_splits)
  then have "get_run rid s' = get_run rid (upd_run now rid (\<lambda>r. r\<lparr>r_status := QUEUED, r_control := None\<rparr>) s0)" by simp
  also have "\<dots> = Some (r\<lparr>r_control := None, r_status := QUEUED, r_updated := Aware now\<rparr>)"
    unfolding upd_run_def by (subst run_store.get_upd) (auto simp: g)
  finally show ?thesis by simp
qed

end
