(* ===== verification/Api_Stream.thy ===== *)
theory Api_Stream
  imports Api Telegram
begin

text \<open>
  The event stream and the Telegram webhook of \<open>apps/api/app.py\<close>.
\<close>

section \<open>The event stream\<close>

definition stream_token :: "string \<Rightarrow> string" where
  "stream_token auth_h = (if startswith auth_h ''Bearer '' then strip (drop 7 auth_h) else [])"

definition stream_auth :: "(string \<Rightarrow> jwt_error + pydict) \<Rightarrow> string \<Rightarrow> http_error + unit" where
  "stream_auth decode auth_h =
     (if stream_token auth_h = [] then Inl (Http 401)
      else case decode (stream_token auth_h) of Inl _ \<Rightarrow> Inl (Http 401) | Inr _ \<Rightarrow> Inr ())"

text \<open>
  The cursor of the client: the header wins over the query parameter. \<open>None\<close> is the \<open>ValueError\<close> of
  \<open>int\<close> on a character that \<open>isdigit\<close> accepts and \<open>int\<close> does not (a superscript).
\<close>

definition parse_sse_cursor :: "string \<Rightarrow> string \<Rightarrow> int option" where
  "parse_sse_cursor header query =
     (if str_isdigit (strip header) then py_int 10 (strip header)
      else if str_isdigit (strip query) then py_int 10 (strip query)
      else Some 0)"

text \<open>The column is a 64-bit integer; a larger parameter is an error of the driver.\<close>

definition fetch_sse_events :: "int \<Rightarrow> nat \<Rightarrow> db \<Rightarrow> run_event list option" where
  "fetch_sse_events after_seq limit s =
     (if fits_int64 after_seq
      then Some (take limit (sort_key e_gseq (filter (\<lambda>e. after_seq < e_gseq e) (events s))))
      else None)"

text \<open>
  One round of the generator: the events sent and the cursor afterwards. The rounds of a connection
  see one database each; an error ends the stream.
\<close>

definition sse_round :: "int \<Rightarrow> db \<Rightarrow> (run_event list \<times> int) option" where
  "sse_round cur s =
     map_option (\<lambda>rows. (rows, fold (\<lambda>e c. max c (e_gseq e)) rows cur)) (fetch_sse_events cur 50 s)"

fun sse_rounds :: "int \<Rightarrow> db list \<Rightarrow> run_event list" where
  "sse_rounds cur [] = []"
| "sse_rounds cur (s # ss) =
     (case sse_round cur s of None \<Rightarrow> [] | Some (rows, cur') \<Rightarrow> rows @ sse_rounds cur' ss)"

definition events_stream ::
  "(string \<Rightarrow> jwt_error + pydict) \<Rightarrow> string \<Rightarrow> string \<Rightarrow> string \<Rightarrow> db list \<Rightarrow> http_error + run_event list" where
  "events_stream decode auth_h last_id query ss =
     (case stream_auth decode auth_h of
        Inl e \<Rightarrow> Inl e
      | Inr _ \<Rightarrow> (case parse_sse_cursor last_id query of None \<Rightarrow> Inl Unhandled | Some cur \<Rightarrow> Inr (sse_rounds cur ss)))"

section \<open>The webhook\<close>

definition expected_opaque_paths :: "(string \<Rightarrow> string) \<Rightarrow> settings \<Rightarrow> string set" where
  "expected_opaque_paths sha256_hex cfg =
     (let sec = telegram_webhook_secret cfg; h = sha256_hex sec
      in if sec = [] then {} else {sec, take 32 h, h, take 16 h})"

datatype webhook_answer = Handled | Dedup

text \<open>\<open>isinstance(update_id, int)\<close>, which holds for a boolean as well; a number that does not fit the
  column fails in every session of the handler, which only logs it.\<close>

definition record_id :: "pydict \<Rightarrow> int option" where
  "record_id body =
     (case dget body ''update_id'' PNone of
        PInt i \<Rightarrow> if fits_int64 i then Some i else None
      | PBool v \<Rightarrow> Some (of_bool v)
      | _ \<Rightarrow> None)"

text \<open>
  The inbox: \<open>True\<close> when the update is answered as a duplicate. \<open>snap\<close> is what the handler read, \<open>s\<close>
  the rows it writes to; the loser of two inserts is a duplicate as well.
\<close>

definition inbox :: "int \<Rightarrow> string \<Rightarrow> time \<Rightarrow> db \<Rightarrow> db \<Rightarrow> bool \<times> db" where
  "inbox i hash now snap s =
     (case get_update i snap of
        Some u \<Rightarrow> (tu_status u = ''PROCESSED'', s)
      | None \<Rightarrow>
          (case add_update \<lparr>tu_id = i, tu_processed_at = now, tu_hash = hash, tu_status = ''PENDING'', tu_attempts = 0\<rparr> s of
             None \<Rightarrow> (True, s)
           | Some s' \<Rightarrow> (False, s')))"

definition mark_update_failed :: "int option \<Rightarrow> db \<Rightarrow> db" where
  "mark_update_failed i s =
     (case i of None \<Rightarrow> s
      | Some k \<Rightarrow> upd_update k (\<lambda>u. u\<lparr>tu_status := ''FAILED'', tu_attempts := tu_attempts u + 1\<rparr>) s)"

definition mark_update_processed :: "time \<Rightarrow> int option \<Rightarrow> db \<Rightarrow> db" where
  "mark_update_processed now i s =
     (case i of None \<Rightarrow> s
      | Some k \<Rightarrow> upd_update k (\<lambda>u. u\<lparr>tu_status := ''PROCESSED'', tu_attempts := tu_attempts u + 1, tu_processed_at := now\<rparr>) s)"

definition payload_hash :: "(string \<Rightarrow> string) \<Rightarrow> (rat \<Rightarrow> string) \<Rightarrow> pydict \<Rightarrow> string" where
  "payload_hash sha256_hex fl body = take 64 (sha256_hex (json_dumps fl True (sort_keys (PDict body))))"

text \<open>
  \<open>body\<close> is \<open>None\<close> when the request is no JSON; a JSON value that is no object has no \<open>get\<close>.
\<close>

definition telegram_webhook ::
  "(string \<Rightarrow> string) \<Rightarrow> (rat \<Rightarrow> string) \<Rightarrow> bot \<Rightarrow> bool \<Rightarrow> (pyval \<Rightarrow> tg_update option) \<Rightarrow> string \<Rightarrow> string \<Rightarrow> pyval option \<Rightarrow>
   db \<Rightarrow> db \<Rightarrow> (http_error + webhook_answer) \<times> stream_entry list \<times> db" where
  "telegram_webhook sha256_hex fl b ready parse path header body snap s =
     (let cfg = bt_cfg b in
      if path \<notin> expected_opaque_paths sha256_hex cfg then (Inl (Http 404), [], s)
      else if header = [] \<or> header \<noteq> telegram_webhook_secret cfg then (Inl (Http 403), [], s)
      else case body of
             None \<Rightarrow> (Inl (Http 400), [], s)
           | Some (PDict d) \<Rightarrow>
               (case (case record_id d of None \<Rightarrow> (False, s)
                      | Some i \<Rightarrow> inbox i (payload_hash sha256_hex fl d) (bt_now b) snap s) of
                  (True, s1) \<Rightarrow> (Inr Dedup, [], s1)
                | (False, s1) \<Rightarrow>
                    (case handle_raw_update b ready parse (PDict d) s1 of
                       (False, pub, s2) \<Rightarrow> (Inl (Http 500), pub, mark_update_failed (record_id d) s2)
                     | (True, pub, s2) \<Rightarrow> (Inr Handled, pub, mark_update_processed (bt_now b) (record_id d) s2)))
           | Some _ \<Rightarrow> (Inl Unhandled, [], s))"

section \<open>The stream is a prefix of the log\<close>

definition after :: "int \<Rightarrow> db \<Rightarrow> run_event list" where
  "after cur s = filter (\<lambda>e. cur < e_gseq e) (events s)"

definition in_order :: "db \<Rightarrow> bool" where
  "in_order s \<longleftrightarrow> sorted_wrt (<) (map e_gseq (events s)) \<and> (\<forall>e \<in> set (events s). fits_int64 (e_gseq e))"

abbreviation next_cursor :: "run_event list \<Rightarrow> int \<Rightarrow> int" where
  "next_cursor rows cur \<equiv> fold (\<lambda>e c. max c (e_gseq e)) rows cur"

lemma next_cursor_bounds:
  "cur \<le> next_cursor rows cur \<and> (\<forall>e \<in> set rows. e_gseq e \<le> next_cursor rows cur) \<and>
   next_cursor rows cur \<in> insert cur (e_gseq ` set rows)"
proof (induction rows arbitrary: cur)
  case (Cons e rows)
  from Cons.IH [of "max cur (e_gseq e)"] show ?case by (auto simp: max_def split: if_splits)
qed simp

lemma after_sorted: "in_order s \<Longrightarrow> sorted_wrt (<) (map e_gseq (after cur s))"
  by (simp add: in_order_def after_def sorted_wrt_map sorted_wrt_filter)

lemma sse_round_eq:
  assumes "in_order s" and "fits_int64 cur"
  shows "sse_round cur s = Some (take 50 (after cur s), next_cursor (take 50 (after cur s)) cur)"
proof -
  have "sorted (map e_gseq (after cur s))"
    using after_sorted [OF assms(1), of cur] by (simp add: strict_sorted_iff)
  then have "sort_key e_gseq (after cur s) = after cur s" by (rule sort_key_id_if_sorted)
  then show ?thesis using assms(2) by (simp add: sse_round_def fetch_sse_events_def after_def)
qed

lemma after_next_cursor:
  assumes "in_order s" and "after cur s = rows @ rest"
  shows "after (next_cursor rows cur) s = rest"
proof -
  let ?c = "next_cursor rows cur"
  have b: "cur \<le> ?c" "\<And>e. e \<in> set rows \<Longrightarrow> e_gseq e \<le> ?c" "?c \<in> insert cur (e_gseq ` set rows)"
    using next_cursor_bounds [of cur rows] by blast+
  have "after ?c s = filter (\<lambda>e. ?c < e_gseq e) (after cur s)"
    unfolding after_def filter_filter by (rule filter_cong) (use b(1) in auto)
  also have "\<dots> = filter (\<lambda>e. ?c < e_gseq e) rows @ filter (\<lambda>e. ?c < e_gseq e) rest" by (simp add: assms(2))
  also have "filter (\<lambda>e. ?c < e_gseq e) rows = []" using b(2) by (auto simp: filter_empty_conv not_less)
  also have "filter (\<lambda>e. ?c < e_gseq e) rest = rest"
  proof (rule filter_True, rule ballI)
    fix e assume e: "e \<in> set rest"
    have "e \<in> set (after cur s)" using e assms(2) by simp
    then have "cur < e_gseq e" by (simp add: after_def)
    moreover have "e_gseq f < e_gseq e" if "f \<in> set rows" for f
      using after_sorted [OF assms(1), of cur] assms(2) e that by (auto simp: sorted_wrt_append)
    ultimately show "?c < e_gseq e" using b(3) by auto
  qed
  finally show ?thesis by simp
qed

lemma after_prefix: "prefix (events s) (events t) \<Longrightarrow> prefix (after cur s) (after cur t)"
  by (auto simp: after_def prefix_def)

definition grows :: "db list \<Rightarrow> bool" where
  "grows ss \<longleftrightarrow> list_all in_order ss \<and> sorted_wrt (\<lambda>s t. prefix (events s) (events t)) ss"

lemma next_cursor_fits:
  assumes "in_order s" and "fits_int64 cur" and "after cur s = rows @ rest"
  shows "fits_int64 (next_cursor rows cur)"
proof -
  have "fits_int64 (e_gseq e)" if "e \<in> set rows" for e
  proof -
    have "e \<in> set (after cur s)" using that assms(3) by simp
    then show ?thesis using assms(1) by (auto simp: after_def in_order_def)
  qed
  then show ?thesis using next_cursor_bounds [of cur rows] assms(2) by auto
qed

lemma next_cursor_last:
  assumes "sorted_wrt (<) (map e_gseq rows)" and "\<forall>e \<in> set rows. cur < e_gseq e"
  shows "next_cursor rows cur = (if rows = [] then cur else e_gseq (last rows))"
  using assms
proof (induction rows rule: rev_induct)
  case (snoc e rows)
  have "next_cursor rows cur < e_gseq e"
    using next_cursor_bounds [of cur rows] snoc.prems by (auto simp: sorted_wrt_append)
  then show ?case by simp
qed simp

lemma stream_facts:
  assumes "grows ss" and "ss \<noteq> []" and "fits_int64 cur"
  shows "prefix (sse_rounds cur ss) (after cur (last ss)) \<and>
    min (50 * length ss) (length (after cur (hd ss))) \<le> length (sse_rounds cur ss)"
  using assms
proof (induction ss arbitrary: cur)
  case (Cons s ss)
  let ?rows = "take 50 (after cur s)"
  let ?c = "next_cursor ?rows cur"
  have s: "in_order s" "list_all in_order ss" using Cons.prems(1) by (simp_all add: grows_def)
  have split: "after cur s = ?rows @ drop 50 (after cur s)" by simp
  have step: "sse_rounds cur (s # ss) = ?rows @ sse_rounds ?c ss"
    using sse_round_eq [OF s(1) Cons.prems(3)] by simp
  show ?case
  proof (cases "ss = []")
    case True
    then show ?thesis unfolding step by (simp add: take_is_prefix)
  next
    case False
    have "grows ss" using Cons.prems(1) by (simp add: grows_def)
    from Cons.IH [OF this False next_cursor_fits [OF s(1) Cons.prems(3) split]] have
      IH: "prefix (sse_rounds ?c ss) (after ?c (last ss))"
        "min (50 * length ss) (length (after ?c (hd ss))) \<le> length (sse_rounds ?c ss)" by blast+
    have later: "after cur t = ?rows @ after ?c t" if t: "t \<in> set ss" for t
    proof -
      have "prefix (events s) (events t)" using Cons.prems(1) t by (auto simp: grows_def)
      then obtain r where "after cur t = after cur s @ r" using after_prefix [of s t cur] by (auto elim: prefixE)
      then have "after cur t = ?rows @ (drop 50 (after cur s) @ r)" by simp
      moreover have "in_order t" using s(2) t by (simp add: list_all_iff)
      ultimately show ?thesis using after_next_cursor by metis
    qed
    have "prefix (events s) (events (hd ss))" using Cons.prems(1) False by (simp add: grows_def)
    then have "length (after cur s) \<le> length (after cur (hd ss))" by (intro prefix_length_le after_prefix)
    moreover have "length (after cur (hd ss)) = length ?rows + length (after ?c (hd ss))"
      using later [of "hd ss"] False by (metis hd_in_set length_append)
    ultimately show ?thesis
      using later [of "last ss"] IH False unfolding step by (auto simp: min_def split: if_splits)
  qed
qed simp

text \<open>
  C37: the event stream sends what the log holds, in its order, and nothing twice. As long as the
  log only grows at its end, what a connection has received after any number of rounds is a prefix
  of the events after its cursor; and after n rounds it has received at least 50 n events, or all
  those the log held when it connected. A client that reconnects with the last identifier it received goes on
  where it stopped, since the events after that identifier are those it has not received.
\<close>

theorem stream_is_prefix:
  assumes "grows ss" and "ss \<noteq> []" and "fits_int64 cur"
  shows "prefix (sse_rounds cur ss) (filter (\<lambda>e. cur < e_gseq e) (events (last ss))) \<and>
    min (50 * length ss) (length (filter (\<lambda>e. cur < e_gseq e) (events (hd ss)))) \<le> length (sse_rounds cur ss) \<and>
    (\<forall>rest. filter (\<lambda>e. cur < e_gseq e) (events (last ss)) = sse_rounds cur ss @ rest \<longrightarrow>
       filter (\<lambda>e. (if sse_rounds cur ss = [] then cur else e_gseq (last (sse_rounds cur ss))) < e_gseq e) (events (last ss)) = rest)"
proof -
  note f = stream_facts [OF assms, unfolded after_def]
  have "in_order (last ss)" using assms(1,2) by (simp add: grows_def list_all_iff)
  note last = this
  have "filter (\<lambda>e. (if sse_rounds cur ss = [] then cur else e_gseq (last (sse_rounds cur ss))) < e_gseq e) (events (last ss)) = rest"
    if r: "filter (\<lambda>e. cur < e_gseq e) (events (last ss)) = sse_rounds cur ss @ rest" for rest
  proof -
    have r: "after cur (last ss) = sse_rounds cur ss @ rest" using r by (simp add: after_def)
    have "e \<in> set (after cur (last ss))" if "e \<in> set (sse_rounds cur ss)" for e using r that by simp
    then have "\<forall>e \<in> set (sse_rounds cur ss). cur < e_gseq e" by (simp add: after_def)
    moreover have "sorted_wrt (<) (map e_gseq (sse_rounds cur ss))"
      using after_sorted [OF last, of cur] unfolding r by (simp add: sorted_wrt_append)
    ultimately show ?thesis
      using after_next_cursor [OF last r] next_cursor_last by (simp add: after_def)
  qed
  then show ?thesis using f by blast
qed

definition demo_event :: "int \<Rightarrow> run_event" where
  "demo_event n = \<lparr>e_run = 1, e_seq = n, e_gseq = n, e_type = ''X'', e_payload = []\<rparr>"

theorem stream_is_prefix_witness:
  "prefix (sse_rounds 1 [empty_db\<lparr>events := [demo_event 1, demo_event 2]\<rparr>, empty_db\<lparr>events := [demo_event 1, demo_event 2, demo_event 3]\<rparr>])
     [demo_event 2, demo_event 3]"
  using stream_is_prefix [of "[empty_db\<lparr>events := [demo_event 1, demo_event 2]\<rparr>, empty_db\<lparr>events := [demo_event 1, demo_event 2, demo_event 3]\<rparr>]" 1]
  by (simp add: grows_def in_order_def demo_event_def fits_int64_def)

text \<open>
  The assumption is needed: the number of an event is drawn before its transaction commits, so an event
  can become visible after one with a greater number. The cursor has passed it then and it is never sent.
\<close>

lemma late_commit_is_skipped: "e_gseq e \<le> cur \<Longrightarrow> e \<notin> set (sse_rounds cur ss)"
proof (induction ss arbitrary: cur)
  case (Cons s ss)
  show ?case
  proof (cases "sse_round cur s")
    case (Some rc)
    obtain rows cur' where rc: "rc = (rows, cur')" by (cases rc)
    have "e \<notin> set rows"
      using Some rc Cons.prems by (auto simp: sse_round_def fetch_sse_events_def split: if_splits dest!: in_set_takeD)
    moreover have "cur \<le> cur'"
      using Some rc next_cursor_bounds [of cur rows] by (auto simp: sse_round_def)
    ultimately show ?thesis using Cons Some rc by simp
  qed simp
qed simp

section \<open>Both channels decide alike\<close>

lemma keeps_expiry_error: "keeps_expiry e \<longleftrightarrow> decision_error e = Http 410"
  by (cases e) simp_all


section \<open>What the webhook lets through\<close>

lemma bot_decide_updates: "updates (snd (bot_decide now aid d uid s)) = updates s"
proof -
  have "updates (snd (decide_with_continuation now aid d w s)) = updates s" for w
    by (auto simp: decide_with_continuation_def ap_decide_def ap_continue_def upd_approval_def upd_run_def upd_run_raw_def
        add_outbox_def Let_def split: option.splits)
  then show ?thesis
    unfolding bot_decide_def by (auto split: prod.splits sum.splits) (metis snd_conv)+
qed

lemma update_keeps_inbox: "process_update b u s = (ans, pub, s') \<Longrightarrow> updates s' = updates s"
proof -
  assume "process_update b u s = (ans, pub, s')"
  then have "bot_change b s pub s'" using changes_update [of b s u] by (simp add: changes_def)
  then show ?thesis
    unfolding bot_change_def
    by (elim disjE exE conjE) (simp_all add: bot_decide_updates put_run_def put_task_def upd_run_def upd_run_raw_def)
qed

lemma raw_update_keeps_inbox: "handle_raw_update b ready parse body s = (ok, pub, s') \<Longrightarrow> updates s' = updates s"
  by (auto simp: handle_raw_update_def dest: update_keeps_inbox split: if_splits option.splits prod.splits)

lemma inbox_frame: "inbox i hash now snap s = (dup, s1) \<Longrightarrow> s1\<lparr>updates := updates s\<rparr> = s \<and> identities s1 = identities s"
  by (auto simp: inbox_def add_update_def split: option.splits)

lemma marks_frame [simp]:
  "(mark_update_failed k s)\<lparr>updates := us\<rparr> = s\<lparr>updates := us\<rparr>"
  "(mark_update_processed now k s)\<lparr>updates := us\<rparr> = s\<lparr>updates := us\<rparr>"
  by (simp_all add: mark_update_failed_def mark_update_processed_def upd_update_def split: option.split)

text \<open>The three guards of the webhook, and what runs behind them.\<close>

lemma webhook_cases:
  assumes "telegram_webhook sha fl b ready parse path header body snap s = (res, pub, s')"
  obtains (refused) "pub = []" "s' = s" "\<exists>e. res = Inl e"
  | (duplicate) d i where "body = Some (PDict d)" "record_id d = Some i" "res = Inr Dedup" "pub = []"
      "path \<in> expected_opaque_paths sha (bt_cfg b)" "header = telegram_webhook_secret (bt_cfg b)" "header \<noteq> []"
      "inbox i (payload_hash sha fl d) (bt_now b) snap s = (True, s')"
  | (run) d s1 s2 ok where "body = Some (PDict d)"
      "path \<in> expected_opaque_paths sha (bt_cfg b)" "header = telegram_webhook_secret (bt_cfg b)" "header \<noteq> []"
      "(case record_id d of None \<Rightarrow> (False, s) | Some i \<Rightarrow> inbox i (payload_hash sha fl d) (bt_now b) snap s) = (False, s1)"
      "handle_raw_update b ready parse (PDict d) s1 = (ok, pub, s2)"
      "res = (if ok then Inr Handled else Inl (Http 500))"
      "s' = (if ok then mark_update_processed (bt_now b) (record_id d) s2 else mark_update_failed (record_id d) s2)"
proof (cases "path \<in> expected_opaque_paths sha (bt_cfg b) \<and> header \<noteq> [] \<and> header = telegram_webhook_secret (bt_cfg b) \<and> (\<exists>d. body = Some (PDict d))")
  case False
  then have "pub = [] \<and> s' = s \<and> (\<exists>e. res = Inl e)"
    using assms by (auto simp: telegram_webhook_def Let_def split: if_splits option.splits pyval.splits)
  then show ?thesis using refused by blast
next
  case True
  then obtain d where g: "path \<in> expected_opaque_paths sha (bt_cfg b)" "header = telegram_webhook_secret (bt_cfg b)" "header \<noteq> []"
    and d: "body = Some (PDict d)" by blast
  obtain dup s1 where i: "(case record_id d of None \<Rightarrow> (False, s) | Some i \<Rightarrow> inbox i (payload_hash sha fl d) (bt_now b) snap s) = (dup, s1)"
    by (cases "case record_id d of None \<Rightarrow> (False, s) | Some i \<Rightarrow> inbox i (payload_hash sha fl d) (bt_now b) snap s")
  obtain ok p2 s2 where h: "handle_raw_update b ready parse (PDict d) s1 = (ok, p2, s2)"
    by (cases "handle_raw_update b ready parse (PDict d) s1")
  show ?thesis
  proof (cases dup)
    case True
    then show ?thesis
      using assms g d i duplicate [of d] by (auto simp: telegram_webhook_def Let_def split: option.splits)
  next
    case False
    then show ?thesis
      using assms g d i h run [of d s1 ok s2] by (cases ok) (auto simp: telegram_webhook_def Let_def)
  qed
qed

text \<open>
  C34: nothing happens through the webhook without the secret. A request that publishes an entry or
  changes a row came with the configured, non-empty secret in its header and on a path made from it;
  and beyond the inbox itself it changes something only if the update was sent by an allowed user.
\<close>

theorem webhook_guarded:
  assumes "telegram_webhook sha fl b ready parse path header body snap s = (res, pub, s')"
    and "pub \<noteq> [] \<or> s' \<noteq> s"
  shows "telegram_webhook_secret (bt_cfg b) \<noteq> [] \<and> header = telegram_webhook_secret (bt_cfg b) \<and>
    path \<in> {header, take 32 (sha header), sha header, take 16 (sha header)} \<and>
    (pub = [] \<and> s'\<lparr>updates := updates s\<rparr> = s \<or>
     (\<exists>d u uid ids. body = Some (PDict d) \<and> parse (PDict d) = Some u \<and> sender_of u = Some uid \<and>
        allowed_user_ids (bt_cfg b) = Some ids \<and> (uid \<in> ids \<or> (\<exists>i \<in> set (identities s). ti_user i = uid \<and> ti_allowed i))))"
  using assms(1)
proof (cases rule: webhook_cases)
  case refused
  then show ?thesis using assms(2) by simp
next
  case (duplicate d i)
  then show ?thesis using inbox_frame by (auto simp: expected_opaque_paths_def Let_def split: if_splits)
next
  case (run d s1 s2 ok)
  have s1: "s1\<lparr>updates := updates s\<rparr> = s" "identities s1 = identities s"
    using run(5) inbox_frame by (auto split: option.splits)
  have "pub = [] \<and> s2 = s1 \<or> (\<exists>u uid. parse (PDict d) = Some u \<and> require (bt_cfg b) (sender_of u) s1 = Let_in uid)"
    using run(6) stranger_outcome by (auto simp: handle_raw_update_def split: if_splits option.splits prod.splits)
  then show ?thesis
  proof
    assume "pub = [] \<and> s2 = s1"
    then show ?thesis using run s1(1) by (auto simp: expected_opaque_paths_def Let_def split: if_splits)
  next
    assume "\<exists>u uid. parse (PDict d) = Some u \<and> require (bt_cfg b) (sender_of u) s1 = Let_in uid"
    then show ?thesis
      using run(1-4) s1(2) by (auto simp: require_let_in expected_opaque_paths_def Let_def split: if_splits)
  qed
qed

definition hook_bot :: bot where
  "hook_bot = demo_bot\<lparr>bt_cfg := default_settings\<lparr>telegram_webhook_secret := ''s''\<rparr>\<rparr>"

definition hook_result :: db where
  "hook_result = empty_db\<lparr>updates :=
     [\<lparr>tu_id = 1, tu_processed_at = 5, tu_hash = ''h'', tu_status = ''PROCESSED'', tu_attempts = 1\<rparr>]\<rparr>"

lemma demo_hook:
  "telegram_webhook (\<lambda>_. ''h'') (\<lambda>_. []) hook_bot True (\<lambda>_. Some Other_update) ''s'' ''s'' (Some (PDict [(''update_id'', PInt 1)]))
     empty_db empty_db = (Inr Handled, [], hook_result)"
  by (simp add: telegram_webhook_def hook_bot_def demo_bot_def expected_opaque_paths_def record_id_def dget_def fits_int64_def
      inbox_def get_update_def tget_def add_update_def tadd_def empty_db_def handle_raw_update_def process_update_def
      mark_update_processed_def upd_update_def tupd_def hook_result_def payload_hash_def Let_def)

theorem webhook_guarded_witness:
  "hook_result \<noteq> empty_db \<and> hook_result\<lparr>updates := updates empty_db\<rparr> = empty_db \<and>
   ''s'' \<in> {''s'', take 32 ''h'', ''h'', take 16 ''h''}"
proof -
  have "hook_result \<noteq> empty_db" by (simp add: hook_result_def empty_db_def)
  with webhook_guarded [OF demo_hook] show ?thesis
    by (auto simp: hook_result_def empty_db_def)
qed



text \<open>
  The path for failures is not taken: every error of a handler is caught before it reaches the
  webhook, so an update that could not even be read is answered with success and never sent again. And
  while the first delivery of an update is being handled, a second one is handled as well.
\<close>

lemma failed_update_is_processed:
  "path \<in> expected_opaque_paths sha (bt_cfg b) \<Longrightarrow> header = telegram_webhook_secret (bt_cfg b) \<Longrightarrow> header \<noteq> [] \<Longrightarrow>
   record_id d = None \<Longrightarrow> telegram_webhook sha fl b True (\<lambda>_. None) path header (Some (PDict d)) snap s = (Inr Handled, [], s)"
  by (simp add: telegram_webhook_def handle_raw_update_def mark_update_processed_def Let_def)

lemma pending_update_is_handled_again:
  "get_update i s = Some u \<Longrightarrow> tu_status u = ''PENDING'' \<Longrightarrow> inbox i h now s s = (False, s)"
  by (simp add: inbox_def)

end
