(* ===== verification/Scorer.thy ===== *)
theory Scorer
  imports Evaluator
begin

text \<open>
  The poller of the chat rooms: \<open>apps/scheduler/agent_scorer.py\<close>. It reads every room from its cursor
  on, evaluates the messages, stores one row per message and moves the cursor. The database session
  is explicit: what is committed, what the open transaction sees, and whether a failed flush has left
  it unusable until the next rollback. \<open>net room since\<close> is what \<open>read_room\<close> answers without a session
  (see \<open>Technocore\<close>), \<open>ev\<close> the evaluator.
\<close>

section \<open>The session\<close>

record score_row =
  sr_room :: string
  sr_seq :: int
  sr_gseq :: int
  sr_nick :: string
  sr_did :: "string option"
  sr_text :: string
  sr_raw :: pydict
  sr_score :: int
  sr_tier :: string
  sr_reason :: string
  sr_dims :: dims
  sr_model :: string

record store =
  st_rows :: "score_row list"
  st_cursors :: cursor_rows

record sess =
  se_committed :: store
  se_work :: store
  se_broken :: bool

definition rollback :: "sess \<Rightarrow> sess" where
  "rollback s = s\<lparr>se_work := se_committed s, se_broken := False\<rparr>"

text \<open>\<open>commit\<close>, and the rollback in the handler around it.\<close>

definition commit_or_rollback :: "sess \<Rightarrow> sess" where
  "commit_or_rollback s = (if se_broken s then rollback s else s\<lparr>se_committed := se_work s\<rparr>)"

text \<open>\<open>get_cursor\<close>; the handler of a failure takes 0.\<close>

definition cursor_or_zero :: "string \<Rightarrow> sess \<Rightarrow> int" where
  "cursor_or_zero room s = (if se_broken s then 0 else get_cursor room (st_cursors (se_work s)))"

text \<open>\<open>set_cursor\<close> in the session: whether it succeeded. A value that does not fit breaks the session.\<close>

definition session_cursor :: "string \<Rightarrow> int \<Rightarrow> sess \<Rightarrow> bool \<times> sess" where
  "session_cursor room n s =
     (if n < 0 \<or> se_broken s then (False, s)
      else case set_cursor room n (st_cursors (se_work s)) of
             (None, rows) \<Rightarrow> (True, s\<lparr>se_work := (se_work s)\<lparr>st_cursors := rows\<rparr>\<rparr>)
           | (Some _, _) \<Rightarrow> (False, s\<lparr>se_broken := True\<rparr>))"

text \<open>The cursor update that \<open>read_room\<close> makes when it is given the session; it ignores a failure.\<close>

definition read_advances :: "string \<Rightarrow> pydict \<Rightarrow> sess \<Rightarrow> sess" where
  "read_advances room data s =
     (let v = dget data ''last_seq'' (PInt 0)
      in case int_of_py (if truthy v then v else PInt 0) of
           None \<Rightarrow> s
         | Some n \<Rightarrow> snd (session_cursor room n s))"

definition poll_read ::
  "(string \<Rightarrow> int \<Rightarrow> tc_error + pydict) \<Rightarrow> string \<Rightarrow> int \<Rightarrow> sess \<Rightarrow> (tc_error + pydict) \<times> sess" where
  "poll_read net room since s =
     (case net room since of Inl e \<Rightarrow> (Inl e, s) | Inr d \<Rightarrow> (Inr d, read_advances room d s))"

section \<open>Rooms\<close>

definition configured_rooms :: "string \<Rightarrow> string list" where
  "configured_rooms raw = filter (\<lambda>x. x \<noteq> []) (map strip (split_on CHR '','' raw))"

definition get_rooms :: "settings \<Rightarrow> string list" where
  "get_rooms cfg =
     (if \<not> technocore_enabled cfg \<or> strip (technocore_monitored_rooms cfg) = [] then []
      else configured_rooms (technocore_monitored_rooms cfg))"

text \<open>
  Iterating over a JSON value: a list, the keys of a dictionary, the characters of a string; other
  values raise (\<open>None\<close>). An absent or empty value was replaced by the empty list before.
\<close>

definition items_of :: "pyval \<Rightarrow> pyval list option" where
  "items_of v =
     (if \<not> truthy v then Some []
      else case v of
             PList xs \<Rightarrow> Some xs
           | PDict d \<Rightarrow> Some (map (\<lambda>(k, _). PStr k) d)
           | PStr s \<Rightarrow> Some (map (\<lambda>c. PStr [c]) s)
           | _ \<Rightarrow> None)"

definition room_re :: re where
  "room_re = cats [Lit ''/r/'', Group 1 (Cat (Cls room_first)
     (Many (\<lambda>c. room_first c \<or> c = CHR ''_'' \<or> c = CHR ''-'') 0 (Some 47)))]"

text \<open>The room a message of the event room names; a value that is no string raises at \<open>strip\<close>.\<close>

definition candidate_of :: "(pyval \<Rightarrow> string) \<Rightarrow> pydict \<Rightarrow> (unit + string option)" where
  "candidate_of rp m =
     (let c = py_or (py_or (dget m ''room'' PNone) (dget m ''target_room'' PNone)) (dget m ''channel'' PNone)
      in if truthy c then (case c of PStr s \<Rightarrow> Inr (Some (strip s)) | _ \<Rightarrow> Inl ())
         else Inr (map_option strip (search_group room_re (py_str rp (py_or (dget m ''text'' (PStr [])) (PStr []))))))"

fun discover :: "(pyval \<Rightarrow> string) \<Rightarrow> string list \<Rightarrow> pyval list \<Rightarrow> string list \<Rightarrow> bool \<times> string list" where
  "discover rp rooms [] found = (True, found)"
| "discover rp rooms (m # ms) found =
     (case m of
        PDict d \<Rightarrow>
          (case candidate_of rp d of
             Inl _ \<Rightarrow> (False, found)
           | Inr None \<Rightarrow> discover rp rooms ms found
           | Inr (Some c) \<Rightarrow>
               discover rp rooms ms
                 (if c \<noteq> [] \<and> c \<notin> set rooms \<and> c \<notin> set found \<and> room_ok c then found @ [c] else found))
      | _ \<Rightarrow> discover rp rooms ms found)"

definition poll_events ::
  "(string \<Rightarrow> int \<Rightarrow> tc_error + pydict) \<Rightarrow> (pyval \<Rightarrow> string) \<Rightarrow> string list \<Rightarrow> string list \<Rightarrow> sess \<Rightarrow> string list \<times> sess" where
  "poll_events net rp rooms found s =
     (let cursor = cursor_or_zero ''events'' s
      in case poll_read net ''events'' cursor s of
           (Inl _, s1) \<Rightarrow> (found, s1)
         | (Inr d, s1) \<Rightarrow>
             (case items_of (dget d ''messages'' (PList [])) of
                None \<Rightarrow> (found, s1)
              | Some ms \<Rightarrow>
                  (case discover rp rooms ms found of
                     (False, found') \<Rightarrow> (found', s1)
                   | (True, found') \<Rightarrow>
                       (found',
                        (let v = dget d ''last_seq'' (PInt cursor)
                         in case int_of_py (if truthy v then v else PInt cursor) of
                              None \<Rightarrow> rollback s1
                            | Some n \<Rightarrow>
                                if cursor < n
                                then (case session_cursor ''events'' n s1 of
                                        (True, s2) \<Rightarrow> commit_or_rollback s2
                                      | (False, s2) \<Rightarrow> rollback s2)
                                else s1)))))"

section \<open>One message\<close>

definition seq_of :: "pydict \<Rightarrow> int" where
  "seq_of m =
     (let get = (\<lambda>k. let v = dget m k (PInt 0) in
                     case int_of_py (if truthy v then v else PInt 0) of None \<Rightarrow> 0 | Some n \<Rightarrow> n)
      in if get ''seq'' \<noteq> 0 then get ''seq'' else get ''global_seq'')"

definition gseq_value :: "pydict \<Rightarrow> int \<Rightarrow> pyval" where
  "gseq_value m seq = (let v = dget m ''global_seq'' (PInt seq) in if truthy v then v else PInt seq)"

text \<open>
  The evaluator is called with \<open>int\<close> of the global number: a text that is no number is a
  \<open>ValueError\<close>, for which there is no second attempt.
\<close>

definition evaluates :: "pydict \<Rightarrow> int \<Rightarrow> bool" where
  "evaluates m seq \<longleftrightarrow>
     (case gseq_value m seq of PStr s \<Rightarrow> py_int 10 s \<noteq> None | _ \<Rightarrow> True)"

definition any_of :: "(pyval \<Rightarrow> string) \<Rightarrow> pydict \<Rightarrow> string list \<Rightarrow> string" where
  "any_of rp m ks = py_str rp (fold (\<lambda>k v. py_or v (dget m k (PStr []))) ks (PStr []))"

definition did_of :: "(pyval \<Rightarrow> string) \<Rightarrow> pydict \<Rightarrow> string option" where
  "did_of rp m = (let v = dget m ''did'' PNone in if v = PNone then None else Some (py_str rp v))"

type_synonym evaluator = "string \<Rightarrow> string \<Rightarrow> string option \<Rightarrow> string \<Rightarrow> evaluation"

text \<open>The row of a message, if it has a number and is evaluated.\<close>

definition row_of :: "(pyval \<Rightarrow> string) \<Rightarrow> evaluator \<Rightarrow> string \<Rightarrow> pydict \<Rightarrow> score_row" where
  "row_of rp ev room m =
     (let seq = seq_of m; msg = any_of rp m [''text'', ''message'']; nick = any_of rp m [''nick'', ''author'', ''sender''];
          e = ev msg nick (did_of rp m) room
      in \<lparr>sr_room = room, sr_seq = seq,
          sr_gseq = (case int_of_py (gseq_value m seq) of None \<Rightarrow> seq | Some n \<Rightarrow> n),
          sr_nick = (if nick \<noteq> [] then take 120 nick else ''unknown''), sr_did = did_of rp m,
          sr_text = take 4000 msg, sr_raw = m, sr_score = ev_score e,
          sr_tier = (if ev_tier e \<noteq> [] then ev_tier e else ''SAFE''), sr_reason = take 500 (ev_reason e),
          sr_dims = ev_dims e, sr_model = take 80 (ev_model e)\<rparr>)"

text \<open>
  What the columns take: 64-bit numbers, an identity of at most 80 characters, no zero character in
  a text (PostgreSQL refuses it in texts and in JSON).
\<close>

fun has_nul :: "pyval \<Rightarrow> bool" where
  "has_nul (PStr s) \<longleftrightarrow> (\<exists>c \<in> set s. cp c = 0)"
| "has_nul (PList xs) \<longleftrightarrow> list_ex has_nul xs"
| "has_nul (PDict d) \<longleftrightarrow> list_ex (\<lambda>(k, v). (\<exists>c \<in> set k. cp c = 0) \<or> has_nul v) d"
| "has_nul _ \<longleftrightarrow> False"

definition row_fits :: "score_row \<Rightarrow> bool" where
  "row_fits r \<longleftrightarrow> fits_int64 (sr_seq r) \<and> fits_int64 (sr_gseq r) \<and>
     (case sr_did r of None \<Rightarrow> True | Some d \<Rightarrow> length d \<le> 80 \<and> \<not> has_nul (PStr d)) \<and>
     \<not> has_nul (PStr (sr_nick r)) \<and> \<not> has_nul (PStr (sr_text r)) \<and> \<not> has_nul (PStr (sr_reason r)) \<and>
     \<not> has_nul (PDict (sr_raw r))"

definition stored :: "string \<Rightarrow> int \<Rightarrow> score_row list \<Rightarrow> bool" where
  "stored room seq rows \<longleftrightarrow> list_ex (\<lambda>r. sr_room r = room \<and> sr_seq r = seq) rows"

text \<open>The state of the loop over the messages: the session, the greatest number, the rows alerted.\<close>

record room_state =
  rm_sess :: sess
  rm_max :: int
  rm_done :: "score_row list"

definition saw :: "int \<Rightarrow> room_state \<Rightarrow> room_state" where
  "saw seq x = (if rm_max x < seq then x\<lparr>rm_max := seq\<rparr> else x)"

definition store_row :: "score_row \<Rightarrow> sess \<Rightarrow> sess" where
  "store_row r s = s\<lparr>se_work := (se_work s)\<lparr>st_rows := st_rows (se_work s) @ [r]\<rparr>\<rparr>"

definition poll_message :: "(pyval \<Rightarrow> string) \<Rightarrow> evaluator \<Rightarrow> string \<Rightarrow> pyval \<Rightarrow> room_state \<Rightarrow> room_state" where
  "poll_message rp ev room msg x =
     (case msg of
        PDict m \<Rightarrow>
          (let seq = seq_of m; s = rm_sess x
           in if seq = 0 then x
              else if \<not> evaluates m seq then saw seq x
              else if se_broken s then saw seq (x\<lparr>rm_sess := rollback s\<rparr>)
              else if stored room seq (st_rows (se_work s)) then saw seq x
              else (let r = row_of rp ev room m
                    in if row_fits r
                       then saw seq (x\<lparr>rm_sess := store_row r s, rm_done := rm_done x @ [r]\<rparr>)
                       else saw seq (x\<lparr>rm_sess := rollback s\<rparr>)))
      | _ \<Rightarrow> x)"

section \<open>A room, and all of them\<close>

datatype poll = Polled sess "score_row list" | Poll_raises sess

definition room_last_seq :: "pydict \<Rightarrow> int \<Rightarrow> int" where
  "room_last_seq d cursor =
     (let v = dget d ''last_seq'' (PInt cursor)
      in if v = PNone then cursor else case int_of_py v of None \<Rightarrow> cursor | Some n \<Rightarrow> n)"

definition finish_room :: "string \<Rightarrow> int \<Rightarrow> int \<Rightarrow> sess \<Rightarrow> sess" where
  "finish_room room cursor new_cursor s =
     (if cursor < new_cursor
      then (case session_cursor room new_cursor s of
              (True, s1) \<Rightarrow> commit_or_rollback s1
            | (False, s1) \<Rightarrow> rollback s1)
      else commit_or_rollback s)"

definition poll_room ::
  "(string \<Rightarrow> int \<Rightarrow> tc_error + pydict) \<Rightarrow> (pyval \<Rightarrow> string) \<Rightarrow> evaluator \<Rightarrow> string \<Rightarrow> sess \<Rightarrow> poll" where
  "poll_room net rp ev room s =
     (let cursor = cursor_or_zero room s
      in case poll_read net room cursor s of
           (Inl _, s1) \<Rightarrow> Polled s1 []
         | (Inr d, s1) \<Rightarrow>
             (case items_of (dget d ''messages'' (PList [])) of
                None \<Rightarrow> Poll_raises s1
              | Some ms \<Rightarrow>
                  (let x = fold (poll_message rp ev room) ms \<lparr>rm_sess = s1, rm_max = cursor, rm_done = []\<rparr>;
                       last_seq = room_last_seq d cursor
                   in Polled (finish_room room cursor (if rm_max x < last_seq then last_seq else rm_max x) (rm_sess x))
                        (rm_done x))))"

fun poll_rooms ::
  "(string \<Rightarrow> int \<Rightarrow> tc_error + pydict) \<Rightarrow> (pyval \<Rightarrow> string) \<Rightarrow> evaluator \<Rightarrow> string list \<Rightarrow> sess \<Rightarrow> poll" where
  "poll_rooms net rp ev [] s = Polled s []"
| "poll_rooms net rp ev (room # rooms) s =
     (case poll_room net rp ev room s of
        Poll_raises s' \<Rightarrow> Poll_raises s'
      | Polled s' done1 \<Rightarrow>
          (case poll_rooms net rp ev rooms s' of
             Poll_raises s'' \<Rightarrow> Poll_raises s''
           | Polled s'' done2 \<Rightarrow> Polled s'' (done1 @ done2)))"

text \<open>One poll; the rooms found so far are kept from poll to poll.\<close>

definition poll_once ::
  "settings \<Rightarrow> (string \<Rightarrow> int \<Rightarrow> tc_error + pydict) \<Rightarrow> (pyval \<Rightarrow> string) \<Rightarrow> evaluator \<Rightarrow> string list \<Rightarrow> sess \<Rightarrow>
   string list \<times> poll" where
  "poll_once cfg net rp ev found s =
     (if \<not> technocore_enabled cfg then (found, Polled s [])
      else let (found', s1) = poll_events net rp (get_rooms cfg) found s
           in (found', poll_rooms net rp ev (get_rooms cfg @ sort found') s1))"

section \<open>What a poll of a room records\<close>

text \<open>
  The contract: the rows the messages ask for, the numbers they carry, and a session with nothing
  pending and no failure behind it.
\<close>

definition wanted :: "(pyval \<Rightarrow> string) \<Rightarrow> evaluator \<Rightarrow> string \<Rightarrow> pyval \<Rightarrow> score_row option" where
  "wanted rp ev room msg =
     (case msg of PDict m \<Rightarrow> if seq_of m \<noteq> 0 \<and> evaluates m (seq_of m) then Some (row_of rp ev room m) else None
      | _ \<Rightarrow> None)"

definition wanted_rows :: "(pyval \<Rightarrow> string) \<Rightarrow> evaluator \<Rightarrow> string \<Rightarrow> pyval list \<Rightarrow> score_row list" where
  "wanted_rows rp ev room ms = List.map_filter (wanted rp ev room) ms"

definition number_of :: "pyval \<Rightarrow> int option" where
  "number_of msg = (case msg of PDict m \<Rightarrow> if seq_of m \<noteq> 0 then Some (seq_of m) else None | _ \<Rightarrow> None)"

definition numbers :: "pyval list \<Rightarrow> int list" where
  "numbers ms = List.map_filter number_of ms"

definition clean :: "sess \<Rightarrow> bool" where
  "clean s \<longleftrightarrow> \<not> se_broken s \<and> se_work s = se_committed s"

definition add_rows :: "score_row list \<Rightarrow> sess \<Rightarrow> sess" where
  "add_rows rs s = s\<lparr>se_work := (se_work s)\<lparr>st_rows := st_rows (se_work s) @ rs\<rparr>\<rparr>"

lemma wanted_rows_simps [simp]:
  "wanted_rows rp ev room [] = []"
  "wanted_rows rp ev room (m # ms) =
     (case wanted rp ev room m of None \<Rightarrow> wanted_rows rp ev room ms | Some r \<Rightarrow> r # wanted_rows rp ev room ms)"
  by (simp_all add: wanted_rows_def List.map_filter_simps split: option.split)

lemma add_rows_simps [simp]:
  "se_broken (add_rows rs s) = se_broken s"
  "se_committed (add_rows rs s) = se_committed s"
  "st_rows (se_work (add_rows rs s)) = st_rows (se_work s) @ rs"
  "st_cursors (se_work (add_rows rs s)) = st_cursors (se_work s)"
  "add_rows rs' (add_rows rs s) = add_rows (rs @ rs') s"
  "add_rows [] s = s"
  by (simp_all add: add_rows_def)

lemma stored_append: "stored room n (xs @ ys) \<longleftrightarrow> stored room n xs \<or> stored room n ys"
  by (simp add: stored_def)

lemma stored_row: "sr_room r = room \<Longrightarrow> stored room n (r # rs) \<longleftrightarrow> sr_seq r = n \<or> stored room n rs"
  by (auto simp: stored_def)

lemma row_of_simps [simp]: "sr_room (row_of rp ev room m) = room" "sr_seq (row_of rp ev room m) = seq_of m"
  by (simp_all add: row_of_def Let_def)

text \<open>One message, in a session that works and with a row that fits.\<close>

lemma message_recorded:
  assumes "\<not> se_broken (rm_sess x)" and "\<And>r. wanted rp ev room msg = Some r \<Longrightarrow> row_fits r"
  shows "poll_message rp ev room msg x =
     (let news = (case wanted rp ev room msg of
                    None \<Rightarrow> []
                  | Some r \<Rightarrow> if stored room (sr_seq r) (st_rows (se_work (rm_sess x))) then [] else [r])
      in x\<lparr>rm_sess := add_rows news (rm_sess x), rm_done := rm_done x @ news,
           rm_max := (case number_of msg of None \<Rightarrow> rm_max x | Some n \<Rightarrow> max (rm_max x) n)\<rparr>)"
  using assms
  by (cases msg) (auto simp: poll_message_def wanted_def number_of_def saw_def Let_def store_row_def add_rows_def max_def)

lemma message_refused:
  assumes "\<not> se_broken (rm_sess x)" and "wanted rp ev room msg = Some r" and "\<not> row_fits r"
    and "\<not> stored room (sr_seq r) (st_rows (se_work (rm_sess x)))"
  shows "poll_message rp ev room msg x = x\<lparr>rm_sess := rollback (rm_sess x), rm_max := max (rm_max x) (sr_seq r)\<rparr>"
  using assms
  by (cases msg) (auto simp: poll_message_def wanted_def saw_def Let_def max_def split: if_splits)

lemma wanted_row: "wanted rp ev room msg = Some r \<Longrightarrow> sr_room r = room \<and> number_of msg = Some (sr_seq r)"
  by (auto simp: wanted_def number_of_def split: pyval.splits if_splits)

lemma messages_recorded:
  assumes "\<not> se_broken (rm_sess x)" and "list_all row_fits (wanted_rows rp ev room ms)"
  shows "\<exists>news. fold (poll_message rp ev room) ms x =
       x\<lparr>rm_sess := add_rows news (rm_sess x), rm_done := rm_done x @ news, rm_max := fold max (numbers ms) (rm_max x)\<rparr> \<and>
     distinct (map sr_seq news) \<and>
     (\<forall>r \<in> set news. r \<in> set (wanted_rows rp ev room ms) \<and> \<not> stored room (sr_seq r) (st_rows (se_work (rm_sess x)))) \<and>
     (\<forall>r \<in> set (wanted_rows rp ev room ms). stored room (sr_seq r) (st_rows (se_work (rm_sess x)) @ news))"
  using assms
proof (induction ms arbitrary: x)
  case Nil
  show ?case by (rule exI [of _ "[]"]) (simp add: numbers_def)
next
  case (Cons m ms)
  let ?rows = "st_rows (se_work (rm_sess x))"
  define one where "one = (case wanted rp ev room m of
      None \<Rightarrow> [] | Some r \<Rightarrow> if stored room (sr_seq r) ?rows then [] else [r])"
  define y where "y = poll_message rp ev room m x"
  have y: "y = x\<lparr>rm_sess := add_rows one (rm_sess x), rm_done := rm_done x @ one,
           rm_max := (case number_of m of None \<Rightarrow> rm_max x | Some n \<Rightarrow> max (rm_max x) n)\<rparr>"
    unfolding y_def one_def by (rule message_recorded [unfolded Let_def]) (use Cons.prems in simp_all)
  have "\<not> se_broken (rm_sess y)" using y Cons.prems(1) by simp
  have fit: "list_all row_fits (wanted_rows rp ev room ms)" using Cons.prems(2) by (simp split: option.splits)
  have ry: "st_rows (se_work (rm_sess y)) = ?rows @ one" by (simp add: y)
  from Cons.IH [OF \<open>\<not> se_broken (rm_sess y)\<close> fit, unfolded ry] obtain news where
    n: "fold (poll_message rp ev room) ms y =
       y\<lparr>rm_sess := add_rows news (rm_sess y), rm_done := rm_done y @ news, rm_max := fold max (numbers ms) (rm_max y)\<rparr>"
      "distinct (map sr_seq news)"
      "\<forall>r \<in> set news. r \<in> set (wanted_rows rp ev room ms) \<and> \<not> stored room (sr_seq r) (?rows @ one)"
      "\<forall>r \<in> set (wanted_rows rp ev room ms). stored room (sr_seq r) ((?rows @ one) @ news)"
    by blast
  have one: "one = [] \<and> (\<forall>r. wanted rp ev room m = Some r \<longrightarrow> stored room (sr_seq r) ?rows) \<or>
      (\<exists>r. one = [r] \<and> wanted rp ev room m = Some r \<and> \<not> stored room (sr_seq r) ?rows \<and> sr_room r = room)"
    using wanted_row [of rp ev room m] by (auto simp: one_def split: option.splits)
  show ?case
  proof (intro exI [of _ "one @ news"] conjI)
    show "fold (poll_message rp ev room) (m # ms) x =
       x\<lparr>rm_sess := add_rows (one @ news) (rm_sess x), rm_done := rm_done x @ (one @ news),
         rm_max := fold max (numbers (m # ms)) (rm_max x)\<rparr>"
      using n(1) by (simp add: y_def [symmetric]) (simp add: y numbers_def List.map_filter_simps max.commute split: option.split)
    show "distinct (map sr_seq (one @ news))"
      using one n(2,3) by (auto simp: stored_append stored_row image_iff)
    show "\<forall>r \<in> set (one @ news). r \<in> set (wanted_rows rp ev room (m # ms)) \<and> \<not> stored room (sr_seq r) ?rows"
      using one n(3) by (auto simp: stored_append split: option.split)
    show "\<forall>r \<in> set (wanted_rows rp ev room (m # ms)). stored room (sr_seq r) (?rows @ one @ news)"
      using one n(4) by (auto simp: stored_append stored_row split: option.splits)
  qed
qed

lemma session_cursor_advances:
  assumes "\<not> se_broken s" and "n < 2 ^ 31" and "0 \<le> get_cursor room (st_cursors (se_work s))"
  obtains rows where "session_cursor room n s = (0 \<le> n, s\<lparr>se_work := (se_work s)\<lparr>st_cursors := rows\<rparr>\<rparr>)"
    and "get_cursor room rows = max (get_cursor room (st_cursors (se_work s))) n"
    and "\<And>q. q \<noteq> room \<Longrightarrow> rows q = st_cursors (se_work s) q"
proof (cases "n < 0")
  case True
  with assms(3) show ?thesis by (intro that [of "st_cursors (se_work s)"]) (simp_all add: session_cursor_def)
next
  case False
  then have "fits_int32 n" using assms(2) by (simp add: fits_int32_def)
  with False assms show ?thesis
    by (intro that [of "snd (set_cursor room n (st_cursors (se_work s)))"])
      (auto simp: session_cursor_def set_cursor_def get_cursor_def split: option.splits)
qed

lemma read_advances_cursor:
  assumes "\<not> se_broken s" and "0 \<le> get_cursor room (st_cursors (se_work s))"
    and "room_last_seq d (get_cursor room (st_cursors (se_work s))) < 2 ^ 31"
  obtains rows where "read_advances room d s = s\<lparr>se_work := (se_work s)\<lparr>st_cursors := rows\<rparr>\<rparr>"
    and "get_cursor room (st_cursors (se_work s)) \<le> get_cursor room rows"
    and "get_cursor room rows \<le> max (get_cursor room (st_cursors (se_work s))) (room_last_seq d (get_cursor room (st_cursors (se_work s))))"
    and "\<And>q. q \<noteq> room \<Longrightarrow> rows q = st_cursors (se_work s) q"
proof -
  let ?c = "get_cursor room (st_cursors (se_work s))"
  let ?v = "dget d ''last_seq'' (PInt 0)"
  show ?thesis
  proof (cases "int_of_py (if truthy ?v then ?v else PInt 0)")
    case None
    then show ?thesis by (intro that [of "st_cursors (se_work s)"]) (simp_all add: read_advances_def Let_def)
  next
    case (Some n)
    have n: "n = 0 \<or> n = room_last_seq d ?c"
      using Some by (auto simp: room_last_seq_def dget_def int_of_py_def Let_def split: if_splits option.splits)
    then have "n < 2 ^ 31" using assms(3) by auto
    from session_cursor_advances [OF assms(1) this assms(2)] obtain rows where
      r: "session_cursor room n s = (0 \<le> n, s\<lparr>se_work := (se_work s)\<lparr>st_cursors := rows\<rparr>\<rparr>)"
        "get_cursor room rows = max ?c n" "\<And>q. q \<noteq> room \<Longrightarrow> rows q = st_cursors (se_work s) q" by blast
    show ?thesis
      using n assms(2) r Some by (intro that [of rows]) (auto simp: read_advances_def Let_def)
  qed
qed

lemma finish_room_commits:
  assumes "\<not> se_broken s" and "0 \<le> get_cursor room (st_cursors (se_work s))" and "0 \<le> c" and "c < n \<Longrightarrow> n < 2 ^ 31"
  obtains s' where "finish_room room c n s = s'" and "clean s'"
    and "st_rows (se_committed s') = st_rows (se_work s)"
    and "get_cursor room (st_cursors (se_committed s')) =
           (if c < n then max (get_cursor room (st_cursors (se_work s))) n else get_cursor room (st_cursors (se_work s)))"
    and "\<And>q. q \<noteq> room \<Longrightarrow> st_cursors (se_committed s') q = st_cursors (se_work s) q"
proof (cases "c < n")
  case True
  with assms(4) have "n < 2 ^ 31" by simp
  from session_cursor_advances [OF assms(1) this assms(2)] obtain rows where
    "session_cursor room n s = (0 \<le> n, s\<lparr>se_work := (se_work s)\<lparr>st_cursors := rows\<rparr>\<rparr>)"
    "get_cursor room rows = max (get_cursor room (st_cursors (se_work s))) n"
    "\<And>q. q \<noteq> room \<Longrightarrow> rows q = st_cursors (se_work s) q" by blast
  with assms(1,3) True show ?thesis
    by (intro that [of "finish_room room c n s"]) (auto simp: finish_room_def commit_or_rollback_def clean_def)
qed (use assms(1) in \<open>auto simp: finish_room_def commit_or_rollback_def clean_def intro!: that\<close>)

lemma poll_room_read:
  assumes "clean s" and "net room (get_cursor room (st_cursors (se_committed s))) = Inr d"
    and "dget d ''messages'' (PList []) = PList ms"
  shows "poll_room net rp ev room s =
     (let c = get_cursor room (st_cursors (se_committed s));
          x = fold (poll_message rp ev room) ms \<lparr>rm_sess = read_advances room d s, rm_max = c, rm_done = []\<rparr>
      in Polled (finish_room room c (if rm_max x < room_last_seq d c then room_last_seq d c else rm_max x) (rm_sess x))
           (rm_done x))"
  using assms by (cases ms) (simp_all add: poll_room_def cursor_or_zero_def poll_read_def items_of_def clean_def Let_def)

lemma greater_of: "(if a < b then b else a) = max b (a :: int)"
  by simp

lemma fold_max: "fold max ns (c :: int) = Max (insert c (set ns))"
  by (simp add: Max.set_eq_fold [symmetric])

lemma top_number:
  "(if fold max ns c < l then l else fold max ns c) = Max (set (c # l # ns))"
  "c \<le> Max (set (c # l # ns))" "l \<le> Max (set (c # l # ns))" "Max (set (c # l # ns)) \<in> set (c # l # ns)" for l :: int
proof -
  have "Max (set (c # l # ns)) = max l (Max (insert c (set ns)))"
    by (simp only: list.set insert_commute [of c]) (rule Max_insert, simp_all)
  then show "(if fold max ns c < l then l else fold max ns c) = Max (set (c # l # ns))"
    by (simp only: fold_max greater_of)
  show "Max (set (c # l # ns)) \<in> set (c # l # ns)" by (rule Max_in) simp_all
qed (rule Max_ge; simp)+


definition demo_evaluator :: evaluator where
  "demo_evaluator msg nick did room =
     \<lparr>ev_score = 10, ev_tier = ''SAFE'', ev_reason = ''quiet'', ev_dims = \<lparr>d_intent = 0, d_safety = 0, d_quality = 10, d_value = 10, d_risk = 0\<rparr>, ev_model = ''local''\<rparr>"

definition no_sess :: sess where
  "no_sess = \<lparr>se_committed = \<lparr>st_rows = [], st_cursors = Map.empty\<rparr>, se_work = \<lparr>st_rows = [], st_cursors = Map.empty\<rparr>, se_broken = False\<rparr>"

definition demo_messages :: "pyval list" where
  "demo_messages = [PDict [(''seq'', PInt 3), (''text'', PStr ''hi'')], PStr ''x'', PDict [(''seq'', PInt 3)], PDict [(''global_seq'', PInt 5)]]"

lemma demo_numbers: "numbers demo_messages = [3, 3, 5]"
  by (simp add: demo_messages_def dget_def numbers_def number_of_def seq_of_def List.map_filter_simps int_of_py_def Let_def)

lemma demo_fit: "list_all row_fits (wanted_rows rp demo_evaluator ''lobby'' demo_messages)"
  by (simp add: demo_messages_def demo_evaluator_def dget_def wanted_def seq_of_def int_of_py_def Let_def row_of_def
      evaluates_def gseq_value_def row_fits_def fits_int64_def did_of_def any_of_def py_or_def py_str_def cp_def)


text \<open>
  A row the database refuses rolls the session back, and the rows stored before it in the same poll are
  lost with it, although their alerts have been sent; the numbers of both messages stay counted, so the
  cursor will pass them.
\<close>

lemma rollback_loses_rows:
  assumes "clean (rm_sess x)" and "wanted rp ev room m1 = Some r1" and "wanted rp ev room m2 = Some r2"
    and "row_fits r1" and "\<not> row_fits r2" and "sr_seq r1 \<noteq> sr_seq r2"
    and "\<not> stored room (sr_seq r1) (st_rows (se_work (rm_sess x)))" and "\<not> stored room (sr_seq r2) (st_rows (se_work (rm_sess x)))"
  defines "y \<equiv> poll_message rp ev room m2 (poll_message rp ev room m1 x)"
  shows "r1 \<in> set (rm_done y) \<and> st_rows (se_work (rm_sess y)) = st_rows (se_committed (rm_sess x)) \<and> sr_seq r1 \<le> rm_max y \<and> sr_seq r2 \<le> rm_max y"
proof -
  have c: "\<not> se_broken (rm_sess x)" "se_work (rm_sess x) = se_committed (rm_sess x)" using assms(1) by (simp_all add: clean_def)
  have n: "number_of m1 = Some (sr_seq r1)" "sr_room r1 = room" using assms(2) wanted_row by blast+
  have "poll_message rp ev room m1 x =
     x\<lparr>rm_sess := add_rows [r1] (rm_sess x), rm_done := rm_done x @ [r1], rm_max := max (rm_max x) (sr_seq r1)\<rparr>"
    using message_recorded [of x rp ev room m1] c assms(2,4,7) n by (simp add: Let_def)
  then show ?thesis
    using message_refused [of "poll_message rp ev room m1 x" rp ev room m2 r2] c assms(3,5,6,8) n
    by (simp add: y_def stored_append stored_row rollback_def) (simp add: stored_def)
qed

end
