(* ===== verification/Api_Admin.thy ===== *)
theory Api_Admin
  imports Api Scorer
begin

text \<open>
  The rest of \<open>apps/api/app.py\<close>: the start of the application, the guard in front of every request,
  login, the settings, the listings of the agent evaluations and the static files. The file system,
  the key derivation, the signature of the tokens and the HTTP client are arguments.
\<close>

section \<open>Start\<close>

text \<open>The administrator: created when missing, otherwise only the hash is brought up to date.\<close>

definition seed_admin :: "settings \<Rightarrow> uuid \<Rightarrow> db \<Rightarrow> db" where
  "seed_admin cfg fresh s =
     (if admin_password_hash cfg = [] then s
      else case find (\<lambda>u. us_username u = admin_email cfg) (users s) of
             None \<Rightarrow> s\<lparr>users := users s @ [\<lparr>us_id = fresh, us_username = admin_email cfg, us_display = ''Admin'',
                       us_role = ''admin'', us_active = True, us_password_hash = admin_password_hash cfg\<rparr>]\<rparr>
           | Some u \<Rightarrow> s\<lparr>users := map (\<lambda>v. if us_username v = admin_email cfg
                                         then v\<lparr>us_password_hash := admin_password_hash cfg\<rparr> else v) (users s)\<rparr>)"

definition lifespan_start :: "settings \<Rightarrow> uuid \<Rightarrow> db \<Rightarrow> config_error list + db" where
  "lifespan_start cfg fresh s =
     (case validate_production cfg of Inl es \<Rightarrow> Inl es | Inr _ \<Rightarrow> Inr (seed_admin cfg fresh s))"

text \<open>
  The check at import time reads the environment: the attribute it asks the settings for has the name in
  lower case, which they do not have.
\<close>

definition fail_fast :: "(string \<Rightarrow> string) \<Rightarrow> string list" where
  "fail_fast env =
     (if env ''APP_ENV'' \<noteq> ''production'' then []
      else filter (\<lambda>k. env k = [] \<or> env k = ''CHANGE_ME'' \<or> env k = ''dev-only-change-me'' \<or> length (env k) < 16)
             [''JWT_SECRET'', ''SESSION_ENCRYPTION_MASTER_KEY'', ''TELEGRAM_WEBHOOK_SECRET''])"

section \<open>The guard\<close>

definition PUBLIC_PATHS :: "string list" where
  "PUBLIC_PATHS = [''/health/live'', ''/health/ready'', ''/api/health/live'', ''/api/health/ready'',
     ''/api/v1/auth/login'', ''/api/v1/auth/status'']"

definition client_ip :: "string \<Rightarrow> string \<Rightarrow> string option \<Rightarrow> string" where
  "client_ip cf xff host =
     (let a = strip cf; b = strip (takeWhile (\<lambda>c. c \<noteq> CHR '','') xff)
      in if a \<noteq> [] then a else if b \<noteq> [] then b else case host of None \<Rightarrow> ''unknown'' | Some h \<Rightarrow> h)"

datatype verdict = Passes | Refuses nat | Crashes

definition guard ::
  "settings \<Rightarrow> (string + int) option \<Rightarrow> time \<Rightarrow> string \<Rightarrow> string \<Rightarrow> string \<Rightarrow> string \<Rightarrow> string option \<Rightarrow> rl_mem \<Rightarrow> verdict \<times> rl_mem" where
  "guard cfg reply now path content_length cf xff host mem =
     (if startswith path ''/webhooks/telegram/'' \<or> path \<in> set PUBLIC_PATHS then (Passes, mem)
      else case (if str_isdigit content_length then map_option (\<lambda>n. max_request_body_bytes cfg < n) (py_int 10 content_length)
                 else Some False) of
             None \<Rightarrow> (Crashes, mem)
           | Some True \<Rightarrow> (Refuses 413, mem)
           | Some False \<Rightarrow>
               (case rate_check reply now (''rl:global:'' @ client_ip cf xff host) (rate_limit_per_minute cfg) 60 mem of
                  (True, mem') \<Rightarrow> (Passes, mem')
                | (False, mem') \<Rightarrow> (Refuses 429, mem')))"

section \<open>Login\<close>

definition login ::
  "settings \<Rightarrow> kdf \<Rightarrow> (pydict \<Rightarrow> string) \<Rightarrow> int \<Rightarrow> string \<Rightarrow> string \<Rightarrow> string \<Rightarrow> db \<Rightarrow> http_error + (string \<times> user)" where
  "login cfg pbkdf2 encode now jti email password s =
     (case find (\<lambda>u. us_username u = email) (users s) of
        None \<Rightarrow> Inl (Http 401)
      | Some u \<Rightarrow>
          if \<not> us_active u \<or> us_password_hash u = [] \<or> \<not> verify_password pbkdf2 password (us_password_hash u)
          then Inl (Http 401)
          else Inr (create_session_token encode (uuid_str (us_id u)) (us_role u) now (session_ttl_seconds cfg) jti, u))"

definition auth_status :: "settings \<Rightarrow> pydict" where
  "auth_status cfg =
     [(''auth'', PStr ''local''), (''admin_email'', PStr (admin_email cfg)),
      (''roles'', PList [PStr ''admin'', PStr ''operator'', PStr ''viewer'']),
      (''session_ttl_seconds'', PInt (session_ttl_seconds cfg))]"

text \<open>The identifier of the token is compared with the column as a UUID; one that is none fails in the driver.\<close>

definition auth_me :: "auth_user \<Rightarrow> db \<Rightarrow> http_error + user" where
  "auth_me user s =
     (case au_id user of
        PStr i \<Rightarrow>
          (case uuid_of_string i of
             None \<Rightarrow> Inl Unhandled
           | Some uid \<Rightarrow> (case find (\<lambda>u. us_id u = uid) (users s) of None \<Rightarrow> Inl (Http 404) | Some u \<Rightarrow> Inr u))
      | PNone \<Rightarrow> Inl (Http 404)
      | _ \<Rightarrow> Inl Unhandled)"

section \<open>Settings\<close>

definition settings_non_secret :: "settings \<Rightarrow> pydict option" where
  "settings_non_secret cfg =
     map_option (\<lambda>ids.
       [(''app_env'', PStr (app_env cfg)), (''llm_provider'', PStr (llm_provider cfg)), (''llm_model'', PStr (llm_model cfg)),
        (''llm_base_url'', PStr (llm_base_url cfg)), (''telegram_allowed_user_ids_count'', PInt (int (card ids))),
        (''telegram_group_enabled'', PBool (telegram_group_enabled cfg)),
        (''technocore_base_url'', PStr (technocore_base_url cfg)), (''run_max_iterations'', PInt (run_max_iterations cfg)),
        (''run_max_wall_seconds'', PInt (run_max_wall_seconds cfg)),
        (''telegram_token_configured'', PBool (telegram_bot_token cfg \<noteq> [])), (''llm_key_configured'', PBool (llm_api_key cfg \<noteq> []))])
       (allowed_user_ids cfg)"

definition technocore_status :: "settings \<Rightarrow> pydict" where
  "technocore_status cfg =
     [(''base_url'', PStr (technocore_base_url cfg)), (''room_claim'', PStr (technocore_room_claim cfg)), (''registered'', PBool False)]"

text \<open>The test of a model provider; \<open>post url bearer model\<close> is the small request it sends.\<close>

datatype llm_detail =
    Mock_always_ok | Connection_ok | Key_invalid string | Http_status nat string | Connection_failed string | Unknown_provider

definition test_llm_settings ::
  "(string \<Rightarrow> string option \<Rightarrow> string \<Rightarrow> string + nat \<times> string) \<Rightarrow> string \<Rightarrow> string \<Rightarrow> string \<Rightarrow> string \<Rightarrow>
   http_error + bool \<times> string \<times> llm_detail" where
  "test_llm_settings post provider base_url model api_key =
     (let prov = lower (strip (if provider \<noteq> [] then provider else ''mock'')); url = strip base_url;
          compatible = prov \<in> {''openai'', ''openai_compatible'', ''openrouter'', ''ollama''}
      in if prov = ''mock'' then Inr (True, ''mock'', Mock_always_ok)
         else if \<not> compatible then Inr (True, prov, Unknown_provider)
         else if url \<noteq> [] \<and> \<not> (startswith url ''http://'' \<or> startswith url ''https://'') then Inl (Http 400)
         else if \<not> (contains ''11434'' url \<or> prov = ''ollama'') \<and> api_key \<noteq> [] \<and> length (strip api_key) < 8 then Inl (Http 400)
         else if url = [] then Inl (Http 400)
         else Inr (case post (rstrip_by (\<lambda>c. c = CHR ''/'') url @ ''/chat/completions'')
                          (if api_key \<noteq> [] then Some (strip api_key) else None)
                          (if model \<noteq> [] then model else ''gpt-4o-mini'') of
                     Inl err \<Rightarrow> (False, ''openai_compatible'', Connection_failed err)
                   | Inr (st, body) \<Rightarrow>
                       if st = 401 then (False, ''openai_compatible'', Key_invalid (take 200 body))
                       else if 200 \<le> st \<and> st < 300 then (True, ''openai_compatible'', Connection_ok)
                       else (False, ''openai_compatible'', Http_status st (take 200 body))))"

section \<open>Agent evaluations\<close>

text \<open>The rows with the time of their evaluation.\<close>

type_synonym evaluated = "time \<times> score_row"

definition set_default :: "string \<Rightarrow> (string \<times> nat) list \<Rightarrow> (string \<times> nat) list" where
  "set_default k d = (if map_of d k = None then d @ [(k, 0)] else d)"

definition evaluations_stats :: "evaluated list \<Rightarrow> nat \<times> (string \<times> nat) list" where
  "evaluations_stats rows =
     (let tiers = map (\<lambda>(_, r). sr_tier r) rows
      in (length rows,
          fold set_default [''SAFE'', ''RISKY'', ''DANGEROUS'', ''UNKNOWN'']
            (map (\<lambda>t. (t, count_list tiers t)) (remdups tiers))))"

definition filtered :: "string option \<Rightarrow> string option \<Rightarrow> evaluated list \<Rightarrow> evaluated list" where
  "filtered tier room rows =
     (let t = (case tier of None \<Rightarrow> [] | Some x \<Rightarrow> upper (strip x)); r = (case room of None \<Rightarrow> [] | Some x \<Rightarrow> strip x)
      in filter (\<lambda>(_, e). (t = [] \<or> sr_tier e = t) \<and> (r = [] \<or> sr_room e = r)) (sort_key (\<lambda>(w, _). - w) rows))"

record page =
  pg_total :: nat
  pg_limit :: int
  pg_offset :: int
  pg_items :: "evaluated list"

definition agent_evaluations :: "string option \<Rightarrow> string option \<Rightarrow> int \<Rightarrow> int \<Rightarrow> evaluated list \<Rightarrow> page" where
  "agent_evaluations tier room limit offset rows =
     (let l = max 1 (min limit 100); off = max 0 offset; es = filtered tier room rows
      in \<lparr>pg_total = length es, pg_limit = l, pg_offset = off, pg_items = take (nat l) (drop (nat off) es)\<rparr>)"

section \<open>Static files\<close>

definition DIST :: "string list" where "DIST = [''apps/web/dist'', ''/srv/lumi/apps/web/dist'']"

text \<open>The file that is sent, if any; \<open>exists\<close> is the file system.\<close>

definition assets :: "(string \<Rightarrow> bool) \<Rightarrow> string \<Rightarrow> http_error + string" where
  "assets exists path =
     (case find exists (map (\<lambda>base. base @ ''/assets/'' @ path) DIST) of None \<Rightarrow> Inl (Http 404) | Some p \<Rightarrow> Inr p)"

definition ROOT_FILES :: "string list" where
  "ROOT_FILES = [''favicon.ico'', ''favicon-16x16.png'', ''favicon-32x32.png'', ''apple-touch-icon.png'', ''icon-192.png'',
     ''icon-512.png'', ''logo.png'', ''logo-64.png'', ''logo-128.png'']"

definition root_static :: "(string \<Rightarrow> bool) \<Rightarrow> string \<Rightarrow> http_error + string" where
  "root_static exists name =
     (if name \<notin> set ROOT_FILES then Inl (Http 404)
      else case find exists (map (\<lambda>base. base @ ''/'' @ name) DIST) of None \<Rightarrow> Inl (Http 404) | Some p \<Rightarrow> Inr p)"

section \<open>The administrator can log in\<close>

lemma find_map_hash:
  "find (\<lambda>u. us_username u = e) (map (\<lambda>v. if us_username v = e then v\<lparr>us_password_hash := h\<rparr> else v) us) =
     map_option (\<lambda>u. u\<lparr>us_password_hash := h\<rparr>) (find (\<lambda>u. us_username u = e) us)"
  by (induction us) auto

lemma seeded_user:
  assumes "admin_password_hash cfg \<noteq> []"
  shows "\<exists>u. find (\<lambda>u. us_username u = admin_email cfg) (users (seed_admin cfg fresh s)) = Some u \<and>
    us_password_hash u = admin_password_hash cfg \<and>
    (case find (\<lambda>u. us_username u = admin_email cfg) (users s) of
       None \<Rightarrow> us_id u = fresh \<and> us_role u = ''admin'' \<and> us_active u
     | Some v \<Rightarrow> us_id u = us_id v \<and> us_role u = us_role v \<and> us_active u = us_active v)"
  using assms by (auto simp: seed_admin_def find_append find_map_hash split: option.split)

text \<open>
  C38: whoever knows the password of the configured hash is the administrator. After a start with a hash made
  from a password, if the account did not exist or is an active administrator, a login with the
  configured address succeeds exactly for the passwords with the same derived key, and its token passes
  every role check as that user; and without the password the address gets no token.
\<close>

theorem seeded_admin_logs_in:
  assumes "lifespan_start cfg fresh s = Inr s'"
    and "hash_password pbkdf2 salt pw = Some (admin_password_hash cfg)"
    and "case find (\<lambda>u. us_username u = admin_email cfg) (users s) of None \<Rightarrow> True | Some u \<Rightarrow> us_active u \<and> us_role u = ''admin''"
    and "\<And>i. encode (session_payload i ''admin'' now (session_ttl_seconds cfg) jti) \<noteq> [] \<and>
           decode (encode (session_payload i ''admin'' now (session_ttl_seconds cfg) jti)) = Inr (session_payload i ''admin'' now (session_ttl_seconds cfg) jti)"
  shows "((\<exists>x. login cfg pbkdf2 encode now jti (admin_email cfg) pw' s' = Inr x) \<longleftrightarrow>
      pbkdf2 pw' salt ITERATIONS = pbkdf2 pw salt ITERATIONS) \<and>
    (\<forall>t u. login cfg pbkdf2 encode now jti (admin_email cfg) pw' s' = Inr (t, u) \<longrightarrow>
       (\<forall>r. authorise decode (Some t) r = Inr \<lparr>au_id = PStr (uuid_str (us_id u)), au_role = PStr ''admin''\<rparr>))"
proof -
  have ne: "admin_password_hash cfg \<noteq> []" using assms(2) by (auto simp: hash_password_def split: option.splits)
  have s': "s' = seed_admin cfg fresh s" using assms(1) by (auto simp: lifespan_start_def split: sum.splits)
  obtain u where u: "find (\<lambda>u. us_username u = admin_email cfg) (users s') = Some u"
    and h: "us_password_hash u = admin_password_hash cfg" and a: "us_active u" and r: "us_role u = ''admin''"
    using seeded_user [OF ne, of fresh s] assms(3) unfolding s' by (auto split: option.splits)
  have v: "verify_password pbkdf2 pw' (admin_password_hash cfg) \<longleftrightarrow> pbkdf2 pw' salt ITERATIONS = pbkdf2 pw salt ITERATIONS"
    by (rule password_roundtrip [OF assms(2)])
  have "authorise decode (Some (create_session_token encode i ''admin'' now (session_ttl_seconds cfg) jti)) m =
      Inr \<lparr>au_id = PStr i, au_role = PStr ''admin''\<rparr>" for i m
    using assms(4) [of i] by (auto simp: authorise_def get_current_user_def create_session_token_def session_payload_def require_role_def
        dget_def min_rank_def ROLE_ORDER_def)
  then show ?thesis
    using u h a ne r v by (auto simp: login_def)
qed

definition demo_encode :: "pydict \<Rightarrow> string" where
  "demo_encode p = CHR ''t'' # (case dget p ''sub'' PNone of PStr i \<Rightarrow> i | _ \<Rightarrow> [])"

definition demo_decode :: "string \<Rightarrow> jwt_error + pydict" where
  "demo_decode t = Inr (session_payload (tl t) ''admin'' 0 60 ''j'')"

definition demo_hash :: string where "demo_hash = ''pbkdf2_sha256$240000$78$7077''"

definition demo_settings :: settings where
  "demo_settings = default_settings\<lparr>admin_email := ''a'', admin_password_hash := demo_hash, session_ttl_seconds := 60\<rparr>"

lemma demo_hash: "hash_password (\<lambda>p s n. Some p) ''x'' ''pw'' = Some demo_hash"
  by (simp add: hash_password_def iterations_str hex_of_def hexn2 hexdig_def cp_def demo_hash_def) code_simp

theorem seeded_admin_logs_in_witness:
  "\<exists>x. login demo_settings (\<lambda>p s n. Some p) demo_encode 0 ''j'' ''a'' ''pw'' (seed_admin demo_settings 1 empty_db) = Inr x"
proof -
  have "lifespan_start demo_settings 1 empty_db = Inr (seed_admin demo_settings 1 empty_db)"
    by (simp add: lifespan_start_def validate_production_def is_production_def demo_settings_def default_settings_def)
  from seeded_admin_logs_in [OF this, of "\<lambda>p s n. Some p" "''x''" "''pw''" demo_encode 0 "''j''" demo_decode "''pw''"] demo_hash
  show ?thesis
    by (auto simp: demo_settings_def empty_db_def demo_encode_def demo_decode_def session_payload_def dget_def)
qed

section \<open>Secrets stay in the settings\<close>

text \<open>The view of the settings depends on the secrets only through their being set.\<close>

lemma view_hides_secrets:
  assumes "tok = [] \<longleftrightarrow> telegram_bot_token cfg = []" and "key = [] \<longleftrightarrow> llm_api_key cfg = []"
  shows "settings_non_secret (cfg\<lparr>jwt_secret := a, session_master_key := b, telegram_webhook_secret := c, postgres_password := d,
      database_url := e, redis_url := f, admin_password_hash := g, telegram_bot_token := tok, llm_api_key := key\<rparr>) =
    settings_non_secret cfg"
  using assms by (simp add: settings_non_secret_def allowed_user_ids_def)

text \<open>
  The test of a provider posts to whatever address it is given, an internal one included, and returns the
  beginning of the answer.
\<close>

lemma llm_test_reaches_any_host:
  assumes "post (rstrip_by (\<lambda>c. c = CHR ''/'') (strip url) @ ''/chat/completions'') None ''gpt-4o-mini'' = Inr (500, body)"
    and "startswith (strip url) ''http://''"
  shows "test_llm_settings post ''openai'' url [] [] = Inr (False, ''openai_compatible'', Http_status 500 (take 200 body))"
proof -
  have "lower (strip ''openai'') = ''openai''" by code_simp
  moreover have "strip url \<noteq> []" using assms(2) by (auto simp: startswith_def)
  ultimately show ?thesis using assms by (simp add: test_llm_settings_def Let_def)
qed

section \<open>Listings and files\<close>

lemma set_default_sum: "sum_list (map snd (set_default k d)) = sum_list (map snd d)"
  by (simp add: set_default_def)

lemma stats_add_up: "sum_list (map snd (snd (evaluations_stats rows))) = fst (evaluations_stats rows)"
proof -
  have "sum_list (map (count_list ts) (remdups ts)) = length ts" for ts :: "string list"
    using sum_count_set [of ts "set ts"] by (simp add: sum_list_distinct_conv_sum_set)
  moreover have "sum_list (map snd (fold set_default ks d)) = sum_list (map snd d)" for ks d
    by (induction ks arbitrary: d) (simp_all add: set_default_sum)
  ultimately show ?thesis by (simp add: evaluations_stats_def Let_def comp_def set_default_sum)
qed

text \<open>The pages of a listing, one after the other, are the listing.\<close>

lemma pages_cover:
  assumes "1 \<le> l" and "l \<le> 100"
  shows "concat (map (\<lambda>i. pg_items (agent_evaluations tier room l (int i * l) rows)) [0..<n]) = take (n * nat l) (filtered tier room rows)"
proof (induction n)
  case (Suc n)
  have "nat (int n * l) = n * nat l" using assms(1) by (simp add: nat_mult_distrib)
  then have "pg_items (agent_evaluations tier room l (int n * l) rows) = take (nat l) (drop (n * nat l) (filtered tier room rows))"
    using assms by (simp add: agent_evaluations_def Let_def)
  then show ?case using Suc by (simp add: take_add add.commute [of "nat l"])
qed simp

lemma root_files_only: "root_static exists name = Inr p \<Longrightarrow> \<exists>base \<in> set DIST. p = base @ ''/'' @ name \<and> name \<in> set ROOT_FILES"
  by (auto simp: root_static_def find_Some_iff DIST_def split: if_splits option.splits)

text \<open>The path of an asset is used as it is, so it can leave the directory.\<close>

lemma assets_traversal:
  "exists ''apps/web/dist/assets/../../../../etc/passwd'' \<Longrightarrow>
   assets exists ''../../../../etc/passwd'' = Inr ''apps/web/dist/assets/../../../../etc/passwd''"
  by (simp add: assets_def DIST_def)

text \<open>A length written with a superscript passes \<open>isdigit\<close> and fails in \<open>int\<close>.\<close>

lemma superscript_length_crashes:
  "guard cfg reply now ''/api/v1/runs'' [char_of (178 :: nat)] cf xff host mem = (Crashes, mem)"
proof -
  have "str_isdigit [char_of (178 :: nat)]" by code_simp
  moreover have "py_int 10 [char_of (178 :: nat)] = None" by code_simp
  moreover have "\<not> startswith ''/api/v1/runs'' ''/webhooks/telegram/''" by code_simp
  ultimately show ?thesis by (simp add: guard_def PUBLIC_PATHS_def)
qed

end
