(* ===== verification/Llm.thy ===== *)
theory Llm
  imports Config Json
begin

text \<open>
  The model providers: \<open>packages/agent_core/llm.py\<close>. The HTTP client and \<open>json.loads\<close> are arguments;
  every exception on the way (a status, a missing key, an index, a value of the wrong type) is \<open>None\<close>.
  Letters above code point 255 in constant texts are written in ASCII.
\<close>

section \<open>Messages and results\<close>

record llm_message =
  lm_role :: string
  lm_content :: string

record llm_tool_call =
  lt_name :: pyval
  lt_arguments :: pyval
  lt_id :: pyval

record llm_result =
  lr_text :: pyval
  lr_tool_calls :: "llm_tool_call list"
  lr_finish :: pyval
  lr_usage :: pyval

definition mock_chat :: llm_result where
  "mock_chat =
     \<lparr>lr_text = PStr ''[mock] Plan: sorgula-baglam kur, ardindan raporla.'', lr_tool_calls = [], lr_finish = PStr ''stop'',
      lr_usage = PDict [(''prompt_tokens'', PInt 0), (''completion_tokens'', PInt 0), (''total_tokens'', PInt 0)]\<rparr>"

section \<open>Reading JSON values\<close>

definition item_key :: "string \<Rightarrow> pyval \<Rightarrow> pyval option" where
  "item_key k v = (case v of PDict d \<Rightarrow> map_of d k | _ \<Rightarrow> None)"

definition item_first :: "pyval \<Rightarrow> pyval option" where
  "item_first v = (case v of PList (x # _) \<Rightarrow> Some x | PStr (c # _) \<Rightarrow> Some (PStr [c]) | _ \<Rightarrow> None)"

definition get_key :: "string \<Rightarrow> pyval \<Rightarrow> pyval \<Rightarrow> pyval option" where
  "get_key k dflt v = (case v of PDict d \<Rightarrow> Some (dget d k dflt) | _ \<Rightarrow> None)"

text \<open>Iteration: a list, the keys of a dictionary, the characters of a string.\<close>

definition iterate :: "pyval \<Rightarrow> pyval list option" where
  "iterate v =
     (case v of PList xs \<Rightarrow> Some xs | PDict d \<Rightarrow> Some (map (\<lambda>(k, _). PStr k) d) | PStr s \<Rightarrow> Some (map (\<lambda>c. PStr [c]) s)
      | _ \<Rightarrow> None)"

section \<open>The request and the answer\<close>

definition message_of :: "llm_message \<Rightarrow> pyval" where
  "message_of m = PDict [(''role'', PStr (lm_role m)), (''content'', PStr (lm_content m))]"

text \<open>The keyword arguments come after model and messages and replace them under the same name.\<close>

definition chat_payload :: "string \<Rightarrow> llm_message list \<Rightarrow> pyval list option \<Rightarrow> pydict \<Rightarrow> pydict" where
  "chat_payload model messages tools kw =
     (let base = fold (\<lambda>(k, v) d. dset k v d) kw
                   [(''model'', PStr model), (''messages'', PList (map message_of messages))]
      in case tools of
           None \<Rightarrow> base
         | Some ts \<Rightarrow> dset ''tools'' (PList (map (\<lambda>f. PDict [(''type'', PStr ''function''), (''function'', f)]) ts)) base)"

text \<open>\<open>tc["function"].get("arguments") or "{}"\<close>, parsed; a value that is no text fails in \<open>json.loads\<close>.\<close>

definition call_arguments :: "(string \<Rightarrow> pyval option) \<Rightarrow> pyval \<Rightarrow> pyval option" where
  "call_arguments loads f =
     (case get_key ''arguments'' PNone f of
        None \<Rightarrow> None
      | Some v \<Rightarrow> (case py_or v (PStr ''{}'') of PStr s \<Rightarrow> loads s | _ \<Rightarrow> None))"

definition read_call :: "(string \<Rightarrow> pyval option) \<Rightarrow> pyval \<Rightarrow> llm_tool_call option" where
  "read_call loads tc =
     (case item_key ''function'' tc of
        None \<Rightarrow> None
      | Some f \<Rightarrow>
          (case item_key ''name'' f of
             None \<Rightarrow> None
           | Some name \<Rightarrow>
               (case call_arguments loads f of
                  None \<Rightarrow> None
                | Some args \<Rightarrow>
                    map_option (\<lambda>i. \<lparr>lt_name = name, lt_arguments = args, lt_id = i\<rparr>) (get_key ''id'' PNone tc))))"

fun read_calls :: "(string \<Rightarrow> pyval option) \<Rightarrow> pyval list \<Rightarrow> llm_tool_call list option" where
  "read_calls loads [] = Some []"
| "read_calls loads (tc # tcs) =
     (case read_call loads tc of None \<Rightarrow> None | Some c \<Rightarrow> map_option (Cons c) (read_calls loads tcs))"

definition read_chat :: "(string \<Rightarrow> pyval option) \<Rightarrow> pyval \<Rightarrow> llm_result option" where
  "read_chat loads data =
     (case Option.bind (item_key ''choices'' data) item_first of
        None \<Rightarrow> None
      | Some choice \<Rightarrow>
          (case item_key ''message'' choice of
             Some (PDict msg) \<Rightarrow>
               (case Option.bind (iterate (dget msg ''tool_calls'' (PList []))) (read_calls loads) of
                  None \<Rightarrow> None
                | Some calls \<Rightarrow>
                    (case (get_key ''finish_reason'' (PStr []) choice, get_key ''usage'' (PDict []) data) of
                       (Some fin, Some usage) \<Rightarrow>
                         Some \<lparr>lr_text = py_or (dget msg ''content'' PNone) (PStr []), lr_tool_calls = calls,
                               lr_finish = fin, lr_usage = usage\<rparr>
                     | _ \<Rightarrow> None))
           | _ \<Rightarrow> None))"

section \<open>Providers\<close>

datatype provider = Mock | Open_ai string string string

definition open_ai :: "string \<Rightarrow> string \<Rightarrow> string \<Rightarrow> provider" where
  "open_ai base model key = Open_ai (rstrip_by (\<lambda>c. c = CHR ''/'') base) model key"

text \<open>\<open>post url bearer payload\<close> is the parsed answer of a request with a status of success.\<close>

definition chat ::
  "(string \<Rightarrow> string \<Rightarrow> pydict \<Rightarrow> pyval option) \<Rightarrow> (string \<Rightarrow> pyval option) \<Rightarrow> provider \<Rightarrow> llm_message list \<Rightarrow>
   pyval list option \<Rightarrow> pydict \<Rightarrow> llm_result option" where
  "chat post loads p messages tools kw =
     (case p of
        Mock \<Rightarrow> Some mock_chat
      | Open_ai base model key \<Rightarrow>
          Option.bind (post (base @ ''/chat/completions'') (''Bearer '' @ key) (chat_payload model messages tools kw))
            (read_chat loads))"

definition check_provider ::
  "(string \<Rightarrow> string \<Rightarrow> pydict \<Rightarrow> pyval option) \<Rightarrow> (string \<Rightarrow> pyval option) \<Rightarrow> provider \<Rightarrow> bool" where
  "check_provider post loads p \<longleftrightarrow>
     p = Mock \<or> chat post loads p [\<lparr>lm_role = ''user'', lm_content = ''ping''\<rparr>] None [] \<noteq> None"

definition build_provider :: "settings \<Rightarrow> string option \<Rightarrow> provider" where
  "build_provider cfg name =
     (let given = (case name of None \<Rightarrow> [] | Some n \<Rightarrow> n);
          p = lower (if given \<noteq> [] then given else if llm_provider cfg \<noteq> [] then llm_provider cfg else ''mock'')
      in if p = ''openai_compatible'' \<or> p = ''openai'' then open_ai (llm_base_url cfg) (llm_model cfg) (llm_api_key cfg) else Mock)"

section \<open>Embeddings\<close>

fun as_number :: "pyval \<Rightarrow> rat option" where
  "as_number (PInt i) = Some (of_int i)"
| "as_number (PFloat r) = Some r"
| "as_number (PBool b) = Some (of_bool b)"
| "as_number _ = None"

fun as_numbers :: "pyval list \<Rightarrow> rat list option" where
  "as_numbers [] = Some []"
| "as_numbers (v # vs) =
     (case as_number v of None \<Rightarrow> None | Some r \<Rightarrow> map_option (Cons r) (as_numbers vs))"

definition read_embedding :: "pyval \<Rightarrow> rat list option" where
  "read_embedding data =
     (case Option.bind (Option.bind (item_key ''data'' data) item_first) (item_key ''embedding'') of
        Some (PList vs) \<Rightarrow> as_numbers vs
      | _ \<Rightarrow> None)"

definition embed ::
  "(string \<Rightarrow> string \<Rightarrow> pydict \<Rightarrow> pyval option) \<Rightarrow> string \<Rightarrow> string \<Rightarrow> string \<Rightarrow> string \<Rightarrow> rat list option" where
  "embed post base model key txt =
     Option.bind (post (base @ ''/embeddings'') (''Bearer '' @ key)
                    [(''model'', PStr model), (''input'', PStr (take 8000 txt))])
       read_embedding"

definition build_embedding_provider :: "settings \<Rightarrow> (string \<times> string \<times> string) option" where
  "build_embedding_provider cfg =
     (let model = (if embedding_model cfg \<noteq> [] then embedding_model cfg else llm_model cfg)
      in if model = [] \<or> llm_base_url cfg = [] then None
         else Some (rstrip_by (\<lambda>c. c = CHR ''/'') (llm_base_url cfg), model, llm_api_key cfg))"

section \<open>An answer is read as what it says\<close>

text \<open>The documented form of an answer, for a result with its arguments written as JSON texts.\<close>

definition call_json :: "(pyval \<Rightarrow> string) \<Rightarrow> llm_tool_call \<Rightarrow> pyval" where
  "call_json enc c =
     PDict [(''id'', lt_id c), (''type'', PStr ''function''),
            (''function'', PDict [(''name'', lt_name c), (''arguments'', PStr (enc (lt_arguments c)))])]"

definition answer_json :: "(pyval \<Rightarrow> string) \<Rightarrow> llm_result \<Rightarrow> pyval" where
  "answer_json enc r =
     PDict [(''choices'', PList [PDict [(''message'', PDict [(''role'', PStr ''assistant''), (''content'', lr_text r),
                (''tool_calls'', PList (map (call_json enc) (lr_tool_calls r)))]), (''finish_reason'', lr_finish r)]]),
            (''usage'', lr_usage r)]"

lemma read_call_json: "enc (lt_arguments c) \<noteq> [] \<Longrightarrow> loads (enc (lt_arguments c)) = Some (lt_arguments c) \<Longrightarrow>
    read_call loads (call_json enc c) = Some c"
  by (simp add: read_call_def call_json_def item_key_def get_key_def call_arguments_def py_or_def dget_def)

text \<open>
  Reading an answer of the chat endpoint gives back the result it was made from: the text, the
  calls in their order with their arguments, the reason and the usage, for every codec of JSON in
  which the arguments survive.
\<close>

theorem chat_roundtrip:
  assumes "\<And>c. c \<in> set (lr_tool_calls r) \<Longrightarrow> enc (lt_arguments c) \<noteq> [] \<and> loads (enc (lt_arguments c)) = Some (lt_arguments c)"
    and "truthy (lr_text r) \<or> lr_text r = PStr []"
    and "post (base @ ''/chat/completions'') (''Bearer '' @ key) (chat_payload model messages tools kw) = Some (answer_json enc r)"
  shows "chat post loads (Open_ai base model key) messages tools kw = Some r"
proof -
  have "read_calls loads (map (call_json enc) cs) = Some cs" if "set cs \<subseteq> set (lr_tool_calls r)" for cs
    using that by (induction cs) (simp_all add: read_call_json assms(1))
  then have "read_chat loads (answer_json enc r) = Some r"
    using assms(2) by (auto simp: read_chat_def answer_json_def item_key_def item_first_def get_key_def iterate_def dget_def py_or_def)
  then show ?thesis using assms(3) by (simp add: chat_def)
qed

theorem chat_roundtrip_witness:
  "chat (\<lambda>_ _ _. Some (answer_json (\<lambda>_. ''{}'') \<lparr>lr_text = PStr ''hi'', lr_tool_calls = [\<lparr>lt_name = PStr ''f'', lt_arguments = PDict [], lt_id = PNone\<rparr>],
        lr_finish = PStr ''stop'', lr_usage = PNone\<rparr>))
     (\<lambda>_. Some (PDict [])) (Open_ai ''u'' ''m'' ''k'') [] None [] =
   Some \<lparr>lr_text = PStr ''hi'', lr_tool_calls = [\<lparr>lt_name = PStr ''f'', lt_arguments = PDict [], lt_id = PNone\<rparr>],
        lr_finish = PStr ''stop'', lr_usage = PNone\<rparr>"
  by (rule chat_roundtrip [where enc = "\<lambda>_. ''{}''"]) simp_all

text \<open>An answer whose calls are given as null, as some servers do, is an error: the default of \<open>get\<close> is not used.\<close>

lemma null_tool_calls:
  "read_chat loads (PDict [(''choices'', PList [PDict [(''message'', PDict [(''content'', PStr ''hi''), (''tool_calls'', PNone)])]])]) = None"
  by (simp add: read_chat_def item_key_def item_first_def iterate_def dget_def)

end
