(* ===== verification/Schema.thy ===== *)
theory Schema
  imports Py_Base
begin

text \<open>
  The database schema and the operations of a migration (\<open>alembic.op\<close> on PostgreSQL). A schema is a list of
  tables with their columns, constraints and indexes, the triggers, the functions and the
  extensions; an operation is refused (\<open>None\<close>) where PostgreSQL reports an error that depends on the schema
  alone. Errors that depend on the rows (a duplicate under a new constraint, a missing value in a new column) and
  the names PostgreSQL gives to unnamed constraints are not modelled.
\<close>

section \<open>Tables\<close>

datatype col_type =
    Varchar nat | Text_t | Integer_t | Big_integer | Boolean_t | Float_t | Timestamp | Uuid | Jsonb | Vector nat

datatype generated = Plain | Identity | Server_default string

record column =
  co_name :: string
  co_type :: col_type
  co_null :: bool
  co_gen :: generated

definition col :: "string \<Rightarrow> col_type \<Rightarrow> bool \<Rightarrow> column" where
  "col n t nullable = \<lparr>co_name = n, co_type = t, co_null = nullable, co_gen = Plain\<rparr>"

datatype predicate = Always | Not_null string | Not_empty string

datatype constraint =
    Primary "string list"
  | Unique "string option" "string list"
  | Foreign "string option" "string list" string "string list"

record index =
  ix_name :: string
  ix_columns :: "string list"
  ix_unique :: bool
  ix_where :: predicate

definition ix :: "string \<Rightarrow> string list \<Rightarrow> bool \<Rightarrow> predicate \<Rightarrow> index" where
  "ix n cs u w = \<lparr>ix_name = n, ix_columns = cs, ix_unique = u, ix_where = w\<rparr>"

record table =
  tb_name :: string
  tb_columns :: "column list"
  tb_constraints :: "constraint list"
  tb_indexes :: "index list"

record schema =
  sc_tables :: "table list"
  sc_triggers :: "(string \<times> string \<times> string) list"
  sc_functions :: "string list"
  sc_extensions :: "string list"

definition empty_schema :: schema where
  "empty_schema = \<lparr>sc_tables = [], sc_triggers = [], sc_functions = [], sc_extensions = []\<rparr>"

section \<open>Operations\<close>

datatype ddl =
    Create_table string "column list" "constraint list"
  | Drop_table string
  | Create_index string string "string list" bool predicate
  | Drop_index string string
  | Create_index_if_missing string string "string list"
  | Drop_index_if_exists string
  | Add_column string column
  | Drop_column string string
  | Add_column_if_missing string column
  | Drop_column_if_exists string string
  | Alter_type string string col_type
  | Add_constraint string constraint
  | Drop_constraint string string
  | Create_function string
  | Drop_function_if_exists string
  | Create_trigger string string string
  | Drop_trigger_if_exists string string
  | Create_extension string
  | Delete_duplicates string "string list" predicate

definition column_names :: "table \<Rightarrow> string list" where
  "column_names t = map co_name (tb_columns t)"

definition table_of :: "string \<Rightarrow> schema \<Rightarrow> table option" where
  "table_of n s = find (\<lambda>t. tb_name t = n) (sc_tables s)"

definition has_index :: "string \<Rightarrow> schema \<Rightarrow> bool" where
  "has_index n s \<longleftrightarrow> list_ex (\<lambda>t. list_ex (\<lambda>i. ix_name i = n) (tb_indexes t)) (sc_tables s)"

fun constraint_columns :: "constraint \<Rightarrow> string list" where
  "constraint_columns (Primary cs) = cs"
| "constraint_columns (Unique _ cs) = cs"
| "constraint_columns (Foreign _ cs _ _) = cs"

fun constraint_name :: "constraint \<Rightarrow> string option" where
  "constraint_name (Primary _) = None"
| "constraint_name (Unique n _) = n"
| "constraint_name (Foreign n _ _ _) = n"

fun predicate_columns :: "predicate \<Rightarrow> string list" where
  "predicate_columns Always = []"
| "predicate_columns (Not_null c) = [c]"
| "predicate_columns (Not_empty c) = [c]"

definition covers :: "table \<Rightarrow> string list \<Rightarrow> bool" where
  "covers t cs \<longleftrightarrow> list_all (\<lambda>c. c \<in> set (column_names t)) cs"

text \<open>The target of a foreign key: a table with the columns and a key on them; and whether a constraint points into a table.\<close>

fun is_key :: "string list \<Rightarrow> constraint \<Rightarrow> bool" where
  "is_key rs (Primary cs) \<longleftrightarrow> set cs = set rs"
| "is_key rs (Unique _ cs) \<longleftrightarrow> set cs = set rs"
| "is_key rs (Foreign _ _ _ _) \<longleftrightarrow> False"

fun target_ok :: "table list \<Rightarrow> constraint \<Rightarrow> bool" where
  "target_ok ts (Foreign _ _ r rs) \<longleftrightarrow>
     list_ex (\<lambda>t. tb_name t = r \<and> covers t rs \<and> list_ex (is_key rs) (tb_constraints t)) ts"
| "target_ok ts _ \<longleftrightarrow> True"

fun points_to :: "string \<Rightarrow> constraint \<Rightarrow> string list" where
  "points_to n (Foreign _ _ r rs) = (if r = n then rs else [])"
| "points_to n _ = []"

fun refers :: "string \<Rightarrow> constraint \<Rightarrow> bool" where
  "refers n (Foreign _ _ r _) \<longleftrightarrow> r = n"
| "refers n _ \<longleftrightarrow> False"

definition type_known :: "schema \<Rightarrow> column \<Rightarrow> bool" where
  "type_known s c \<longleftrightarrow> (case co_type c of Vector _ \<Rightarrow> ''vector'' \<in> set (sc_extensions s) | _ \<Rightarrow> True)"

definition change_table :: "string \<Rightarrow> (table \<Rightarrow> table) \<Rightarrow> schema \<Rightarrow> schema" where
  "change_table n f s = s\<lparr>sc_tables := map (\<lambda>t. if tb_name t = n then f t else t) (sc_tables s)\<rparr>"

definition add_index :: "index \<Rightarrow> table \<Rightarrow> table" where
  "add_index i t = t\<lparr>tb_indexes := tb_indexes t @ [i]\<rparr>"

definition without_index :: "string \<Rightarrow> table \<Rightarrow> table" where
  "without_index i t = t\<lparr>tb_indexes := filter (\<lambda>k. ix_name k \<noteq> i) (tb_indexes t)\<rparr>"

definition add_constraint :: "constraint \<Rightarrow> table \<Rightarrow> table" where
  "add_constraint k t = t\<lparr>tb_constraints := tb_constraints t @ [k]\<rparr>"

definition without_constraint :: "string \<Rightarrow> table \<Rightarrow> table" where
  "without_constraint n t = t\<lparr>tb_constraints := filter (\<lambda>k. constraint_name k \<noteq> Some n) (tb_constraints t)\<rparr>"

definition with_column :: "column \<Rightarrow> table \<Rightarrow> table" where
  "with_column c t = t\<lparr>tb_columns := tb_columns t @ [c]\<rparr>"

definition retype :: "string \<Rightarrow> col_type \<Rightarrow> table \<Rightarrow> table" where
  "retype c ty t = t\<lparr>tb_columns := map (\<lambda>k. if co_name k = c then k\<lparr>co_type := ty\<rparr> else k) (tb_columns t)\<rparr>"

text \<open>A column takes the indexes and constraints on it along.\<close>

definition without_column :: "string \<Rightarrow> table \<Rightarrow> table" where
  "without_column c t = t\<lparr>tb_columns := filter (\<lambda>k. co_name k \<noteq> c) (tb_columns t),
     tb_constraints := filter (\<lambda>k. c \<notin> set (constraint_columns k)) (tb_constraints t),
     tb_indexes := filter (\<lambda>i. c \<notin> set (ix_columns i) \<and> c \<notin> set (predicate_columns (ix_where i))) (tb_indexes t)\<rparr>"

definition create_index :: "index \<Rightarrow> string \<Rightarrow> schema \<Rightarrow> schema option" where
  "create_index i n s =
     (case table_of n s of
        None \<Rightarrow> None
      | Some t \<Rightarrow>
          if has_index (ix_name i) s \<or> \<not> covers t (ix_columns i) \<or> \<not> covers t (predicate_columns (ix_where i)) then None
          else Some (change_table n (add_index i) s))"

definition add_column :: "string \<Rightarrow> column \<Rightarrow> schema \<Rightarrow> schema option" where
  "add_column n c s =
     (case table_of n s of
        None \<Rightarrow> None
      | Some t \<Rightarrow>
          if co_name c \<in> set (column_names t) \<or> \<not> type_known s c then None
          else Some (change_table n (with_column c) s))"

definition drop_column :: "string \<Rightarrow> string \<Rightarrow> schema \<Rightarrow> schema option" where
  "drop_column n c s =
     (case table_of n s of
        None \<Rightarrow> None
      | Some t \<Rightarrow>
          if c \<notin> set (column_names t) \<or>
             list_ex (\<lambda>u. list_ex (\<lambda>k. c \<in> set (points_to n k)) (tb_constraints u)) (sc_tables s)
          then None
          else Some (change_table n (without_column c) s))"

fun apply_ddl :: "ddl \<Rightarrow> schema \<Rightarrow> schema option" where
  "apply_ddl (Create_table n cs ks) s =
     (let t = \<lparr>tb_name = n, tb_columns = cs, tb_constraints = ks, tb_indexes = []\<rparr>
      in if table_of n s \<noteq> None \<or> \<not> distinct (column_names t) \<or> \<not> list_all (type_known s) cs \<or>
            \<not> list_all (\<lambda>k. covers t (constraint_columns k) \<and> target_ok (sc_tables s @ [t]) k) ks
         then None else Some (s\<lparr>sc_tables := sc_tables s @ [t]\<rparr>))"
| "apply_ddl (Drop_table n) s =
     (if table_of n s = None \<or>
         list_ex (\<lambda>u. tb_name u \<noteq> n \<and> list_ex (refers n) (tb_constraints u)) (sc_tables s)
      then None
      else Some (s\<lparr>sc_tables := filter (\<lambda>t. tb_name t \<noteq> n) (sc_tables s),
                  sc_triggers := filter (\<lambda>(_, t, _). t \<noteq> n) (sc_triggers s)\<rparr>))"
| "apply_ddl (Create_index i n cs u w) s = create_index (ix i cs u w) n s"
| "apply_ddl (Drop_index i n) s =
     (case table_of n s of
        None \<Rightarrow> None
      | Some t \<Rightarrow>
          if list_ex (\<lambda>k. ix_name k = i) (tb_indexes t)
          then Some (change_table n (without_index i) s)
          else None)"
| "apply_ddl (Create_index_if_missing i n cs) s =
     (if has_index i s then Some s else create_index (ix i cs False Always) n s)"
| "apply_ddl (Drop_index_if_exists i) s =
     Some (s\<lparr>sc_tables := map (without_index i) (sc_tables s)\<rparr>)"
| "apply_ddl (Add_column n c) s = add_column n c s"
| "apply_ddl (Drop_column n c) s = drop_column n c s"
| "apply_ddl (Add_column_if_missing n c) s =
     (case table_of n s of
        Some t \<Rightarrow> if co_name c \<in> set (column_names t) then Some s else add_column n c s
      | None \<Rightarrow> None)"
| "apply_ddl (Drop_column_if_exists n c) s =
     (case table_of n s of
        Some t \<Rightarrow> if c \<notin> set (column_names t) then Some s else drop_column n c s
      | None \<Rightarrow> None)"
| "apply_ddl (Alter_type n c ty) s =
     (case table_of n s of
        None \<Rightarrow> None
      | Some t \<Rightarrow>
          if c \<in> set (column_names t)
          then Some (change_table n (retype c ty) s)
          else None)"
| "apply_ddl (Add_constraint n k) s =
     (case table_of n s of
        None \<Rightarrow> None
      | Some t \<Rightarrow>
          if \<not> covers t (constraint_columns k) \<or> \<not> target_ok (sc_tables s) k \<or>
             (constraint_name k \<noteq> None \<and> constraint_name k \<in> set (map constraint_name (tb_constraints t)))
          then None
          else Some (change_table n (add_constraint k) s))"
| "apply_ddl (Drop_constraint k n) s =
     (case table_of n s of
        None \<Rightarrow> None
      | Some t \<Rightarrow>
          let s' = change_table n (without_constraint k) s
          in if list_ex (\<lambda>c. constraint_name c = Some k) (tb_constraints t) \<and>
                list_all (\<lambda>u. list_all (target_ok (sc_tables s')) (tb_constraints u)) (sc_tables s')
             then Some s' else None)"
| "apply_ddl (Create_function f) s = Some (s\<lparr>sc_functions := List.insert f (sc_functions s)\<rparr>)"
| "apply_ddl (Drop_function_if_exists f) s =
     (if list_ex (\<lambda>(_, _, g). g = f) (sc_triggers s) then None
      else Some (s\<lparr>sc_functions := filter (\<lambda>g. g \<noteq> f) (sc_functions s)\<rparr>))"
| "apply_ddl (Create_trigger g n f) s =
     (if table_of n s = None \<or> f \<notin> set (sc_functions s) \<or> list_ex (\<lambda>(a, b, _). a = g \<and> b = n) (sc_triggers s) then None
      else Some (s\<lparr>sc_triggers := sc_triggers s @ [(g, n, f)]\<rparr>))"
| "apply_ddl (Drop_trigger_if_exists g n) s =
     Some (s\<lparr>sc_triggers := filter (\<lambda>(a, b, _). \<not> (a = g \<and> b = n)) (sc_triggers s)\<rparr>)"
| "apply_ddl (Create_extension e) s = Some (s\<lparr>sc_extensions := List.insert e (sc_extensions s)\<rparr>)"
| "apply_ddl (Delete_duplicates n cs w) s =
     (case table_of n s of
        None \<Rightarrow> None
      | Some t \<Rightarrow> if covers t cs \<and> covers t (predicate_columns w) then Some s else None)"

fun apply_all :: "ddl list \<Rightarrow> schema \<Rightarrow> schema option" where
  "apply_all [] s = Some s"
| "apply_all (d # ds) s = (case apply_ddl d s of None \<Rightarrow> None | Some s' \<Rightarrow> apply_all ds s')"

lemma apply_all_append: "apply_all (ds @ es) s = Option.bind (apply_all ds s) (apply_all es)"
  by (induction ds arbitrary: s) (simp_all split: option.split)

lemma apply_all_invariant:
  assumes step: "\<And>d s s'. d \<in> set ds \<Longrightarrow> apply_ddl d s = Some s' \<Longrightarrow> P s \<Longrightarrow> P s'"
    and "apply_all ds s = Some s'" and "P s"
  shows "P s'"
  using assms
proof (induction ds arbitrary: s)
  case (Cons d ds)
  then obtain s1 where "apply_ddl d s = Some s1" "apply_all ds s1 = Some s'" by (auto split: option.splits)
  moreover have "P s1" using Cons.prems(1) [of d s s1] Cons.prems(3) calculation(1) by simp
  ultimately show ?case using Cons.IH [of s1] Cons.prems(1) by (meson list.set_intros(2))
qed simp

section \<open>Well-formed schemas\<close>

text \<open>
  Names are unique, constraints and indexes are on columns of their table, foreign keys have a target
  and triggers have a table and a function.
\<close>

definition index_names :: "table list \<Rightarrow> string list" where
  "index_names ts = concat (map (\<lambda>t. map ix_name (tb_indexes t)) ts)"

definition wf_table :: "table list \<Rightarrow> table \<Rightarrow> bool" where
  "wf_table ts t \<longleftrightarrow> distinct (column_names t) \<and>
     list_all (\<lambda>k. covers t (constraint_columns k) \<and> target_ok ts k) (tb_constraints t) \<and>
     list_all (\<lambda>i. covers t (ix_columns i) \<and> covers t (predicate_columns (ix_where i))) (tb_indexes t)"

definition wf_schema :: "schema \<Rightarrow> bool" where
  "wf_schema s \<longleftrightarrow> distinct (map tb_name (sc_tables s)) \<and> distinct (index_names (sc_tables s)) \<and>
     list_all (wf_table (sc_tables s)) (sc_tables s) \<and>
     list_all (\<lambda>(g, n, f). n \<in> tb_name ` set (sc_tables s) \<and> f \<in> set (sc_functions s)) (sc_triggers s)"

lemma has_index_iff: "has_index n s \<longleftrightarrow> n \<in> set (index_names (sc_tables s))"
  by (auto simp: has_index_def index_names_def list_ex_iff)

lemma covers_iff: "covers t cs \<longleftrightarrow> set cs \<subseteq> set (column_names t)"
  by (auto simp: covers_def list_all_iff)

lemma table_of_None: "table_of n s = None \<longleftrightarrow> n \<notin> tb_name ` set (sc_tables s)"
  by (auto simp: table_of_def find_None_iff)

lemma table_of_split:
  assumes "table_of n s = Some t" and "distinct (map tb_name (sc_tables s))"
  obtains us vs where "sc_tables s = us @ t # vs" and "tb_name t = n" and "n \<notin> tb_name ` set us" and "n \<notin> tb_name ` set vs"
proof -
  from assms(1) have "t \<in> set (sc_tables s)" "tb_name t = n"
    by (auto simp: table_of_def find_Some_iff)
  then obtain us vs where "sc_tables s = us @ t # vs" by (meson split_list)
  with that \<open>tb_name t = n\<close> assms(2) show thesis by auto
qed

lemma change_split:
  assumes "sc_tables s = us @ t # vs" and "tb_name t = n" and "n \<notin> tb_name ` set us" and "n \<notin> tb_name ` set vs"
  shows "change_table n f s = s\<lparr>sc_tables := us @ f t # vs\<rparr>"
proof -
  have "map (\<lambda>t. if tb_name t = n then f t else t) us = us" "map (\<lambda>t. if tb_name t = n then f t else t) vs = vs"
    using assms(3,4) by (auto intro!: map_idI)
  with assms(1,2) show ?thesis by (simp add: change_table_def)
qed

lemma index_names_append [simp]: "index_names (us @ vs) = index_names us @ index_names vs"
  and index_names_Cons [simp]: "index_names (t # ts) = map ix_name (tb_indexes t) @ index_names ts"
  and index_names_Nil [simp]: "index_names [] = []"
  by (simp_all add: index_names_def)

text \<open>A table offers to foreign keys what another one offered.\<close>

definition offers :: "table \<Rightarrow> table \<Rightarrow> bool" where
  "offers t t' \<longleftrightarrow> tb_name t' = tb_name t \<and> set (column_names t) \<subseteq> set (column_names t') \<and>
     set (tb_constraints t) \<subseteq> set (tb_constraints t')"

lemma offers_refl [simp]: "offers t t"
  by (simp add: offers_def)

lemma target_ok_mono: "target_ok ts k \<Longrightarrow> \<forall>t \<in> set ts. \<exists>t' \<in> set ts'. offers t t' \<Longrightarrow> target_ok ts' k"
proof (induction ts k rule: target_ok.induct)
  case (1 ts nm cs r rs)
  then obtain t k t' where "t \<in> set ts" "tb_name t = r" "covers t rs" "k \<in> set (tb_constraints t)" "is_key rs k"
      "t' \<in> set ts'" "offers t t'"
    by (auto simp: list_ex_iff)
  then have "t' \<in> set ts' \<and> tb_name t' = r \<and> covers t' rs \<and> k \<in> set (tb_constraints t') \<and> is_key rs k"
    by (auto simp: offers_def covers_iff)
  then show ?case by (auto simp: list_ex_iff)
qed simp_all

lemma wf_schemaD:
  assumes "wf_schema s"
  shows "distinct (map tb_name (sc_tables s))" and "distinct (index_names (sc_tables s))"
    and "t \<in> set (sc_tables s) \<Longrightarrow> wf_table (sc_tables s) t"
    and "(g, n, f) \<in> set (sc_triggers s) \<Longrightarrow> n \<in> tb_name ` set (sc_tables s) \<and> f \<in> set (sc_functions s)"
  using assms by (auto simp: wf_schema_def list_all_iff)

lemma wf_table_mono:
  "wf_table ts u \<Longrightarrow> \<forall>t \<in> set ts. \<exists>t' \<in> set ts'. offers t t' \<Longrightarrow> wf_table ts' u"
  by (auto simp: wf_table_def list_all_iff intro: target_ok_mono)

lemma wf_change:
  assumes wf: "wf_schema s" and t: "table_of n s = Some t" and name: "tb_name (f t) = n"
    and this_table: "wf_table (sc_tables (change_table n f s)) (f t)"
    and others: "\<And>u. u \<in> set (sc_tables s) \<Longrightarrow> tb_name u \<noteq> n \<Longrightarrow> wf_table (sc_tables (change_table n f s)) u"
    and fresh: "distinct (map ix_name (tb_indexes (f t)))"
      "\<And>i. i \<in> set (tb_indexes (f t)) \<Longrightarrow> ix_name i \<in> ix_name ` set (tb_indexes t) \<or> \<not> has_index (ix_name i) s"
  shows "wf_schema (change_table n f s)"
proof -
  obtain us vs where sp: "sc_tables s = us @ t # vs" "tb_name t = n" "n \<notin> tb_name ` set us" "n \<notin> tb_name ` set vs"
    using table_of_split [OF t wf_schemaD(1) [OF wf]] .
  have ch: "change_table n f s = s\<lparr>sc_tables := us @ f t # vs\<rparr>" by (rule change_split [OF sp])
  have "distinct (index_names (us @ f t # vs))"
    using wf_schemaD(2) [OF wf] fresh unfolding has_index_iff sp(1) by fastforce
  moreover have "distinct (map tb_name (us @ f t # vs))" using wf_schemaD(1) [OF wf] sp name by simp
  moreover have "tb_name ` set (us @ f t # vs) = tb_name ` set (sc_tables s)" using sp name by simp
  moreover have "\<forall>u \<in> set (us @ f t # vs). wf_table (us @ f t # vs) u"
    using this_table others sp unfolding ch by (auto simp: image_iff)
  ultimately show ?thesis using wf_schemaD(4) [OF wf] unfolding ch by (auto simp: wf_schema_def list_all_iff)
qed

text \<open>A change that takes nothing away.\<close>

lemma change_offers:
  assumes "wf_schema s" and "table_of n s = Some t" and "offers t (f t)"
  shows "\<forall>u \<in> set (sc_tables s). \<exists>u' \<in> set (sc_tables (change_table n f s)). offers u u'"
proof -
  obtain us vs where sp: "sc_tables s = us @ t # vs" "tb_name t = n" "n \<notin> tb_name ` set us" "n \<notin> tb_name ` set vs"
    using table_of_split [OF assms(2) wf_schemaD(1) [OF assms(1)]] .
  have "\<exists>u' \<in> set (us @ f t # vs). offers u u'" if "u \<in> set (us @ t # vs)" for u
    using that assms(3) by (cases "u = t") (auto intro: bexI [of _ u])
  then show ?thesis unfolding change_split [OF sp] using sp(1) by simp
qed

lemma table_of_in: "table_of n s = Some t \<Longrightarrow> t \<in> set (sc_tables s) \<and> tb_name t = n"
  by (auto simp: table_of_def find_Some_iff)

lemma index_of_table: "table_of n s = Some t \<Longrightarrow> i \<in> set (tb_indexes t) \<Longrightarrow> has_index (ix_name i) s"
  by (auto simp: has_index_def list_ex_iff dest: table_of_in)

lemma table_distinct_indexes: "wf_schema s \<Longrightarrow> table_of n s = Some t \<Longrightarrow> distinct (map ix_name (tb_indexes t))"
  by (rule table_of_split [OF _ wf_schemaD(1), of n s t]) (auto dest: wf_schemaD(2))

lemma wf_extend:
  assumes wf: "wf_schema s" and t: "table_of n s = Some t" and off: "offers t (f t)"
    and cols: "distinct (column_names (f t))"
    and cons: "\<And>k. k \<in> set (tb_constraints (f t)) \<Longrightarrow> k \<in> set (tb_constraints t) \<or> covers t (constraint_columns k) \<and> target_ok (sc_tables s) k"
    and idx: "\<And>i. i \<in> set (tb_indexes (f t)) \<Longrightarrow> i \<in> set (tb_indexes t) \<or>
      covers t (ix_columns i) \<and> covers t (predicate_columns (ix_where i)) \<and> \<not> has_index (ix_name i) s"
    and dist: "distinct (map ix_name (tb_indexes (f t)))"
  shows "wf_schema (change_table n f s)"
proof (rule wf_change [OF wf t])
  note off' = change_offers [OF wf t, of f, OF off]
  have t': "t \<in> set (sc_tables s)" "tb_name t = n" using table_of_in [OF t] by auto
  note w = wf_schemaD(3) [OF wf t'(1)]
  show "tb_name (f t) = n" using off t' by (simp add: offers_def)
  show "wf_table (sc_tables (change_table n f s)) (f t)"
    unfolding wf_table_def list_all_iff
  proof (intro conjI ballI cols)
    have sub: "covers t cs \<Longrightarrow> covers (f t) cs" for cs using off by (auto simp: covers_iff offers_def)
    fix k assume "k \<in> set (tb_constraints (f t))"
    then have "covers t (constraint_columns k) \<and> target_ok (sc_tables s) k"
      using cons w by (auto simp: wf_table_def list_all_iff)
    then show "covers (f t) (constraint_columns k)" "target_ok (sc_tables (change_table n f s)) k"
      using sub target_ok_mono [OF _ off'] by auto
  next
    have sub: "covers t cs \<Longrightarrow> covers (f t) cs" for cs using off by (auto simp: covers_iff offers_def)
    fix i assume "i \<in> set (tb_indexes (f t))"
    then have "covers t (ix_columns i) \<and> covers t (predicate_columns (ix_where i))"
      using idx w by (auto simp: wf_table_def list_all_iff)
    then show "covers (f t) (ix_columns i)" "covers (f t) (predicate_columns (ix_where i))" using sub by auto
  qed
  show "\<And>u. u \<in> set (sc_tables s) \<Longrightarrow> tb_name u \<noteq> n \<Longrightarrow> wf_table (sc_tables (change_table n f s)) u"
    using wf_schemaD(3) [OF wf] off' by (blast intro: wf_table_mono)
qed (use dist idx in auto)

text \<open>The changes of a table.\<close>

lemma table_change_simps [simp]:
  "tb_name (add_index i t) = tb_name t" "tb_name (without_index j t) = tb_name t" "tb_name (add_constraint k t) = tb_name t"
  "tb_name (without_constraint m t) = tb_name t" "tb_name (with_column c t) = tb_name t" "tb_name (retype d ty t) = tb_name t"
  "tb_name (without_column d t) = tb_name t"
  "column_names (add_index i t) = column_names t" "column_names (without_index j t) = column_names t"
  "column_names (add_constraint k t) = column_names t" "column_names (without_constraint m t) = column_names t"
  "column_names (with_column c t) = column_names t @ [co_name c]" "column_names (retype d ty t) = column_names t"
  "column_names (without_column d t) = filter (\<lambda>x. x \<noteq> d) (column_names t)"
  "tb_constraints (add_index i t) = tb_constraints t" "tb_constraints (without_index j t) = tb_constraints t"
  "tb_constraints (add_constraint k t) = tb_constraints t @ [k]" "tb_constraints (with_column c t) = tb_constraints t"
  "tb_constraints (without_constraint m t) = filter (\<lambda>k. constraint_name k \<noteq> Some m) (tb_constraints t)"
  "tb_constraints (retype d ty t) = tb_constraints t"
  "tb_indexes (add_index i t) = tb_indexes t @ [i]" "tb_indexes (without_index j t) = filter (\<lambda>k. ix_name k \<noteq> j) (tb_indexes t)"
  "tb_indexes (add_constraint k t) = tb_indexes t" "tb_indexes (without_constraint m t) = tb_indexes t"
  "tb_indexes (with_column c t) = tb_indexes t" "tb_indexes (retype d ty t) = tb_indexes t"
  by (simp_all add: add_index_def without_index_def add_constraint_def without_constraint_def with_column_def retype_def
      without_column_def column_names_def filter_map o_def)

lemma distinct_filter_names: "distinct (map g xs) \<Longrightarrow> distinct (map g (filter P xs))"
  by (induction xs) auto

lemma table_columns_distinct: "wf_schema s \<Longrightarrow> table_of n s = Some t \<Longrightarrow> distinct (column_names t)"
  using wf_schemaD(3) [of s t] by (auto simp: wf_table_def dest: table_of_in)

lemma index_fresh: "table_of n s = Some t \<Longrightarrow> \<not> has_index j s \<Longrightarrow> j \<notin> ix_name ` set (tb_indexes t)"
  by (auto dest: index_of_table)

lemma wf_create_index:
  assumes "wf_schema s" and "create_index i n s = Some s'"
  shows "wf_schema s'"
proof -
  obtain t where t: "table_of n s = Some t" "\<not> has_index (ix_name i) s" "covers t (ix_columns i)"
      "covers t (predicate_columns (ix_where i))" "s' = change_table n (add_index i) s"
    using assms(2) by (auto simp: create_index_def split: option.splits if_splits)
  show ?thesis unfolding t(5)
    using t(2-4) table_columns_distinct [OF assms(1) t(1)] table_distinct_indexes [OF assms(1) t(1)] index_fresh [OF t(1,2)]
    by (intro wf_extend [OF assms(1) t(1)]) (auto simp: offers_def)
qed

lemma wf_add_column:
  assumes "wf_schema s" and "add_column n c s = Some s'"
  shows "wf_schema s'"
proof -
  obtain t where t: "table_of n s = Some t" "co_name c \<notin> set (column_names t)" "s' = change_table n (with_column c) s"
    using assms(2) by (auto simp: add_column_def split: option.splits if_splits)
  show ?thesis unfolding t(3)
    using t(2) table_columns_distinct [OF assms(1) t(1)] table_distinct_indexes [OF assms(1) t(1)]
    by (intro wf_extend [OF assms(1) t(1)]) (auto simp: offers_def)
qed

lemma wf_keep_shape:
  assumes "wf_schema s" and "table_of n s = Some t" and "offers t (f t)" and "column_names (f t) = column_names t"
    and "set (tb_constraints (f t)) = set (tb_constraints t)" and "tb_indexes (f t) = filter P (tb_indexes t)"
  shows "wf_schema (change_table n f s)"
  using assms table_columns_distinct [OF assms(1,2)] distinct_filter_names [OF table_distinct_indexes [OF assms(1,2)]]
  by (intro wf_extend) auto

lemma wf_add_constraint:
  assumes "wf_schema s" and "table_of n s = Some t" and "covers t (constraint_columns k)" and "target_ok (sc_tables s) k"
  shows "wf_schema (change_table n (add_constraint k) s)"
  using assms table_columns_distinct [OF assms(1,2)] table_distinct_indexes [OF assms(1,2)]
  by (intro wf_extend) (auto simp: offers_def)

text \<open>A foreign key keeps its target when a column it does not point to is dropped.\<close>

lemma target_ok_without_column:
  assumes "target_ok ts k" and "c \<notin> set (points_to n k)"
  shows "target_ok (map (\<lambda>t. if tb_name t = n then without_column c t else t) ts) k"
  using assms
proof (induction ts k rule: target_ok.induct)
  case (1 ts nm cs r rs)
  then obtain t key where k: "t \<in> set ts" "tb_name t = r" "covers t rs" "key \<in> set (tb_constraints t)" "is_key rs key"
    by (auto simp: list_ex_iff)
  let ?t = "if tb_name t = n then without_column c t else t"
  have "c \<notin> set (constraint_columns key)" if "r = n"
    using that 1 k(5) by (cases "(rs, key)" rule: is_key.cases) auto
  then have "tb_name ?t = r \<and> covers ?t rs \<and> key \<in> set (tb_constraints ?t)"
    using 1 k by (auto simp: covers_iff) (auto simp: without_column_def)
  moreover have "?t \<in> set (map (\<lambda>t. if tb_name t = n then without_column c t else t) ts)" using k(1) by auto
  ultimately show ?case unfolding target_ok.simps list_ex_iff using k(5) by blast
qed simp_all

lemma wf_drop_column:
  assumes wf: "wf_schema s" and "drop_column n c s = Some s'"
  shows "wf_schema s'"
proof -
  obtain t where t: "table_of n s = Some t" "s' = change_table n (without_column c) s"
      and free: "\<forall>u \<in> set (sc_tables s). \<forall>k \<in> set (tb_constraints u). c \<notin> set (points_to n k)"
    using assms(2) by (auto simp: drop_column_def list_ex_iff split: option.splits if_splits)
  have target: "target_ok (sc_tables s') k" if "u \<in> set (sc_tables s)" "k \<in> set (tb_constraints u)" for u k
    using target_ok_without_column [of "sc_tables s" k c n] wf_schemaD(3) [OF wf that(1)] free that
    by (simp add: t(2) change_table_def wf_table_def list_all_iff)
  note t' = table_of_in [OF t(1)]
  show ?thesis unfolding t(2)
  proof (rule wf_change [OF wf t(1)])
    show "wf_table (sc_tables (change_table n (without_column c) s)) (without_column c t)"
      using wf_schemaD(3) [OF wf, of t] t' target [of t]
      by (auto simp: wf_table_def list_all_iff covers_iff t(2)) (auto simp: without_column_def)
    show "wf_table (sc_tables (change_table n (without_column c) s)) u" if "u \<in> set (sc_tables s)" for u
      using wf_schemaD(3) [OF wf that] target [OF that] by (simp add: wf_table_def list_all_iff t(2))
    show "distinct (map ix_name (tb_indexes (without_column c t)))"
      using table_distinct_indexes [OF wf t(1)] by (simp add: without_column_def distinct_filter_names)
  qed (use t' in \<open>auto simp: without_column_def\<close>)
qed

lemma wf_drop_constraint:
  assumes wf: "wf_schema s" and "apply_ddl (Drop_constraint k n) s = Some s'"
  shows "wf_schema s'"
proof -
  obtain t where t: "table_of n s = Some t" "s' = change_table n (without_constraint k) s"
      and ok: "list_all (\<lambda>u. list_all (target_ok (sc_tables s')) (tb_constraints u)) (sc_tables s')"
    using assms(2) by (auto simp: Let_def split: option.splits if_splits)
  note t' = table_of_in [OF t(1)]
  have member: "(if tb_name u = n then without_constraint k u else u) \<in> set (sc_tables s')" if "u \<in> set (sc_tables s)" for u
    using that by (auto simp: t(2) change_table_def)
  show ?thesis unfolding t(2)
  proof (rule wf_change [OF wf t(1)])
    show "wf_table (sc_tables (change_table n (without_constraint k) s)) (without_constraint k t)"
      using wf_schemaD(3) [OF wf, of t] t' ok member [of t] by (auto simp: wf_table_def list_all_iff covers_iff t(2))
    show "wf_table (sc_tables (change_table n (without_constraint k) s)) u"
      if "u \<in> set (sc_tables s)" "tb_name u \<noteq> n" for u
      using wf_schemaD(3) [OF wf that(1)] ok member [OF that(1)] that(2) by (auto simp: wf_table_def list_all_iff t(2))
  qed (use t' table_distinct_indexes [OF wf t(1)] in auto)
qed

lemma wf_create_table:
  assumes wf: "wf_schema s" and "apply_ddl (Create_table n cs ks) s = Some s'"
  shows "wf_schema s'"
proof -
  define t where "t = \<lparr>tb_name = n, tb_columns = cs, tb_constraints = ks, tb_indexes = []\<rparr>"
  have s': "s' = s\<lparr>sc_tables := sc_tables s @ [t]\<rparr>" "n \<notin> tb_name ` set (sc_tables s)" "distinct (column_names t)"
      "list_all (\<lambda>k. covers t (constraint_columns k) \<and> target_ok (sc_tables s @ [t]) k) ks"
    using assms(2) by (auto simp: Let_def t_def table_of_None [symmetric] split: if_splits)
  have "wf_table (sc_tables s @ [t]) u" if "u \<in> set (sc_tables s)" for u
    by (rule wf_table_mono [OF wf_schemaD(3) [OF wf that]]) (metis UnCI offers_refl set_append)
  moreover have "wf_table (sc_tables s @ [t]) t" using s'(3,4) by (simp add: wf_table_def) (simp add: t_def)
  moreover have "tb_name t = n" "tb_indexes t = []" by (simp_all add: t_def)
  ultimately show ?thesis using wf s'(1,2) by (fastforce simp: wf_schema_def list_all_iff)
qed

lemma target_ok_without_table:
  assumes "target_ok ts k" and "\<not> refers n k"
  shows "target_ok (filter (\<lambda>t. tb_name t \<noteq> n) ts) k"
  using assms by (induction ts k rule: target_ok.induct) (auto simp: list_ex_iff)

lemma wf_drop_table:
  assumes wf: "wf_schema s" and "apply_ddl (Drop_table n) s = Some s'"
  shows "wf_schema s'"
proof -
  have s': "s' = s\<lparr>sc_tables := filter (\<lambda>t. tb_name t \<noteq> n) (sc_tables s), sc_triggers := filter (\<lambda>(_, t, _). t \<noteq> n) (sc_triggers s)\<rparr>"
      and free: "\<And>u k. u \<in> set (sc_tables s) \<Longrightarrow> tb_name u \<noteq> n \<Longrightarrow> k \<in> set (tb_constraints u) \<Longrightarrow> \<not> refers n k"
    using assms(2) by (auto simp: list_ex_iff split: if_splits)
  have "wf_table (filter (\<lambda>t. tb_name t \<noteq> n) (sc_tables s)) u" if "u \<in> set (sc_tables s)" "tb_name u \<noteq> n" for u
    using wf_schemaD(3) [OF wf that(1)] free [OF that] by (auto simp: wf_table_def list_all_iff intro: target_ok_without_table)
  moreover have "distinct (index_names (filter P ts))" if "distinct (index_names ts)" for P and ts :: "table list"
    using that by (induction ts) (auto simp: index_names_def)
  ultimately show ?thesis
    using wf by (auto simp: s' wf_schema_def list_all_iff distinct_filter_names)
qed

lemma wf_drop_index_if_exists:
  assumes wf: "wf_schema s"
  shows "wf_schema (s\<lparr>sc_tables := map (without_index i) (sc_tables s)\<rparr>)"
proof -
  have "index_names (map (without_index i) ts) = filter (\<lambda>x. x \<noteq> i) (index_names ts)" for ts
    by (induction ts) (simp_all add: filter_map o_def)
  moreover have "wf_table (map (without_index i) (sc_tables s)) (without_index i u)" if "u \<in> set (sc_tables s)" for u
  proof -
    have "wf_table (map (without_index i) (sc_tables s)) u"
      by (rule wf_table_mono [OF wf_schemaD(3) [OF wf that]]) (auto simp: offers_def)
    then show ?thesis by (auto simp: wf_table_def list_all_iff covers_iff)
  qed
  moreover have "map tb_name (map (without_index i) ts) = map tb_name ts" for ts by (induction ts) simp_all
  moreover have "tb_name ` set (map (without_index i) ts) = tb_name ` set ts" for ts by (simp add: image_image)
  moreover have "tb_name \<circ> without_index i = tb_name" by (simp add: fun_eq_iff)
  ultimately show ?thesis using wf by (simp add: wf_schema_def list_all_iff)
qed

theorem apply_ddl_wf:
  assumes "wf_schema s" and "apply_ddl d s = Some s'"
  shows "wf_schema s'"
proof (cases d)
  case (Drop_index i n)
  with assms show ?thesis
    by (auto split: option.splits if_splits intro!: wf_keep_shape simp: offers_def)
next
  case (Alter_type n c ty)
  with assms show ?thesis
    by (auto split: option.splits if_splits intro!: wf_keep_shape [where P = "\<lambda>_. True"] simp: offers_def)
next
  case (Drop_trigger_if_exists g n)
  with assms show ?thesis by (auto simp: wf_schema_def list_all_iff)
next
  case (Drop_function_if_exists f)
  with assms show ?thesis by (auto simp: wf_schema_def list_all_iff list_ex_iff split: if_splits)
next
  case (Create_trigger g n f)
  with assms show ?thesis by (auto simp: wf_schema_def list_all_iff table_of_None split: if_splits)
next
  case (Create_function f)
  with assms show ?thesis by (auto simp: wf_schema_def list_all_iff)
next
  case (Create_extension e)
  with assms show ?thesis by (auto simp: wf_schema_def)
next
  case (Add_constraint n k)
  with assms show ?thesis by (auto split: option.splits if_splits intro: wf_add_constraint)
qed (use assms in \<open>auto split: option.splits if_splits
       intro: wf_create_index wf_add_column wf_drop_column wf_drop_index_if_exists
         wf_create_table wf_drop_table wf_drop_constraint simp del: apply_ddl.simps(1,2,13)\<close>)

section \<open>Undoing an operation\<close>

fun inverse_ddl :: "ddl \<Rightarrow> ddl option" where
  "inverse_ddl (Create_table n _ _) = Some (Drop_table n)"
| "inverse_ddl (Create_index i n _ _ _) = Some (Drop_index i n)"
| "inverse_ddl (Add_column n c) = Some (Drop_column n (co_name c))"
| "inverse_ddl (Add_constraint n k) = map_option (\<lambda>m. Drop_constraint m n) (constraint_name k)"
| "inverse_ddl _ = None"

lemma filter_other: "x \<notin> g ` set ys \<Longrightarrow> filter (\<lambda>y. g y \<noteq> x) ys = ys"
  by (induction ys) auto

lemma change_back:
  assumes "wf_schema s" and "table_of n s = Some t" and "tb_name (f t) = n" and "g (f t) = t"
  shows "table_of n (change_table n f s) = Some (f t)" and "change_table n g (change_table n f s) = s"
proof -
  obtain us vs where sp: "sc_tables s = us @ t # vs" "tb_name t = n" "n \<notin> tb_name ` set us" "n \<notin> tb_name ` set vs"
    using table_of_split [OF assms(2) wf_schemaD(1) [OF assms(1)]] .
  have ch: "change_table n f s = s\<lparr>sc_tables := us @ f t # vs\<rparr>" by (rule change_split [OF sp])
  have "find (\<lambda>t. tb_name t = n) us = None" using sp(3) by (auto simp: find_None_iff)
  then have "find (\<lambda>t. tb_name t = n) (us @ f t # vs) = Some (f t)" using assms(3) by (induction us) (auto split: if_splits)
  then show "table_of n (change_table n f s) = Some (f t)" by (simp add: table_of_def ch)
  have "change_table n g (change_table n f s) = (change_table n f s)\<lparr>sc_tables := us @ g (f t) # vs\<rparr>"
    by (rule change_split) (use ch sp assms(3) in auto)
  then show "change_table n g (change_table n f s) = s" using sp(1) assms(4) by (simp add: ch)
qed

lemma undo_create_index:
  assumes wf: "wf_schema s" and "create_index i n s = Some s'"
  shows "apply_ddl (Drop_index (ix_name i) n) s' = Some s"
proof -
  obtain t where t: "table_of n s = Some t" "\<not> has_index (ix_name i) s" "s' = change_table n (add_index i) s"
    using assms(2) by (auto simp: create_index_def split: option.splits if_splits)
  have "filter (\<lambda>k. ix_name k \<noteq> ix_name i) (tb_indexes t) = tb_indexes t"
    using index_fresh [OF t(1,2)] by (rule filter_other)
  then have "without_index (ix_name i) (add_index i t) = t" by (simp add: without_index_def add_index_def)
  then show ?thesis
    using change_back [OF wf t(1), of "add_index i" "without_index (ix_name i)"] table_of_in [OF t(1)] by (simp add: t(3))
qed

lemma undo_add_column:
  assumes wf: "wf_schema s" and "add_column n c s = Some s'"
  shows "apply_ddl (Drop_column n (co_name c)) s' = Some s"
proof -
  obtain t where t: "table_of n s = Some t" "co_name c \<notin> set (column_names t)" "s' = change_table n (with_column c) s"
    using assms(2) by (auto simp: add_column_def split: option.splits if_splits)
  note t' = table_of_in [OF t(1)] and w = wf_schemaD(3) [OF wf]
  have "filter (\<lambda>k. co_name k \<noteq> co_name c) (tb_columns t) = tb_columns t"
    using t(2) by (intro filter_other) (simp add: column_names_def)
  moreover have "\<forall>k \<in> set (tb_constraints t). co_name c \<notin> set (constraint_columns k)"
      "\<forall>i \<in> set (tb_indexes t). co_name c \<notin> set (ix_columns i) \<and> co_name c \<notin> set (predicate_columns (ix_where i))"
    using t(2) w [of t] t' unfolding wf_table_def list_all_iff covers_iff by blast+
  then have "filter (\<lambda>k. co_name c \<notin> set (constraint_columns k)) (tb_constraints t) = tb_constraints t"
       "filter (\<lambda>i. co_name c \<notin> set (ix_columns i) \<and> co_name c \<notin> set (predicate_columns (ix_where i))) (tb_indexes t) = tb_indexes t"
    by (simp_all add: filter_id_conv)
  ultimately have undone: "without_column (co_name c) (with_column c t) = t" by (simp add: without_column_def with_column_def)
  have same: "u = t" if "u \<in> set (sc_tables s)" "tb_name u = n" for u
    using that t' wf_schemaD(1) [OF wf] by (auto simp: distinct_map dest: inj_onD)
  have "co_name c \<notin> set (points_to n k)" if u: "u \<in> set (sc_tables s)" "k \<in> set (tb_constraints u)" for u k
  proof -
    have "target_ok (sc_tables s) k" using w [OF u(1)] u(2) by (auto simp: wf_table_def list_all_iff)
    then show ?thesis using t(2) same by (cases k) (auto simp: list_ex_iff covers_iff)
  qed
  moreover have "tb_constraints (if tb_name u = n then with_column c u else u) = tb_constraints u" for u by simp
  ultimately have "\<not> list_ex (\<lambda>u. list_ex (\<lambda>k. co_name c \<in> set (points_to n k)) (tb_constraints u)) (sc_tables s')"
    by (auto simp: t(3) change_table_def list_ex_iff)
  then show ?thesis
    using change_back [OF wf t(1), of "with_column c" "without_column (co_name c)"] t' undone by (simp add: t(3) drop_column_def)
qed

lemma undo_add_constraint:
  assumes wf: "wf_schema s" and "apply_ddl (Add_constraint n k) s = Some s'" and "constraint_name k = Some m"
  shows "apply_ddl (Drop_constraint m n) s' = Some s"
proof -
  obtain t where t: "table_of n s = Some t" "Some m \<notin> constraint_name ` set (tb_constraints t)" "s' = change_table n (add_constraint k) s"
    using assms(2,3) by (auto split: option.splits if_splits)
  have "filter (\<lambda>c. constraint_name c \<noteq> Some m) (tb_constraints t) = tb_constraints t"
    using t(2) by (rule filter_other)
  then have "without_constraint m (add_constraint k t) = t" using assms(3) by (simp add: without_constraint_def add_constraint_def)
  moreover have "list_all (\<lambda>u. list_all (target_ok (sc_tables s)) (tb_constraints u)) (sc_tables s)"
    using wf_schemaD(3) [OF wf] by (auto simp: list_all_iff wf_table_def)
  ultimately show ?thesis
    using change_back [OF wf t(1), of "add_constraint k" "without_constraint m"] table_of_in [OF t(1)] assms(3)
    by (simp add: t(3) Let_def)
qed

lemma undo_create_table:
  assumes wf: "wf_schema s" and "apply_ddl (Create_table n cs ks) s = Some s'"
  shows "apply_ddl (Drop_table n) s' = Some s"
proof -
  define t where "t = \<lparr>tb_name = n, tb_columns = cs, tb_constraints = ks, tb_indexes = []\<rparr>"
  have s': "s' = s\<lparr>sc_tables := sc_tables s @ [t]\<rparr>" "n \<notin> tb_name ` set (sc_tables s)"
    using assms(2) by (auto simp: Let_def t_def table_of_None [symmetric] split: if_splits)
  have "\<not> refers n k" if u: "u \<in> set (sc_tables s)" "k \<in> set (tb_constraints u)" for u k
  proof -
    have "target_ok (sc_tables s) k" using wf_schemaD(3) [OF wf u(1)] u(2) by (auto simp: wf_table_def list_all_iff)
    then show ?thesis using s'(2) by (cases k) (auto simp: list_ex_iff)
  qed
  moreover have "tb_name t = n" by (simp add: t_def)
  moreover have "filter (\<lambda>t. tb_name t \<noteq> n) (sc_tables s) = sc_tables s" using s'(2) by (auto simp: filter_id_conv)
  moreover have "filter (\<lambda>(_, t, _). t \<noteq> n) (sc_triggers s) = sc_triggers s"
    using wf_schemaD(4) [OF wf] s'(2) by (auto simp: filter_id_conv)
  ultimately show ?thesis by (auto simp: s'(1) list_ex_iff table_of_None)
qed

lemma inverse_undoes:
  assumes "wf_schema s" and "apply_ddl d s = Some s'" and "inverse_ddl d = Some u"
  shows "apply_ddl u s' = Some s"
  using assms(2,3)
proof (induction d rule: inverse_ddl.induct)
  case (1 n cs ks)
  then show ?case using undo_create_table [OF assms(1) 1(1)] by (auto simp del: apply_ddl.simps)
next
  case (2 i n cs w p)
  then show ?case using undo_create_index [OF assms(1), of "ix i cs w p" n s'] by (simp add: ix_def del: apply_ddl.simps(4))
next
  case (3 n c)
  then show ?case using undo_add_column [OF assms(1), of n c s'] by simp
next
  case (4 n k)
  then show ?case using undo_add_constraint [OF assms(1), of n k s'] by (auto simp del: apply_ddl.simps)
qed simp_all

text \<open>A list of operations is undone by the inverses in the opposite order.\<close>

fun undo_list :: "ddl list \<Rightarrow> ddl list option" where
  "undo_list [] = Some []"
| "undo_list (d # ds) =
     (case (inverse_ddl d, undo_list ds) of (Some u, Some us) \<Rightarrow> Some (us @ [u]) | _ \<Rightarrow> None)"

theorem undo_list_undoes:
  "wf_schema s \<Longrightarrow> apply_all ds s = Some s' \<Longrightarrow> undo_list ds = Some us \<Longrightarrow> apply_all us s' = Some s"
proof (induction ds arbitrary: s us)
  case (Cons d ds)
  then obtain s1 u vs where "apply_ddl d s = Some s1" "apply_all ds s1 = Some s'"
      "inverse_ddl d = Some u" "undo_list ds = Some vs" "us = vs @ [u]"
    by (auto split: option.splits)
  moreover have "wf_schema s1" using apply_ddl_wf Cons.prems(1) calculation(1) by blast
  ultimately show ?case using Cons.IH [of s1 vs] inverse_undoes [OF Cons.prems(1)] by (simp add: apply_all_append)
qed simp

lemma apply_all_wf: "wf_schema s \<Longrightarrow> apply_all ds s = Some s' \<Longrightarrow> wf_schema s'"
  by (rule apply_all_invariant [where P = wf_schema]) (auto dest: apply_ddl_wf)

end
