(* ===== verification/Migrations.thy ===== *)
theory Migrations
  imports Schema
begin

text \<open>
  The migrations of \<open>migrations/versions\<close>, one list of operations per \<open>upgrade\<close> and \<open>downgrade\<close> (the
  initial one in parts), and their chain. \<open>Model_Schema\<close> holds the schema the models declare.
\<close>

record revision =
  rv_id :: string
  rv_down :: "string option"
  rv_up :: "ddl list"
  rv_undo :: "ddl list"

section \<open>The operations\<close>

definition upgrade_5014bc0ab4ea_1 :: "ddl list" where
  "upgrade_5014bc0ab4ea_1 =
     [Create_table ''agent_profiles''
        [col ''name'' (Varchar 120) False,
         col ''description'' Text_t False,
         col ''system_policy'' Text_t False,
         col ''tool_allowlist'' Jsonb False,
         col ''is_active'' Boolean_t False,
         col ''id'' Uuid False,
         col ''created_at'' Timestamp False,
         col ''updated_at'' Timestamp False,
         col ''schema_version'' Integer_t False]
        [Primary [''id''], Unique None [''name'']],
      Create_index ''ix_agent_profiles_id'' ''agent_profiles'' [''id''] False Always,
      Create_table ''memory_items''
        [col ''content'' Text_t False,
         col ''source'' Text_t False,
         col ''observed_at'' Timestamp True,
         col ''confidence'' Float_t False,
         col ''ttl'' Integer_t True,
         col ''status'' (Varchar 24) False,
         col ''verification_status'' (Varchar 24) False,
         col ''embedding'' Jsonb True,
         col ''category'' (Varchar 64) True,
         col ''expires_at'' Timestamp True,
         col ''id'' Uuid False,
         col ''created_at'' Timestamp False,
         col ''updated_at'' Timestamp False,
         col ''schema_version'' Integer_t False]
        [Primary [''id'']],
      Create_index ''ix_memory_items_id'' ''memory_items'' [''id''] False Always,
      Create_index ''ix_memory_status'' ''memory_items'' [''status''] False Always,
      Create_table ''policy_versions''
        [col ''name'' (Varchar 120) False,
         col ''version'' Integer_t False,
         col ''content'' Jsonb False,
         col ''is_active'' Boolean_t False,
         col ''id'' Uuid False,
         col ''created_at'' Timestamp False,
         col ''updated_at'' Timestamp False,
         col ''schema_version'' Integer_t False]
        [Primary [''id''], Unique (Some ''uq_policy_name_ver'') [''name'', ''version'']],
      Create_index ''ix_policy_versions_id'' ''policy_versions'' [''id''] False Always,
      Create_table ''prompt_versions''
        [col ''name'' (Varchar 120) False,
         col ''version'' Integer_t False,
         col ''content'' Text_t False,
         col ''is_active'' Boolean_t False,
         col ''id'' Uuid False,
         col ''created_at'' Timestamp False,
         col ''updated_at'' Timestamp False,
         col ''schema_version'' Integer_t False]
        [Primary [''id''], Unique (Some ''uq_prompt_name_ver'') [''name'', ''version'']],
      Create_index ''ix_prompt_versions_id'' ''prompt_versions'' [''id''] False Always,
      Create_table ''reports''
        [col ''report_type'' (Varchar 64) False,
         col ''subject'' (Varchar 255) False,
         col ''summary'' Text_t False,
         col ''body'' Jsonb False,
         col ''confidence'' Float_t False,
         col ''schema_version'' Integer_t False,
         col ''signed_did'' Text_t True,
         col ''id'' Uuid False,
         col ''created_at'' Timestamp False,
         col ''updated_at'' Timestamp False]
        [Primary [''id'']],
      Create_index ''ix_reports_id'' ''reports'' [''id''] False Always,
      Create_table ''sources''
        [col ''name'' (Varchar 120) False,
         col ''source_type'' (Varchar 40) False,
         col ''config'' Jsonb False,
         col ''is_enabled'' Boolean_t False,
         col ''last_accessed_at'' Timestamp True,
         col ''error_series'' Jsonb False,
         col ''backoff_until'' Timestamp True,
         col ''id'' Uuid False,
         col ''created_at'' Timestamp False,
         col ''updated_at'' Timestamp False,
         col ''schema_version'' Integer_t False]
        [Primary [''id'']],
      Create_index ''ix_sources_id'' ''sources'' [''id''] False Always,
      Create_table ''technocore_cursors''
        [col ''room'' (Varchar 255) False,
         col ''last_seq'' Integer_t False,
         col ''id'' Uuid False,
         col ''created_at'' Timestamp False,
         col ''updated_at'' Timestamp False,
         col ''schema_version'' Integer_t False]
        [Primary [''id''], Unique None [''room'']],
      Create_index ''ix_technocore_cursors_id'' ''technocore_cursors'' [''id''] False Always,
      Create_table ''users''
        [col ''username'' (Varchar 120) False,
         col ''display_name'' (Varchar 255) False,
         col ''role'' (Varchar 40) False,
         col ''is_active'' Boolean_t False,
         col ''id'' Uuid False,
         col ''created_at'' Timestamp False,
         col ''updated_at'' Timestamp False,
         col ''schema_version'' Integer_t False]
        [Primary [''id''], Unique None [''username'']],
      Create_index ''ix_users_id'' ''users'' [''id''] False Always]"

definition upgrade_5014bc0ab4ea_2 :: "ddl list" where
  "upgrade_5014bc0ab4ea_2 =
     [Create_table ''audit_events''
        [col ''actor_user_id'' Uuid True,
         col ''actor'' (Varchar 120) False,
         col ''action'' (Varchar 120) False,
         col ''resource_type'' (Varchar 64) False,
         col ''resource_id'' (Varchar 64) True,
         col ''detail'' Jsonb False,
         col ''ts'' Timestamp False,
         col ''id'' Uuid False]
        [Foreign None [''actor_user_id''] ''users'' [''id''], Primary [''id'']],
      Create_index ''ix_audit_events_id'' ''audit_events'' [''id''] False Always,
      Create_index ''ix_audit_ts'' ''audit_events'' [''ts''] False Always,
      Create_table ''memory_relations''
        [col ''from_memory_id'' Uuid False,
         col ''to_memory_id'' Uuid False,
         col ''relation_type'' (Varchar 40) False,
         col ''id'' Uuid False,
         col ''created_at'' Timestamp False,
         col ''updated_at'' Timestamp False,
         col ''schema_version'' Integer_t False]
        [Foreign None [''from_memory_id''] ''memory_items'' [''id''], Foreign None [''to_memory_id''] ''memory_items'' [''id''], Primary [''id'']],
      Create_index ''ix_memory_relations_id'' ''memory_relations'' [''id''] False Always,
      Create_table ''publication_attempts''
        [col ''report_id'' Uuid True,
         col ''target'' (Varchar 120) False,
         col ''status'' (Varchar 24) False,
         col ''response'' Jsonb False,
         col ''idempotency_key'' (Varchar 128) False,
         col ''id'' Uuid False,
         col ''created_at'' Timestamp False,
         col ''updated_at'' Timestamp False,
         col ''schema_version'' Integer_t False]
        [Foreign None [''report_id''] ''reports'' [''id''], Primary [''id'']],
      Create_index ''ix_publication_attempts_id'' ''publication_attempts'' [''id''] False Always,
      Create_table ''source_observations''
        [col ''source_id'' Uuid False,
         col ''observed_at'' Timestamp False,
         col ''seq'' Integer_t False,
         col ''change_type'' (Varchar 64) False,
         col ''change'' Jsonb False,
         col ''hash'' (Varchar 64) False,
         col ''id'' Uuid False,
         col ''created_at'' Timestamp False,
         col ''updated_at'' Timestamp False,
         col ''schema_version'' Integer_t False]
        [Foreign None [''source_id''] ''sources'' [''id''], Primary [''id'']],
      Create_index ''ix_source_observations_id'' ''source_observations'' [''id''] False Always,
      Create_table ''tasks''
        [col ''title'' (Varchar 255) False,
         col ''prompt'' Text_t False,
         col ''scope'' Jsonb False,
         col ''budget'' Jsonb False,
         col ''owner_user_id'' Uuid True,
         col ''idempotency_key'' (Varchar 128) True,
         col ''id'' Uuid False,
         col ''created_at'' Timestamp False,
         col ''updated_at'' Timestamp False,
         col ''schema_version'' Integer_t False]
        [Foreign None [''owner_user_id''] ''users'' [''id''], Primary [''id'']],
      Create_index ''ix_tasks_id'' ''tasks'' [''id''] False Always,
      Create_table ''telegram_identities''
        [col ''telegram_user_id'' Integer_t False,
         col ''user_id'' Uuid True,
         col ''username'' (Varchar 120) True,
         col ''first_name'' (Varchar 255) True,
         col ''is_allowed'' Boolean_t False,
         col ''id'' Uuid False,
         col ''created_at'' Timestamp False,
         col ''updated_at'' Timestamp False,
         col ''schema_version'' Integer_t False]
        [Foreign None [''user_id''] ''users'' [''id''], Primary [''id''], Unique (Some ''uq_tg_user'') [''telegram_user_id'']],
      Create_index ''ix_telegram_identities_id'' ''telegram_identities'' [''id''] False Always,
      Create_table ''runs''
        [col ''task_id'' Uuid False,
         col ''status'' (Varchar 32) False,
         col ''plan_id'' Uuid True,
         col ''iteration'' Integer_t False,
         col ''token_budget'' Integer_t False,
         col ''cost_budget'' Float_t False,
         col ''token_used'' Integer_t False,
         col ''cost_used'' Float_t False,
         col ''started_at'' Timestamp True,
         col ''finished_at'' Timestamp True,
         col ''error'' Text_t True,
         col ''id'' Uuid False,
         col ''created_at'' Timestamp False,
         col ''updated_at'' Timestamp False,
         col ''schema_version'' Integer_t False]
        [Foreign None [''task_id''] ''tasks'' [''id''], Primary [''id'']],
      Create_index ''ix_runs_id'' ''runs'' [''id''] False Always]"

definition upgrade_5014bc0ab4ea_3 :: "ddl list" where
  "upgrade_5014bc0ab4ea_3 =
     [Create_table ''approvals''
        [col ''action_class'' (Varchar 32) False,
         col ''action_hash'' (Varchar 64) False,
         col ''target'' Text_t False,
         col ''impact_summary'' Text_t False,
         col ''payload'' Jsonb False,
         col ''status'' (Varchar 16) False,
         col ''requester_user_id'' Uuid True,
         col ''decided_by_user_id'' Uuid True,
         col ''decision'' (Varchar 16) True,
         col ''expires_at'' Timestamp True,
         col ''run_id'' Uuid True,
         col ''id'' Uuid False,
         col ''created_at'' Timestamp False,
         col ''updated_at'' Timestamp False,
         col ''schema_version'' Integer_t False]
        [Foreign None [''decided_by_user_id''] ''users'' [''id''], Foreign None [''requester_user_id''] ''users'' [''id''], Foreign None [''run_id''] ''runs'' [''id''], Primary [''id'']],
      Create_index ''ix_approvals_action_hash'' ''approvals'' [''action_hash''] False Always,
      Create_index ''ix_approvals_id'' ''approvals'' [''id''] False Always,
      Create_table ''context_snapshots''
        [col ''run_id'' Uuid False,
         col ''total_tokens'' Integer_t False,
         col ''id'' Uuid False,
         col ''created_at'' Timestamp False,
         col ''updated_at'' Timestamp False,
         col ''schema_version'' Integer_t False]
        [Foreign None [''run_id''] ''runs'' [''id''], Primary [''id'']],
      Create_index ''ix_context_snapshots_id'' ''context_snapshots'' [''id''] False Always,
      Create_table ''evidence_items''
        [col ''run_id'' Uuid True,
         col ''source_url'' Text_t False,
         col ''content_hash'' (Varchar 64) False,
         col ''claim'' Text_t False,
         col ''confidence'' Float_t False,
         col ''verified'' Boolean_t False,
         col ''id'' Uuid False,
         col ''created_at'' Timestamp False,
         col ''updated_at'' Timestamp False,
         col ''schema_version'' Integer_t False]
        [Foreign None [''run_id''] ''runs'' [''id''], Primary [''id'']],
      Create_index ''ix_evidence_items_id'' ''evidence_items'' [''id''] False Always,
      Create_table ''plans''
        [col ''run_id'' Uuid False,
         col ''plan_json'' Jsonb False,
         col ''expected_evidence'' Jsonb False,
         col ''status'' (Varchar 32) False,
         col ''id'' Uuid False,
         col ''created_at'' Timestamp False,
         col ''updated_at'' Timestamp False,
         col ''schema_version'' Integer_t False]
        [Foreign None [''run_id''] ''runs'' [''id''], Primary [''id'']],
      Create_index ''ix_plans_id'' ''plans'' [''id''] False Always,
      Create_table ''run_events''
        [col ''run_id'' Uuid False,
         col ''seq'' Integer_t False,
         col ''event_type'' (Varchar 64) False,
         col ''payload'' Jsonb False,
         col ''ts'' Timestamp False,
         col ''id'' Uuid False]
        [Foreign None [''run_id''] ''runs'' [''id''], Primary [''id'']],
      Create_index ''ix_run_events_id'' ''run_events'' [''id''] False Always,
      Create_index ''ix_run_events_run_seq'' ''run_events'' [''run_id'', ''seq''] False Always,
      Create_table ''tool_calls''
        [col ''run_id'' Uuid False,
         col ''tool_name'' (Varchar 120) False,
         col ''input_summary'' Text_t False,
         col ''input_redacted'' Text_t False,
         col ''result_summary'' Text_t False,
         col ''action_class'' (Varchar 32) False,
         col ''policy_decision'' (Varchar 24) False,
         col ''duration_ms'' Integer_t False,
         col ''ts'' Timestamp False,
         col ''id'' Uuid False]
        [Foreign None [''run_id''] ''runs'' [''id''], Primary [''id'']],
      Create_index ''ix_tool_calls_id'' ''tool_calls'' [''id''] False Always,
      Create_index ''ix_tool_calls_run_id'' ''tool_calls'' [''run_id''] False Always,
      Create_table ''context_segments''
        [col ''snapshot_id'' Uuid False,
         col ''segment_type'' (Varchar 64) False,
         col ''source_id'' (Varchar 255) False,
         col ''title'' (Varchar 255) False,
         col ''token_count'' Integer_t False,
         col ''relevance_score'' Float_t False,
         col ''freshness'' (Varchar 40) False,
         col ''confidence'' Float_t False,
         col ''included_reason'' Text_t False,
         col ''contains_untrusted_input'' Boolean_t False,
         col ''redaction_count'' Integer_t False,
         col ''id'' Uuid False]
        [Foreign None [''snapshot_id''] ''context_snapshots'' [''id''], Primary [''id'']],
      Create_index ''ix_context_segments_id'' ''context_segments'' [''id''] False Always]"

definition downgrade_5014bc0ab4ea :: "ddl list" where
  "downgrade_5014bc0ab4ea =
     [Drop_index ''ix_context_segments_id'' ''context_segments'',
      Drop_table ''context_segments'',
      Drop_index ''ix_tool_calls_run_id'' ''tool_calls'',
      Drop_index ''ix_tool_calls_id'' ''tool_calls'',
      Drop_table ''tool_calls'',
      Drop_index ''ix_run_events_run_seq'' ''run_events'',
      Drop_index ''ix_run_events_id'' ''run_events'',
      Drop_table ''run_events'',
      Drop_index ''ix_plans_id'' ''plans'',
      Drop_table ''plans'',
      Drop_index ''ix_evidence_items_id'' ''evidence_items'',
      Drop_table ''evidence_items'',
      Drop_index ''ix_context_snapshots_id'' ''context_snapshots'',
      Drop_table ''context_snapshots'',
      Drop_index ''ix_approvals_id'' ''approvals'',
      Drop_index ''ix_approvals_action_hash'' ''approvals'',
      Drop_table ''approvals'',
      Drop_index ''ix_runs_id'' ''runs'',
      Drop_table ''runs'',
      Drop_index ''ix_telegram_identities_id'' ''telegram_identities'',
      Drop_table ''telegram_identities'',
      Drop_index ''ix_tasks_id'' ''tasks'',
      Drop_table ''tasks'',
      Drop_index ''ix_source_observations_id'' ''source_observations'',
      Drop_table ''source_observations'',
      Drop_index ''ix_publication_attempts_id'' ''publication_attempts'',
      Drop_table ''publication_attempts'',
      Drop_index ''ix_memory_relations_id'' ''memory_relations'',
      Drop_table ''memory_relations'',
      Drop_index ''ix_audit_ts'' ''audit_events'',
      Drop_index ''ix_audit_events_id'' ''audit_events'',
      Drop_table ''audit_events'',
      Drop_index ''ix_users_id'' ''users'',
      Drop_table ''users'',
      Drop_index ''ix_technocore_cursors_id'' ''technocore_cursors'',
      Drop_table ''technocore_cursors'',
      Drop_index ''ix_sources_id'' ''sources'',
      Drop_table ''sources'',
      Drop_index ''ix_reports_id'' ''reports'',
      Drop_table ''reports'',
      Drop_index ''ix_prompt_versions_id'' ''prompt_versions'',
      Drop_table ''prompt_versions'',
      Drop_index ''ix_policy_versions_id'' ''policy_versions'',
      Drop_table ''policy_versions'',
      Drop_index ''ix_memory_status'' ''memory_items'',
      Drop_index ''ix_memory_items_id'' ''memory_items'',
      Drop_table ''memory_items'',
      Drop_index ''ix_agent_profiles_id'' ''agent_profiles'',
      Drop_table ''agent_profiles'']"

definition upgrade_7f2e9c1a3b4d :: "ddl list" where
  "upgrade_7f2e9c1a3b4d =
     [Alter_type ''telegram_identities'' ''telegram_user_id'' Big_integer,
      Create_table ''telegram_updates''
        [col ''update_id'' Big_integer False,
         col ''processed_at'' Timestamp False,
         col ''payload_hash'' (Varchar 64) True]
        [Primary [''update_id''], Unique (Some ''uq_tg_update_id'') [''update_id'']]]"

definition downgrade_7f2e9c1a3b4d :: "ddl list" where
  "downgrade_7f2e9c1a3b4d =
     [Drop_table ''telegram_updates'',
      Alter_type ''telegram_identities'' ''telegram_user_id'' Integer_t]"

definition upgrade_a1b2c3d4e5f6 :: "ddl list" where
  "upgrade_a1b2c3d4e5f6 =
     [Create_table ''outbox_messages''
        [col ''topic'' (Varchar 120) False,
         col ''payload'' Jsonb False,
         col ''idempotency_key'' (Varchar 128) False,
         col ''processed'' Boolean_t False,
         col ''processed_at'' Timestamp True,
         col ''attempts'' Integer_t False,
         col ''last_error'' Text_t True,
         col ''ts'' Timestamp False,
         col ''stream_id'' (Varchar 64) True,
         col ''created_at'' Timestamp False,
         col ''id'' Uuid False]
        [Primary [''id''], Unique (Some ''uq_outbox_idempotency'') [''idempotency_key'']],
      Create_index ''ix_outbox_processed'' ''outbox_messages'' [''processed'', ''created_at''] False Always,
      Create_index ''ix_outbox_topic'' ''outbox_messages'' [''topic''] False Always,
      Create_index ''ix_outbox_messages_id'' ''outbox_messages'' [''id''] False Always,
      Add_column ''runs'' (col ''heartbeat_at'' Timestamp True),
      Add_column ''runs'' (col ''lease_expires_at'' Timestamp True),
      Add_column ''runs'' (col ''worker_id'' (Varchar 64) True),
      Delete_duplicates ''tasks'' [''idempotency_key''] (Not_null ''idempotency_key''),
      Create_index ''ix_tasks_idempotency_key'' ''tasks'' [''idempotency_key''] True (Not_null ''idempotency_key''),
      Delete_duplicates ''run_events'' [''run_id'', ''seq''] Always,
      Add_constraint ''run_events'' (Unique (Some ''uq_run_events_run_seq'') [''run_id'', ''seq'']),
      Delete_duplicates ''publication_attempts'' [''idempotency_key''] (Not_empty ''idempotency_key''),
      Create_index ''ix_pub_idempotency_key'' ''publication_attempts'' [''idempotency_key''] True (Not_empty ''idempotency_key''),
      Create_function ''lumi_prevent_update_delete'',
      Drop_trigger_if_exists ''trg_run_events_append_only'' ''run_events'',
      Create_trigger ''trg_run_events_append_only'' ''run_events'' ''lumi_prevent_update_delete'',
      Drop_trigger_if_exists ''trg_audit_events_append_only'' ''audit_events'',
      Create_trigger ''trg_audit_events_append_only'' ''audit_events'' ''lumi_prevent_update_delete'']"

definition downgrade_a1b2c3d4e5f6 :: "ddl list" where
  "downgrade_a1b2c3d4e5f6 =
     [Drop_trigger_if_exists ''trg_audit_events_append_only'' ''audit_events'',
      Drop_trigger_if_exists ''trg_run_events_append_only'' ''run_events'',
      Drop_function_if_exists ''lumi_prevent_update_delete'',
      Drop_index ''ix_pub_idempotency_key'' ''publication_attempts'',
      Drop_constraint ''uq_run_events_run_seq'' ''run_events'',
      Drop_index ''ix_tasks_idempotency_key'' ''tasks'',
      Drop_column ''runs'' ''worker_id'',
      Drop_column ''runs'' ''lease_expires_at'',
      Drop_column ''runs'' ''heartbeat_at'',
      Drop_index ''ix_outbox_topic'' ''outbox_messages'',
      Drop_index ''ix_outbox_processed'' ''outbox_messages'',
      Drop_index ''ix_outbox_messages_id'' ''outbox_messages'',
      Drop_table ''outbox_messages'']"

definition upgrade_a9c8d7e6f5b4 :: "ddl list" where
  "upgrade_a9c8d7e6f5b4 =
     [Create_table ''agent_evaluations''
        [col ''id'' Uuid False,
         col ''room'' (Varchar 64) False,
         col ''seq'' Big_integer False,
         col ''global_seq'' Big_integer False,
         col ''nick'' (Varchar 120) False,
         col ''did'' (Varchar 80) True,
         col ''text'' Text_t False,
         col ''raw_json'' Jsonb False,
         col ''score'' Integer_t False,
         col ''tier'' (Varchar 16) False,
         col ''reason'' Text_t False,
         col ''dimensions'' Jsonb False,
         col ''model'' (Varchar 80) False,
         col ''evaluated_at'' Timestamp False,
         col ''created_at'' Timestamp False]
        [Primary [''id''], Unique (Some ''uq_agent_eval_room_seq'') [''room'', ''seq'']],
      Create_index ''ix_agent_evaluations_id'' ''agent_evaluations'' [''id''] False Always,
      Create_index ''ix_agent_eval_room_seq'' ''agent_evaluations'' [''room'', ''seq''] False Always,
      Create_index ''ix_agent_eval_tier'' ''agent_evaluations'' [''tier''] False Always,
      Create_index ''ix_agent_eval_score'' ''agent_evaluations'' [''score''] False Always]"

definition downgrade_a9c8d7e6f5b4 :: "ddl list" where
  "downgrade_a9c8d7e6f5b4 =
     [Drop_index ''ix_agent_eval_score'' ''agent_evaluations'',
      Drop_index ''ix_agent_eval_tier'' ''agent_evaluations'',
      Drop_index ''ix_agent_eval_room_seq'' ''agent_evaluations'',
      Drop_index ''ix_agent_evaluations_id'' ''agent_evaluations'',
      Drop_table ''agent_evaluations'']"

definition upgrade_b2c3d4e5f6a7b :: "ddl list" where
  "upgrade_b2c3d4e5f6a7b =
     [Create_extension ''vector'',
      Add_column_if_missing ''memory_items'' (col ''embedding_vector'' (Vector 1536) True),
      Create_index_if_missing ''ix_memory_embedding_vector'' ''memory_items'' [''embedding_vector'']]"

definition downgrade_b2c3d4e5f6a7b :: "ddl list" where
  "downgrade_b2c3d4e5f6a7b =
     [Drop_index_if_exists ''ix_memory_embedding_vector'',
      Drop_column_if_exists ''memory_items'' ''embedding_vector'']"

definition upgrade_c1d2e3f4a5b6 :: "ddl list" where
  "upgrade_c1d2e3f4a5b6 =
     [Add_column ''users'' ((col ''password_hash'' (Varchar 255) False)\<lparr>co_gen := Server_default []\<rparr>),
      Add_column ''runs'' (col ''control_request'' (Varchar 16) True),
      Add_column ''runs'' ((col ''retry_count'' Integer_t False)\<lparr>co_gen := Server_default ''0''\<rparr>),
      Add_column ''telegram_updates'' ((col ''status'' (Varchar 16) False)\<lparr>co_gen := Server_default ''PENDING''\<rparr>),
      Add_column ''telegram_updates'' ((col ''attempt_count'' Integer_t False)\<lparr>co_gen := Server_default ''0''\<rparr>),
      Add_column ''run_events'' ((col ''global_seq'' Big_integer False)\<lparr>co_gen := Identity\<rparr>),
      Create_index ''ix_run_events_global_seq'' ''run_events'' [''global_seq''] False Always]"

definition downgrade_c1d2e3f4a5b6 :: "ddl list" where
  "downgrade_c1d2e3f4a5b6 =
     [Drop_column ''telegram_updates'' ''attempt_count'',
      Drop_column ''telegram_updates'' ''status'',
      Drop_column ''runs'' ''retry_count'',
      Drop_column ''runs'' ''control_request'',
      Drop_column ''users'' ''password_hash'']"

definition upgrade_d4e5f6a7b8c9 :: "ddl list" where
  "upgrade_d4e5f6a7b8c9 =
     [Create_table ''technocore_nonces''
        [col ''id'' Uuid False,
         col ''created_at'' Timestamp False,
         col ''updated_at'' Timestamp False,
         col ''schema_version'' Integer_t False,
         col ''room'' (Varchar 255) False,
         col ''did'' (Varchar 80) False,
         col ''last_nonce'' Integer_t False]
        [Primary [''id''], Unique (Some ''uq_technocore_nonce_room_did'') [''room'', ''did'']],
      Create_index ''ix_technocore_nonce_room_did'' ''technocore_nonces'' [''room'', ''did''] False Always,
      Create_index ''ix_technocore_nonces_id'' ''technocore_nonces'' [''id''] False Always]"

definition downgrade_d4e5f6a7b8c9 :: "ddl list" where
  "downgrade_d4e5f6a7b8c9 =
     [Drop_index ''ix_technocore_nonces_id'' ''technocore_nonces'',
      Drop_index ''ix_technocore_nonce_room_did'' ''technocore_nonces'',
      Drop_table ''technocore_nonces'']"

definition upgrade_e1f2a3b4c5d6 :: "ddl list" where
  "upgrade_e1f2a3b4c5d6 =
     [Add_column ''runs'' (col ''source_run_id'' Uuid True),
      Add_column ''runs'' (col ''retry_idempotency_key'' (Varchar 128) True),
      Add_constraint ''runs'' (Foreign (Some ''fk_runs_source_run_id'') [''source_run_id''] ''runs'' [''id'']),
      Create_index ''ix_runs_source_run_id'' ''runs'' [''source_run_id''] False Always,
      Create_index ''ix_runs_source_retry'' ''runs'' [''source_run_id'', ''retry_idempotency_key''] False Always,
      Add_constraint ''runs'' (Unique (Some ''uq_runs_source_retry_key'') [''source_run_id'', ''retry_idempotency_key'']),
      Create_table ''action_executions''
        [col ''approval_id'' Uuid False,
         col ''run_id'' Uuid False,
         col ''action_id'' (Varchar 128) False,
         col ''tool'' (Varchar 120) False,
         col ''status'' (Varchar 24) False,
         col ''result'' Jsonb False,
         col ''id'' Uuid False,
         col ''created_at'' Timestamp False,
         col ''updated_at'' Timestamp False,
         col ''schema_version'' Integer_t False]
        [Foreign None [''approval_id''] ''approvals'' [''id''], Foreign None [''run_id''] ''runs'' [''id''], Primary [''id''], Unique (Some ''uq_action_exec_approval'') [''approval_id'']],
      Create_index ''ix_action_exec_run'' ''action_executions'' [''run_id''] False Always,
      Create_index ''ix_action_exec_approval'' ''action_executions'' [''approval_id''] False Always,
      Create_index ''ix_action_executions_id'' ''action_executions'' [''id''] False Always,
      Add_constraint ''run_events'' (Unique (Some ''uq_run_events_global_seq'') [''global_seq''])]"

definition downgrade_e1f2a3b4c5d6 :: "ddl list" where
  "downgrade_e1f2a3b4c5d6 =
     [Drop_constraint ''uq_run_events_global_seq'' ''run_events'',
      Drop_index ''ix_action_executions_id'' ''action_executions'',
      Drop_index ''ix_action_exec_approval'' ''action_executions'',
      Drop_index ''ix_action_exec_run'' ''action_executions'',
      Drop_table ''action_executions'',
      Drop_constraint ''uq_runs_source_retry_key'' ''runs'',
      Drop_index ''ix_runs_source_retry'' ''runs'',
      Drop_index ''ix_runs_source_run_id'' ''runs'',
      Drop_constraint ''fk_runs_source_run_id'' ''runs'',
      Drop_column ''runs'' ''retry_idempotency_key'',
      Drop_column ''runs'' ''source_run_id'']"

definition upgrade_f2a3b4c5d6e7 :: "ddl list" where
  "upgrade_f2a3b4c5d6e7 =
     [Add_column ''outbox_messages'' (col ''not_before'' Timestamp True),
      Create_index ''ix_outbox_messages_not_before'' ''outbox_messages'' [''not_before''] False Always]"

definition downgrade_f2a3b4c5d6e7 :: "ddl list" where
  "downgrade_f2a3b4c5d6e7 =
     [Drop_index ''ix_outbox_messages_not_before'' ''outbox_messages'',
      Drop_column ''outbox_messages'' ''not_before'']"

section \<open>The chain\<close>

definition REVISIONS :: "revision list" where
  "REVISIONS =
     [\<lparr>rv_id = ''5014bc0ab4ea'', rv_down = None, rv_up = upgrade_5014bc0ab4ea_1 @ upgrade_5014bc0ab4ea_2 @ upgrade_5014bc0ab4ea_3, rv_undo = downgrade_5014bc0ab4ea\<rparr>,
      \<lparr>rv_id = ''7f2e9c1a3b4d'', rv_down = Some ''b2c3d4e5f6a7b'', rv_up = upgrade_7f2e9c1a3b4d, rv_undo = downgrade_7f2e9c1a3b4d\<rparr>,
      \<lparr>rv_id = ''a1b2c3d4e5f6'', rv_down = Some ''5014bc0ab4ea'', rv_up = upgrade_a1b2c3d4e5f6, rv_undo = downgrade_a1b2c3d4e5f6\<rparr>,
      \<lparr>rv_id = ''a9c8d7e6f5b4'', rv_down = Some ''f2a3b4c5d6e7'', rv_up = upgrade_a9c8d7e6f5b4, rv_undo = downgrade_a9c8d7e6f5b4\<rparr>,
      \<lparr>rv_id = ''b2c3d4e5f6a7b'', rv_down = Some ''a1b2c3d4e5f6'', rv_up = upgrade_b2c3d4e5f6a7b, rv_undo = downgrade_b2c3d4e5f6a7b\<rparr>,
      \<lparr>rv_id = ''c1d2e3f4a5b6'', rv_down = Some ''7f2e9c1a3b4d'', rv_up = upgrade_c1d2e3f4a5b6, rv_undo = downgrade_c1d2e3f4a5b6\<rparr>,
      \<lparr>rv_id = ''d4e5f6a7b8c9'', rv_down = Some ''c1d2e3f4a5b6'', rv_up = upgrade_d4e5f6a7b8c9, rv_undo = downgrade_d4e5f6a7b8c9\<rparr>,
      \<lparr>rv_id = ''e1f2a3b4c5d6'', rv_down = Some ''d4e5f6a7b8c9'', rv_up = upgrade_e1f2a3b4c5d6, rv_undo = downgrade_e1f2a3b4c5d6\<rparr>,
      \<lparr>rv_id = ''f2a3b4c5d6e7'', rv_down = Some ''e1f2a3b4c5d6'', rv_up = upgrade_f2a3b4c5d6e7, rv_undo = downgrade_f2a3b4c5d6e7\<rparr>]"

text \<open>The revision above one, and the upgrade to the head: at most \<open>n\<close> steps.\<close>

definition revision_above :: "string option \<Rightarrow> revision option" where
  "revision_above d = find (\<lambda>r. rv_down r = d) REVISIONS"

fun upgrade_steps :: "nat \<Rightarrow> string option \<Rightarrow> schema \<Rightarrow> (string option \<times> schema) option" where
  "upgrade_steps 0 d s = Some (d, s)"
| "upgrade_steps (Suc n) d s =
     (case revision_above d of
        None \<Rightarrow> Some (d, s)
      | Some r \<Rightarrow> (case apply_all (rv_up r) s of None \<Rightarrow> None | Some s' \<Rightarrow> upgrade_steps n (Some (rv_id r)) s'))"

lemma revision_chain:
  "revision_above None = Some (REVISIONS ! 0)"
  "revision_above (Some ''5014bc0ab4ea'') = Some (REVISIONS ! 2)"
  "revision_above (Some ''a1b2c3d4e5f6'') = Some (REVISIONS ! 4)"
  "revision_above (Some ''b2c3d4e5f6a7b'') = Some (REVISIONS ! 1)"
  "revision_above (Some ''7f2e9c1a3b4d'') = Some (REVISIONS ! 5)"
  "revision_above (Some ''c1d2e3f4a5b6'') = Some (REVISIONS ! 6)"
  "revision_above (Some ''d4e5f6a7b8c9'') = Some (REVISIONS ! 7)"
  "revision_above (Some ''e1f2a3b4c5d6'') = Some (REVISIONS ! 8)"
  "revision_above (Some ''f2a3b4c5d6e7'') = Some (REVISIONS ! 3)"
  "revision_above (Some ''a9c8d7e6f5b4'') = None"
  by (simp_all add: revision_above_def REVISIONS_def)

text \<open>Nine steps reach the head: the chain is one list of operations.\<close>

definition ALL_UPGRADES :: "ddl list" where
  "ALL_UPGRADES = upgrade_5014bc0ab4ea_1 @ upgrade_5014bc0ab4ea_2 @ upgrade_5014bc0ab4ea_3 @ upgrade_a1b2c3d4e5f6 @
     upgrade_b2c3d4e5f6a7b @ upgrade_7f2e9c1a3b4d @ upgrade_c1d2e3f4a5b6 @ upgrade_d4e5f6a7b8c9 @ upgrade_e1f2a3b4c5d6 @
     upgrade_f2a3b4c5d6e7 @ upgrade_a9c8d7e6f5b4"

lemma upgrade_to_head:
  "upgrade_steps (Suc (length REVISIONS)) None s = map_option (Pair (Some ''a9c8d7e6f5b4'')) (apply_all ALL_UPGRADES s)"
proof -
  have "length REVISIONS = Suc (Suc (Suc (Suc (Suc (Suc (Suc (Suc (Suc 0))))))))" by (simp add: REVISIONS_def)
  then show ?thesis
    by (simp add: revision_chain REVISIONS_def ALL_UPGRADES_def apply_all_append split: option.split bind_split)
qed

section \<open>Going back\<close>

lemma exact_inverses:
  "undo_list (upgrade_5014bc0ab4ea_1 @ upgrade_5014bc0ab4ea_2 @ upgrade_5014bc0ab4ea_3) = Some downgrade_5014bc0ab4ea"
  "undo_list upgrade_d4e5f6a7b8c9 = Some downgrade_d4e5f6a7b8c9"
  "undo_list upgrade_e1f2a3b4c5d6 = Some downgrade_e1f2a3b4c5d6"
  "undo_list upgrade_f2a3b4c5d6e7 = Some downgrade_f2a3b4c5d6e7"
  "undo_list upgrade_a9c8d7e6f5b4 = Some downgrade_a9c8d7e6f5b4"
  by (simp_all add: upgrade_5014bc0ab4ea_1_def upgrade_5014bc0ab4ea_2_def upgrade_5014bc0ab4ea_3_def downgrade_5014bc0ab4ea_def
      upgrade_d4e5f6a7b8c9_def downgrade_d4e5f6a7b8c9_def upgrade_e1f2a3b4c5d6_def downgrade_e1f2a3b4c5d6_def
      upgrade_f2a3b4c5d6e7_def downgrade_f2a3b4c5d6e7_def upgrade_a9c8d7e6f5b4_def downgrade_a9c8d7e6f5b4_def col_def)

text \<open>
  C40: a downgrade gives back the schema the upgrade began with. For the initial revision and the revisions
  for nonces, executions, delayed messages and evaluations: on every well-formed schema on which
  the upgrade succeeds, its result is well-formed and the downgrade succeeds on it and restores the
  schema, every column, constraint, index and trigger of it.
\<close>

theorem downgrade_restores:
  assumes "wf_schema s" and "r \<in> set REVISIONS" and "apply_all (rv_up r) s = Some s'"
    and "rv_id r \<in> {''5014bc0ab4ea'', ''d4e5f6a7b8c9'', ''e1f2a3b4c5d6'', ''f2a3b4c5d6e7'', ''a9c8d7e6f5b4''}"
  shows "wf_schema s' \<and> apply_all (rv_undo r) s' = Some s"
proof -
  have "undo_list (rv_up r) = Some (rv_undo r)"
    using assms(2,4) exact_inverses by (auto simp: REVISIONS_def)
  with assms(1,3) show ?thesis using undo_list_undoes apply_all_wf by blast
qed

lemma downgrade_restores_witness:
  "\<exists>s'. apply_all upgrade_d4e5f6a7b8c9 empty_schema = Some s' \<and> apply_all downgrade_d4e5f6a7b8c9 s' = Some empty_schema"
proof -
  have "apply_all upgrade_d4e5f6a7b8c9 empty_schema \<noteq> None" by code_simp
  then obtain s' where s': "apply_all upgrade_d4e5f6a7b8c9 empty_schema = Some s'" by blast
  have r: "REVISIONS ! 6 \<in> set REVISIONS" "rv_id (REVISIONS ! 6) = ''d4e5f6a7b8c9''"
      "rv_up (REVISIONS ! 6) = upgrade_d4e5f6a7b8c9" "rv_undo (REVISIONS ! 6) = downgrade_d4e5f6a7b8c9"
    by (simp_all add: REVISIONS_def)
  have "wf_schema empty_schema" by (simp add: wf_schema_def empty_schema_def index_names_def)
  then show ?thesis using downgrade_restores [of empty_schema "REVISIONS ! 6" s'] s' r by auto
qed

text \<open>
  The revision for passwords is not undone: its downgrade leaves the column \<open>global_seq\<close> and its index, so
  the upgrade cannot be repeated after it.
\<close>

definition has_column :: "string \<Rightarrow> string \<Rightarrow> schema \<Rightarrow> bool" where
  "has_column n c s \<longleftrightarrow> (case table_of n s of None \<Rightarrow> False | Some t \<Rightarrow> c \<in> set (column_names t))"

lemma table_of_change:
  "(\<And>t. tb_name (f t) = tb_name t) \<Longrightarrow>
   table_of n (change_table m f s) = map_option (\<lambda>t. if n = m then f t else t) (table_of n s)"
proof -
  assume "\<And>t. tb_name (f t) = tb_name t"
  then have "find (\<lambda>t. tb_name t = n) (map (\<lambda>t. if tb_name t = m then f t else t) ts) =
      map_option (\<lambda>t. if n = m then f t else t) (find (\<lambda>t. tb_name t = n) ts)" for ts
    by (induction ts) auto
  then show ?thesis by (simp add: table_of_def change_table_def)
qed

fun spares :: "string \<Rightarrow> string \<Rightarrow> ddl \<Rightarrow> bool" where
  "spares n c (Add_column _ _) \<longleftrightarrow> True"
| "spares n c (Create_index _ _ _ _ _) \<longleftrightarrow> True"
| "spares n c (Drop_column m d) \<longleftrightarrow> \<not> (m = n \<and> d = c)"
| "spares n c _ \<longleftrightarrow> False"

lemma spares_keeps: "spares n c d \<Longrightarrow> apply_ddl d s = Some s' \<Longrightarrow> has_column n c s \<Longrightarrow> has_column n c s'"
  by (cases d)
     (auto simp: has_column_def add_column_def drop_column_def create_index_def table_of_change split: option.splits if_splits)

lemma spares_list:
  "list_all (spares n c) ds \<Longrightarrow> apply_all ds s = Some s' \<Longrightarrow> has_column n c s \<Longrightarrow> has_column n c s'"
  by (rule apply_all_invariant [where P = "has_column n c"]) (auto simp: list_all_iff intro: spares_keeps)

lemma added_column:
  "apply_ddl (Add_column n c) s = Some s' \<Longrightarrow> has_column n (co_name c) s' \<and> \<not> has_column n (co_name c) s"
  by (auto simp: has_column_def add_column_def table_of_change split: option.splits if_splits)

lemma added_in_list:
  assumes "apply_all (ds @ Add_column n c # es) s = Some s'" and "list_all (spares n (co_name c)) (ds @ es)"
  shows "has_column n (co_name c) s' \<and> \<not> has_column n (co_name c) s"
proof -
  obtain s1 s2 where "apply_all ds s = Some s1" "apply_ddl (Add_column n c) s1 = Some s2" "apply_all es s2 = Some s'"
    using assms(1) by (auto simp: apply_all_append bind_eq_Some_conv simp del: apply_ddl.simps split: option.splits)
  with assms(2) show ?thesis using added_column spares_list by (metis list_all_append)
qed

lemma password_upgrade_not_repeated:
  assumes "apply_all upgrade_c1d2e3f4a5b6 s = Some s1" and "apply_all downgrade_c1d2e3f4a5b6 s1 = Some s2"
  shows "apply_all upgrade_c1d2e3f4a5b6 s2 = None"
proof -
  define g where "g = (col ''global_seq'' Big_integer False)\<lparr>co_gen := Identity\<rparr>"
  obtain ds es where up: "upgrade_c1d2e3f4a5b6 = ds @ Add_column ''run_events'' g # es"
      and ok: "list_all (spares ''run_events'' (co_name g)) (ds @ es)"
  proof
    show "upgrade_c1d2e3f4a5b6 = take 5 upgrade_c1d2e3f4a5b6 @ Add_column ''run_events'' g # drop 6 upgrade_c1d2e3f4a5b6"
      by (simp add: upgrade_c1d2e3f4a5b6_def g_def)
  qed (simp add: upgrade_c1d2e3f4a5b6_def)
  have "list_all (spares ''run_events'' (co_name g)) downgrade_c1d2e3f4a5b6"
    by (simp add: downgrade_c1d2e3f4a5b6_def)
  then have "has_column ''run_events'' (co_name g) s2"
    using assms added_in_list [OF _ ok] spares_list unfolding up by blast
  then have "apply_all (ds @ Add_column ''run_events'' g # es) s2 \<noteq> Some s3" for s3 using added_in_list [OF _ ok] by blast
  then show ?thesis unfolding up by (meson not_Some_eq)
qed

end
