(* ===== verification/Model_Schema.thy ===== *)
theory Model_Schema
  imports Migrations
begin

text \<open>
  The schema \<open>packages/observability/models.py\<close> declares for PostgreSQL, one table per class: the columns of the
  mixins and of the class, the constraints and indexes of the columns and of \<open>__table_args__\<close>; and the
  comparison with what the migrations build.
\<close>

section \<open>The classes\<close>

definition model_users :: table where
  "model_users = \<lparr>tb_name = ''users'',
     tb_columns =
       [col ''id'' Uuid False,
        col ''created_at'' Timestamp False,
        col ''updated_at'' Timestamp False,
        col ''schema_version'' Integer_t False,
        col ''username'' (Varchar 120) False,
        col ''display_name'' (Varchar 255) False,
        col ''role'' (Varchar 40) False,
        col ''is_active'' Boolean_t False,
        col ''password_hash'' (Varchar 255) False],
     tb_constraints = [Primary [''id''], Unique None [''username'']],
     tb_indexes = [ix ''ix_users_id'' [''id''] False Always]\<rparr>"

definition model_telegram_identities :: table where
  "model_telegram_identities = \<lparr>tb_name = ''telegram_identities'',
     tb_columns =
       [col ''id'' Uuid False,
        col ''created_at'' Timestamp False,
        col ''updated_at'' Timestamp False,
        col ''schema_version'' Integer_t False,
        col ''telegram_user_id'' Big_integer False,
        col ''user_id'' Uuid True,
        col ''username'' (Varchar 120) True,
        col ''first_name'' (Varchar 255) True,
        col ''is_allowed'' Boolean_t False],
     tb_constraints = [Primary [''id''], Unique (Some ''uq_tg_user'') [''telegram_user_id''], Foreign None [''user_id''] ''users'' [''id'']],
     tb_indexes = [ix ''ix_telegram_identities_id'' [''id''] False Always]\<rparr>"

definition model_agent_profiles :: table where
  "model_agent_profiles = \<lparr>tb_name = ''agent_profiles'',
     tb_columns =
       [col ''id'' Uuid False,
        col ''created_at'' Timestamp False,
        col ''updated_at'' Timestamp False,
        col ''schema_version'' Integer_t False,
        col ''name'' (Varchar 120) False,
        col ''description'' Text_t False,
        col ''system_policy'' Text_t False,
        col ''tool_allowlist'' Jsonb False,
        col ''is_active'' Boolean_t False],
     tb_constraints = [Primary [''id''], Unique None [''name'']],
     tb_indexes = [ix ''ix_agent_profiles_id'' [''id''] False Always]\<rparr>"

definition model_tasks :: table where
  "model_tasks = \<lparr>tb_name = ''tasks'',
     tb_columns =
       [col ''id'' Uuid False,
        col ''created_at'' Timestamp False,
        col ''updated_at'' Timestamp False,
        col ''schema_version'' Integer_t False,
        col ''title'' (Varchar 255) False,
        col ''prompt'' Text_t False,
        col ''scope'' Jsonb False,
        col ''budget'' Jsonb False,
        col ''owner_user_id'' Uuid True,
        col ''idempotency_key'' (Varchar 128) True],
     tb_constraints = [Primary [''id''], Foreign None [''owner_user_id''] ''users'' [''id'']],
     tb_indexes = [ix ''ix_tasks_id'' [''id''] False Always, ix ''ix_tasks_idempotency_key'' [''idempotency_key''] True (Not_null ''idempotency_key'')]\<rparr>"

definition model_runs :: table where
  "model_runs = \<lparr>tb_name = ''runs'',
     tb_columns =
       [col ''id'' Uuid False,
        col ''created_at'' Timestamp False,
        col ''updated_at'' Timestamp False,
        col ''schema_version'' Integer_t False,
        col ''task_id'' Uuid False,
        col ''source_run_id'' Uuid True,
        col ''retry_idempotency_key'' (Varchar 128) True,
        col ''status'' (Varchar 32) False,
        col ''plan_id'' Uuid True,
        col ''iteration'' Integer_t False,
        col ''token_budget'' Integer_t False,
        col ''cost_budget'' Float_t False,
        col ''token_used'' Integer_t False,
        col ''cost_used'' Float_t False,
        col ''started_at'' Timestamp True,
        col ''finished_at'' Timestamp True,
        col ''error'' Text_t True,
        col ''heartbeat_at'' Timestamp True,
        col ''lease_expires_at'' Timestamp True,
        col ''worker_id'' (Varchar 64) True,
        col ''control_request'' (Varchar 16) True,
        col ''retry_count'' Integer_t False],
     tb_constraints = [Primary [''id''], Unique (Some ''uq_runs_source_retry_key'') [''source_run_id'', ''retry_idempotency_key''], Foreign None [''task_id''] ''tasks'' [''id''], Foreign None [''source_run_id''] ''runs'' [''id'']],
     tb_indexes = [ix ''ix_runs_id'' [''id''] False Always, ix ''ix_runs_source_run_id'' [''source_run_id''] False Always, ix ''ix_runs_source_retry'' [''source_run_id'', ''retry_idempotency_key''] False Always]\<rparr>"

definition model_run_events :: table where
  "model_run_events = \<lparr>tb_name = ''run_events'',
     tb_columns =
       [col ''id'' Uuid False,
        col ''run_id'' Uuid False,
        col ''seq'' Integer_t False,
        (col ''global_seq'' Big_integer False)\<lparr>co_gen := Identity\<rparr>,
        col ''event_type'' (Varchar 64) False,
        col ''payload'' Jsonb False,
        col ''ts'' Timestamp False],
     tb_constraints = [Primary [''id''], Unique (Some ''uq_run_events_run_seq'') [''run_id'', ''seq''], Unique (Some ''uq_run_events_global_seq'') [''global_seq''], Foreign None [''run_id''] ''runs'' [''id'']],
     tb_indexes = [ix ''ix_run_events_id'' [''id''] False Always, ix ''ix_run_events_run_seq'' [''run_id'', ''seq''] False Always]\<rparr>"

definition model_plans :: table where
  "model_plans = \<lparr>tb_name = ''plans'',
     tb_columns =
       [col ''id'' Uuid False,
        col ''created_at'' Timestamp False,
        col ''updated_at'' Timestamp False,
        col ''schema_version'' Integer_t False,
        col ''run_id'' Uuid False,
        col ''plan_json'' Jsonb False,
        col ''expected_evidence'' Jsonb False,
        col ''status'' (Varchar 32) False],
     tb_constraints = [Primary [''id''], Foreign None [''run_id''] ''runs'' [''id'']],
     tb_indexes = [ix ''ix_plans_id'' [''id''] False Always]\<rparr>"

definition model_tool_calls :: table where
  "model_tool_calls = \<lparr>tb_name = ''tool_calls'',
     tb_columns =
       [col ''id'' Uuid False,
        col ''run_id'' Uuid False,
        col ''tool_name'' (Varchar 120) False,
        col ''input_summary'' Text_t False,
        col ''input_redacted'' Text_t False,
        col ''result_summary'' Text_t False,
        col ''action_class'' (Varchar 32) False,
        col ''policy_decision'' (Varchar 24) False,
        col ''duration_ms'' Integer_t False,
        col ''ts'' Timestamp False],
     tb_constraints = [Primary [''id''], Foreign None [''run_id''] ''runs'' [''id'']],
     tb_indexes = [ix ''ix_tool_calls_id'' [''id''] False Always, ix ''ix_tool_calls_run_id'' [''run_id''] False Always]\<rparr>"

definition model_approvals :: table where
  "model_approvals = \<lparr>tb_name = ''approvals'',
     tb_columns =
       [col ''id'' Uuid False,
        col ''created_at'' Timestamp False,
        col ''updated_at'' Timestamp False,
        col ''schema_version'' Integer_t False,
        col ''action_class'' (Varchar 32) False,
        col ''action_hash'' (Varchar 64) False,
        col ''target'' Text_t False,
        col ''impact_summary'' Text_t False,
        col ''payload'' Jsonb False,
        col ''status'' (Varchar 16) False,
        col ''requester_user_id'' Uuid True,
        col ''decided_by_user_id'' Uuid True,
        col ''decision'' (Varchar 16) True,
        col ''expires_at'' Timestamp True,
        col ''run_id'' Uuid True],
     tb_constraints = [Primary [''id''], Foreign None [''requester_user_id''] ''users'' [''id''], Foreign None [''decided_by_user_id''] ''users'' [''id''], Foreign None [''run_id''] ''runs'' [''id'']],
     tb_indexes = [ix ''ix_approvals_id'' [''id''] False Always, ix ''ix_approvals_action_hash'' [''action_hash''] False Always]\<rparr>"

definition model_context_snapshots :: table where
  "model_context_snapshots = \<lparr>tb_name = ''context_snapshots'',
     tb_columns =
       [col ''id'' Uuid False,
        col ''created_at'' Timestamp False,
        col ''updated_at'' Timestamp False,
        col ''schema_version'' Integer_t False,
        col ''run_id'' Uuid False,
        col ''total_tokens'' Integer_t False],
     tb_constraints = [Primary [''id''], Foreign None [''run_id''] ''runs'' [''id'']],
     tb_indexes = [ix ''ix_context_snapshots_id'' [''id''] False Always]\<rparr>"

definition model_context_segments :: table where
  "model_context_segments = \<lparr>tb_name = ''context_segments'',
     tb_columns =
       [col ''id'' Uuid False,
        col ''snapshot_id'' Uuid False,
        col ''segment_type'' (Varchar 64) False,
        col ''source_id'' (Varchar 255) False,
        col ''title'' (Varchar 255) False,
        col ''token_count'' Integer_t False,
        col ''relevance_score'' Float_t False,
        col ''freshness'' (Varchar 40) False,
        col ''confidence'' Float_t False,
        col ''included_reason'' Text_t False,
        col ''contains_untrusted_input'' Boolean_t False,
        col ''redaction_count'' Integer_t False],
     tb_constraints = [Primary [''id''], Foreign None [''snapshot_id''] ''context_snapshots'' [''id'']],
     tb_indexes = [ix ''ix_context_segments_id'' [''id''] False Always]\<rparr>"

definition model_memory_items :: table where
  "model_memory_items = \<lparr>tb_name = ''memory_items'',
     tb_columns =
       [col ''id'' Uuid False,
        col ''created_at'' Timestamp False,
        col ''updated_at'' Timestamp False,
        col ''schema_version'' Integer_t False,
        col ''content'' Text_t False,
        col ''source'' Text_t False,
        col ''observed_at'' Timestamp True,
        col ''confidence'' Float_t False,
        col ''ttl'' Integer_t True,
        col ''status'' (Varchar 24) False,
        col ''verification_status'' (Varchar 24) False,
        col ''embedding'' Jsonb True,
        col ''embedding_vector'' (Vector 1536) True,
        col ''category'' (Varchar 64) True,
        col ''expires_at'' Timestamp True],
     tb_constraints = [Primary [''id'']],
     tb_indexes = [ix ''ix_memory_items_id'' [''id''] False Always, ix ''ix_memory_status'' [''status''] False Always]\<rparr>"

definition model_memory_relations :: table where
  "model_memory_relations = \<lparr>tb_name = ''memory_relations'',
     tb_columns =
       [col ''id'' Uuid False,
        col ''created_at'' Timestamp False,
        col ''updated_at'' Timestamp False,
        col ''schema_version'' Integer_t False,
        col ''from_memory_id'' Uuid False,
        col ''to_memory_id'' Uuid False,
        col ''relation_type'' (Varchar 40) False],
     tb_constraints = [Primary [''id''], Foreign None [''from_memory_id''] ''memory_items'' [''id''], Foreign None [''to_memory_id''] ''memory_items'' [''id'']],
     tb_indexes = [ix ''ix_memory_relations_id'' [''id''] False Always]\<rparr>"

definition model_sources :: table where
  "model_sources = \<lparr>tb_name = ''sources'',
     tb_columns =
       [col ''id'' Uuid False,
        col ''created_at'' Timestamp False,
        col ''updated_at'' Timestamp False,
        col ''schema_version'' Integer_t False,
        col ''name'' (Varchar 120) False,
        col ''source_type'' (Varchar 40) False,
        col ''config'' Jsonb False,
        col ''is_enabled'' Boolean_t False,
        col ''last_accessed_at'' Timestamp True,
        col ''error_series'' Jsonb False,
        col ''backoff_until'' Timestamp True],
     tb_constraints = [Primary [''id'']],
     tb_indexes = [ix ''ix_sources_id'' [''id''] False Always]\<rparr>"

definition model_source_observations :: table where
  "model_source_observations = \<lparr>tb_name = ''source_observations'',
     tb_columns =
       [col ''id'' Uuid False,
        col ''created_at'' Timestamp False,
        col ''updated_at'' Timestamp False,
        col ''schema_version'' Integer_t False,
        col ''source_id'' Uuid False,
        col ''observed_at'' Timestamp False,
        col ''seq'' Integer_t False,
        col ''change_type'' (Varchar 64) False,
        col ''change'' Jsonb False,
        col ''hash'' (Varchar 64) False],
     tb_constraints = [Primary [''id''], Foreign None [''source_id''] ''sources'' [''id'']],
     tb_indexes = [ix ''ix_source_observations_id'' [''id''] False Always]\<rparr>"

definition model_evidence_items :: table where
  "model_evidence_items = \<lparr>tb_name = ''evidence_items'',
     tb_columns =
       [col ''id'' Uuid False,
        col ''created_at'' Timestamp False,
        col ''updated_at'' Timestamp False,
        col ''schema_version'' Integer_t False,
        col ''run_id'' Uuid True,
        col ''source_url'' Text_t False,
        col ''content_hash'' (Varchar 64) False,
        col ''claim'' Text_t False,
        col ''confidence'' Float_t False,
        col ''verified'' Boolean_t False],
     tb_constraints = [Primary [''id''], Foreign None [''run_id''] ''runs'' [''id'']],
     tb_indexes = [ix ''ix_evidence_items_id'' [''id''] False Always]\<rparr>"

definition model_reports :: table where
  "model_reports = \<lparr>tb_name = ''reports'',
     tb_columns =
       [col ''id'' Uuid False,
        col ''created_at'' Timestamp False,
        col ''updated_at'' Timestamp False,
        col ''schema_version'' Integer_t False,
        col ''report_type'' (Varchar 64) False,
        col ''subject'' (Varchar 255) False,
        col ''summary'' Text_t False,
        col ''body'' Jsonb False,
        col ''confidence'' Float_t False,
        col ''signed_did'' Text_t True],
     tb_constraints = [Primary [''id'']],
     tb_indexes = [ix ''ix_reports_id'' [''id''] False Always]\<rparr>"

definition model_publication_attempts :: table where
  "model_publication_attempts = \<lparr>tb_name = ''publication_attempts'',
     tb_columns =
       [col ''id'' Uuid False,
        col ''created_at'' Timestamp False,
        col ''updated_at'' Timestamp False,
        col ''schema_version'' Integer_t False,
        col ''report_id'' Uuid True,
        col ''target'' (Varchar 120) False,
        col ''status'' (Varchar 24) False,
        col ''response'' Jsonb False,
        col ''idempotency_key'' (Varchar 128) False],
     tb_constraints = [Primary [''id''], Foreign None [''report_id''] ''reports'' [''id'']],
     tb_indexes = [ix ''ix_publication_attempts_id'' [''id''] False Always, ix ''ix_pub_idempotency_key'' [''idempotency_key''] True (Not_empty ''idempotency_key'')]\<rparr>"

definition model_technocore_cursors :: table where
  "model_technocore_cursors = \<lparr>tb_name = ''technocore_cursors'',
     tb_columns =
       [col ''id'' Uuid False,
        col ''created_at'' Timestamp False,
        col ''updated_at'' Timestamp False,
        col ''schema_version'' Integer_t False,
        col ''room'' (Varchar 255) False,
        col ''last_seq'' Integer_t False],
     tb_constraints = [Primary [''id''], Unique None [''room'']],
     tb_indexes = [ix ''ix_technocore_cursors_id'' [''id''] False Always]\<rparr>"

definition model_technocore_nonces :: table where
  "model_technocore_nonces = \<lparr>tb_name = ''technocore_nonces'',
     tb_columns =
       [col ''id'' Uuid False,
        col ''created_at'' Timestamp False,
        col ''updated_at'' Timestamp False,
        col ''schema_version'' Integer_t False,
        col ''room'' (Varchar 255) False,
        col ''did'' (Varchar 80) False,
        col ''last_nonce'' Integer_t False],
     tb_constraints = [Primary [''id''], Unique (Some ''uq_technocore_nonce_room_did'') [''room'', ''did'']],
     tb_indexes = [ix ''ix_technocore_nonces_id'' [''id''] False Always, ix ''ix_technocore_nonce_room_did'' [''room'', ''did''] False Always]\<rparr>"

definition model_prompt_versions :: table where
  "model_prompt_versions = \<lparr>tb_name = ''prompt_versions'',
     tb_columns =
       [col ''id'' Uuid False,
        col ''created_at'' Timestamp False,
        col ''updated_at'' Timestamp False,
        col ''schema_version'' Integer_t False,
        col ''name'' (Varchar 120) False,
        col ''version'' Integer_t False,
        col ''content'' Text_t False,
        col ''is_active'' Boolean_t False],
     tb_constraints = [Primary [''id''], Unique (Some ''uq_prompt_name_ver'') [''name'', ''version'']],
     tb_indexes = [ix ''ix_prompt_versions_id'' [''id''] False Always]\<rparr>"

definition model_policy_versions :: table where
  "model_policy_versions = \<lparr>tb_name = ''policy_versions'',
     tb_columns =
       [col ''id'' Uuid False,
        col ''created_at'' Timestamp False,
        col ''updated_at'' Timestamp False,
        col ''schema_version'' Integer_t False,
        col ''name'' (Varchar 120) False,
        col ''version'' Integer_t False,
        col ''content'' Jsonb False,
        col ''is_active'' Boolean_t False],
     tb_constraints = [Primary [''id''], Unique (Some ''uq_policy_name_ver'') [''name'', ''version'']],
     tb_indexes = [ix ''ix_policy_versions_id'' [''id''] False Always]\<rparr>"

definition model_audit_events :: table where
  "model_audit_events = \<lparr>tb_name = ''audit_events'',
     tb_columns =
       [col ''id'' Uuid False,
        col ''actor_user_id'' Uuid True,
        col ''actor'' (Varchar 120) False,
        col ''action'' (Varchar 120) False,
        col ''resource_type'' (Varchar 64) False,
        col ''resource_id'' (Varchar 64) True,
        col ''detail'' Jsonb False,
        col ''ts'' Timestamp False],
     tb_constraints = [Primary [''id''], Foreign None [''actor_user_id''] ''users'' [''id'']],
     tb_indexes = [ix ''ix_audit_events_id'' [''id''] False Always, ix ''ix_audit_ts'' [''ts''] False Always]\<rparr>"

definition model_telegram_updates :: table where
  "model_telegram_updates = \<lparr>tb_name = ''telegram_updates'',
     tb_columns =
       [col ''update_id'' Big_integer False,
        col ''processed_at'' Timestamp False,
        col ''payload_hash'' (Varchar 64) True,
        col ''status'' (Varchar 16) False,
        col ''attempt_count'' Integer_t False],
     tb_constraints = [Primary [''update_id''], Unique (Some ''uq_tg_update_id'') [''update_id'']],
     tb_indexes = []\<rparr>"

definition model_action_executions :: table where
  "model_action_executions = \<lparr>tb_name = ''action_executions'',
     tb_columns =
       [col ''id'' Uuid False,
        col ''created_at'' Timestamp False,
        col ''updated_at'' Timestamp False,
        col ''schema_version'' Integer_t False,
        col ''approval_id'' Uuid False,
        col ''run_id'' Uuid False,
        col ''action_id'' (Varchar 128) False,
        col ''tool'' (Varchar 120) False,
        col ''status'' (Varchar 24) False,
        col ''result'' Jsonb False],
     tb_constraints = [Primary [''id''], Unique (Some ''uq_action_exec_approval'') [''approval_id''], Foreign None [''approval_id''] ''approvals'' [''id''], Foreign None [''run_id''] ''runs'' [''id'']],
     tb_indexes = [ix ''ix_action_executions_id'' [''id''] False Always, ix ''ix_action_exec_run'' [''run_id''] False Always, ix ''ix_action_exec_approval'' [''approval_id''] False Always]\<rparr>"

definition model_outbox_messages :: table where
  "model_outbox_messages = \<lparr>tb_name = ''outbox_messages'',
     tb_columns =
       [col ''id'' Uuid False,
        col ''topic'' (Varchar 120) False,
        col ''payload'' Jsonb False,
        col ''idempotency_key'' (Varchar 128) False,
        col ''processed'' Boolean_t False,
        col ''processed_at'' Timestamp True,
        col ''attempts'' Integer_t False,
        col ''last_error'' Text_t True,
        col ''ts'' Timestamp False,
        col ''stream_id'' (Varchar 64) True,
        col ''created_at'' Timestamp False,
        col ''not_before'' Timestamp True],
     tb_constraints = [Primary [''id''], Unique (Some ''uq_outbox_idempotency'') [''idempotency_key'']],
     tb_indexes = [ix ''ix_outbox_messages_id'' [''id''] False Always, ix ''ix_outbox_processed'' [''processed'', ''created_at''] False Always, ix ''ix_outbox_topic'' [''topic''] False Always, ix ''ix_outbox_messages_not_before'' [''not_before''] False Always]\<rparr>"

definition model_agent_evaluations :: table where
  "model_agent_evaluations = \<lparr>tb_name = ''agent_evaluations'',
     tb_columns =
       [col ''id'' Uuid False,
        col ''room'' (Varchar 64) False,
        col ''seq'' Big_integer False,
        col ''global_seq'' Big_integer False,
        col ''nick'' (Varchar 120) False,
        col ''did'' (Varchar 80) True,
        col ''text'' Text_t False,
        col ''raw_json'' Jsonb False,
        col ''score'' Integer_t False,
        col ''tier'' (Varchar 16) False,
        col ''reason'' Text_t False,
        col ''dimensions'' Jsonb False,
        col ''model'' (Varchar 80) False,
        col ''evaluated_at'' Timestamp False,
        col ''created_at'' Timestamp False],
     tb_constraints = [Primary [''id''], Unique (Some ''uq_agent_eval_room_seq'') [''room'', ''seq'']],
     tb_indexes = [ix ''ix_agent_evaluations_id'' [''id''] False Always, ix ''ix_agent_eval_tier'' [''tier''] False Always, ix ''ix_agent_eval_score'' [''score''] False Always, ix ''ix_agent_eval_room_seq'' [''room'', ''seq''] False Always]\<rparr>"

definition MODEL :: "table list" where
  "MODEL = [model_users,
     model_telegram_identities,
     model_agent_profiles,
     model_tasks,
     model_runs,
     model_run_events,
     model_plans,
     model_tool_calls,
     model_approvals,
     model_context_snapshots,
     model_context_segments,
     model_memory_items,
     model_memory_relations,
     model_sources,
     model_source_observations,
     model_evidence_items,
     model_reports,
     model_publication_attempts,
     model_technocore_cursors,
     model_technocore_nonces,
     model_prompt_versions,
     model_policy_versions,
     model_audit_events,
     model_telegram_updates,
     model_action_executions,
     model_outbox_messages,
     model_agent_evaluations]"

section \<open>Comparison\<close>

text \<open>
  As in a comparison by Alembic, the order of columns, the names of foreign keys and defaults of the server
  do not count.
\<close>

definition plain_column :: "column \<Rightarrow> column" where
  "plain_column c = (case co_gen c of Server_default _ \<Rightarrow> c\<lparr>co_gen := Plain\<rparr> | _ \<Rightarrow> c)"

fun plain_constraint :: "constraint \<Rightarrow> constraint" where
  "plain_constraint (Foreign _ cs r rs) = Foreign None cs r rs"
| "plain_constraint k = k"

definition same_items :: "'a list \<Rightarrow> 'a list \<Rightarrow> bool" where
  "same_items xs ys \<longleftrightarrow> list_all (\<lambda>x. x \<in> set ys) xs \<and> list_all (\<lambda>y. y \<in> set xs) ys"

text \<open>The indexes the migrations add and the models do not declare.\<close>

definition EXTRA_INDEXES :: "string list" where
  "EXTRA_INDEXES = [''ix_run_events_global_seq'', ''ix_memory_embedding_vector'']"

definition matches :: "table \<Rightarrow> table \<Rightarrow> bool" where
  "matches m t \<longleftrightarrow> tb_name m = tb_name t \<and>
     same_items (map plain_column (tb_columns m)) (map plain_column (tb_columns t)) \<and>
     same_items (map plain_constraint (tb_constraints m)) (map plain_constraint (tb_constraints t)) \<and>
     same_items (tb_indexes m) (filter (\<lambda>i. ix_name i \<notin> set EXTRA_INDEXES) (tb_indexes t))"

definition schema_matches :: "table list \<Rightarrow> schema \<Rightarrow> bool" where
  "schema_matches ms s \<longleftrightarrow>
     list_all (\<lambda>m. case table_of (tb_name m) s of None \<Rightarrow> False | Some t \<Rightarrow> matches m t) ms \<and>
     list_all (\<lambda>t. tb_name t \<in> set (map tb_name ms)) (sc_tables s)"

section \<open>The upgrade builds the models\<close>

text \<open>The upgrades are run one after the other, each on the schema the one before it left.\<close>

lemma run_stage:
  "apply_all ds s = Some s1 \<Longrightarrow> \<exists>s'. apply_all es s1 = Some s' \<and> P s' \<Longrightarrow> \<exists>s'. apply_all (ds @ es) s = Some s' \<and> P s'"
  by (simp add: apply_all_append)

lemma run_last: "apply_all ds s = Some s1 \<Longrightarrow> P s1 \<Longrightarrow> \<exists>s'. apply_all ds s = Some s' \<and> P s'"
  by simp

lemma all_upgrades_match: "\<exists>s. apply_all ALL_UPGRADES empty_schema = Some s \<and> schema_matches MODEL s"
  unfolding ALL_UPGRADES_def
  apply (rule run_stage, code_simp)
  apply (rule run_stage, code_simp)
  apply (rule run_stage, code_simp)
  apply (rule run_stage, code_simp)
  apply (rule run_stage, code_simp)
  apply (rule run_stage, code_simp)
  apply (rule run_stage, code_simp)
  apply (rule run_stage, code_simp)
  apply (rule run_stage, code_simp)
  apply (rule run_stage, code_simp)
  apply (rule run_last, code_simp)
  by code_simp

text \<open>
  C39: the migrations build the schema the models declare. From an empty database the chain of the nine
  revisions runs without an error to its head, the result is well-formed, and it has the tables of the
  classes and no other, each with the columns (name, type, nullability), the keys, the unique
  constraints, the foreign keys and the indexes of its class, and beyond these only the two indexes listed.
\<close>

theorem migrations_build_the_models:
  "\<exists>s. upgrade_steps (Suc (length REVISIONS)) None empty_schema = Some (Some ''a9c8d7e6f5b4'', s) \<and>
     wf_schema s \<and> schema_matches MODEL s"
proof -
  have "wf_schema empty_schema" by (simp add: wf_schema_def empty_schema_def index_names_def)
  moreover obtain s where "apply_all ALL_UPGRADES empty_schema = Some s" "schema_matches MODEL s"
    using all_upgrades_match by blast
  ultimately show ?thesis using apply_all_wf by (intro exI [of _ s]) (simp add: upgrade_to_head del: upgrade_steps.simps)
qed

end
