(* ===== verification/Spec2Isabelle.thy ===== *)
theory Spec2Isabelle
  imports Pool_Run Worker_Loop End_To_End Seed Scheduler Planner Assembler Api_Stream Api_Admin Llm Model_Schema
begin

text \<open>
  The observatory runs an agent in the background. A task accepted by the API
  (\<open>apps/api/app.py\<close>) becomes a row \<open>Run\<close> and a row \<open>OutboxMessage\<close> in one transaction; the
  scheduler (\<open>apps/scheduler/scheduler.py\<close>) publishes the outbox to a Redis stream and requeues runs
  that are stuck; a worker (\<open>apps/worker/worker.py\<close>) claims the run under a lease and lets the
  coordinator (\<open>packages/agent_core/coordinator.py\<close>) plan it, execute the tools the policy
  (\<open>packages/policy/engine.py\<close>) allows, and verify the result. A tool that needs an approval parks
  the run; the decision (\<open>packages/policy/approval.py\<close>) puts it back into the queue and the worker
  executes the approved call, at most once.

  The theories, in the order of their imports, and the code they follow:

  \<^item> \<open>Py_Base\<close>: the Python operations the source uses on strings, bytes and integers (\<open>strip\<close>, \<open>split\<close>,
    \<open>isdigit\<close>, \<open>int\<close>, \<open>utf-8\<close>, hex), UUIDs as numbers below \<open>2^128\<close> with their text form, the shared
    lemmas. \<open>Lifecycle\<close>: the locale \<open>lifecycle\<close> (a status never leaves its legal transitions),
    interpreted for approvals and memory items.
  \<^item> \<open>Models\<close>: the rows of \<open>observability/models.py\<close> as records, the database \<open>db\<close> as a record of
    tables, the unique constraints as partial inserts. The locale \<open>row_store\<close> states lookup after
    update, insert and its frame, and is interpreted for runs, approvals, executions, outbox and memory.
  \<^item> \<open>Json\<close>: the values of \<open>json\<close> and of a Python dict; \<open>Config\<close>: the settings and their validation.
  \<^item> \<open>Policy\<close>: the decision table, canonical JSON and the hash that binds an approval to its action.
    \<open>Approval\<close>: creation, decision, continuation, consumption and the execution record.
  \<^item> \<open>Events\<close>: the append of run events with its retry; \<open>Queue\<close>: the stream client.
  \<^item> \<open>Verifier\<close>, \<open>Executor\<close>, \<open>Planner\<close>, \<open>Coordinator\<close>: one run of the agent.
  \<^item> \<open>Memory\<close>, \<open>Assembler\<close>: the long-term memory and the construction of the model's context.
  \<^item> \<open>Scheduler\<close>, \<open>Worker\<close>: their passes and transactions; \<open>Cluster\<close>: any number of workers,
    scheduler passes, crashes and API calls as a step relation over these transactions.
    \<open>Worker_Loop\<close>: one turn of a worker over the stream and the old list. \<open>Process_Run\<close>: \<open>_process_run\<close> as
    a whole, which composes the claim, the continuation, planner, context, policy, tools, coordinator, event
    sink and final update over one database, among other sessions; what a run relies on from these is the
    locale \<open>neighbours\<close>, interpreted for the heartbeat and for the decisions on approvals. \<open>Pool_Run\<close>: such a
    run as steps of the pool, and any deliveries one after the other. \<open>End_To_End\<close>: a task from the
    endpoint that accepts it over outbox, stream and worker to its final status. \<open>Seed\<close>:
    \<open>scripts/seed_technocore_memory.py\<close>.
  \<^item> \<open>Auth\<close>, \<open>Api\<close>: passwords, sessions, roles, the rate limiter, and the endpoints for tasks, runs,
    approvals and memory. \<open>Api_Stream\<close>: the event stream and the Telegram webhook. \<open>Api_Admin\<close>: the start of
    the service, the guard in front of every request, login, settings, evaluations, static files.
  \<^item> \<open>Telegram\<close>: the bot of \<open>agent_core/telegram.py\<close>, one function per command, and its dispatcher.
    \<open>Llm\<close>: the requests and answers of \<open>agent_core/llm.py\<close>.
  \<^item> \<open>Security\<close>: the regular expressions of \<open>observability/security.py\<close> with a matcher, and redaction.
  \<^item> \<open>Url\<close>, \<open>Ssrf\<close>, \<open>Http\<close>: what the guard uses of \<open>urllib.parse\<close> and \<open>ipaddress\<close>, the guard of
    \<open>connectors/ssrf.py\<close>, and the connectors that fetch JSON (\<open>http_json.py\<close>, \<open>github.py\<close>,
    \<open>internal_health.py\<close>).
  \<^item> \<open>Base64\<close>, \<open>Technocore\<close>: the signed protocol of \<open>connectors/technocore.py\<close>. \<open>Evaluator\<close>, \<open>Scorer\<close>:
    the evaluation of foreign agents (\<open>connectors/agent_evaluator.py\<close>, \<open>agent_alert.py\<close>) and the poll of
    \<open>apps/scheduler/agent_scorer.py\<close>.
  \<^item> \<open>Schema\<close>: database schemas and the operations of a migration on them; \<open>Migrations\<close>: the upgrades and
    downgrades of \<open>migrations/versions\<close> and their chain; \<open>Model_Schema\<close>: the tables the classes of
    \<open>observability/models.py\<close> declare.

  Conventions. An operation of the code is a function that takes the clock, fresh identifiers and the
  database and returns its result with the new database. An exception is the left side of a sum or
  \<open>None\<close>; a transaction that rolls back returns the database it began with. Timestamps are integers
  in microseconds (the scheduler and the memory service say so where they use seconds), money and
  confidences are rationals. Where the code reads and later writes in one transaction while others
  may commit in between, the rows it read are a separate argument \<open>snap\<close>. SHA-256, HMAC, PBKDF2, JWT
  signatures, Ed25519, Redis replies, the network, the resolver, the language model and the tools are
  arguments; properties that rely on them name what they rely on (for example that a hash is injective
  on the two texts compared). A string is a list of the code points up to 255; the Turkish letters and
  the emoji of messages are written in ASCII or, for the bot, the message is a value.

  What the groups of lemmas show. Approvals: they are consumed at most once, only after a decision in
  favour, and the call a worker executes for an approval is executed at most once, for any
  interleaving of workers and crashes; the pool of workers refines a machine of tokens, and a complete delivery of a run is steps of that pool,
  so that redeliveries repeat no call either. Coordinator:
  a run ends, within its budgets, with the status its steps give, having executed only calls that the
  policy lets run unattended, and its events are numbered without gaps. Worker: a claimed run is always
  carried to its end, its row has the status the coordinator reported last, all it reported is in the log
  in order, and a run that waits has its approval; an approved action is settled in the rows of the run and
  of its execution alike; an accepted task whose message Redis takes is carried out. Scheduler: the outbox
  publisher and the recovery of stuck runs are exact, the scan of the sources is idempotent. Events:
  the log of a run is gapless and a lost race is repeated until it succeeds. Memory: unapproved items
  never reach a context; retrieval is exact. Assembler: the context stays within its budget and
  untrusted segments are marked. API: creation and retry are idempotent, a decision is one
  transaction, access follows the roles; the stream sends the log in order; the webhook acts only for
  the secret and once per update. Bot: every message has one of four effects, and a decision through
  it is the decision of the API. Connectors: no request leaves for a blocked address, a posted message
  verifies, nonces increase, loaded secrets do not pass the redaction; the poll stores exactly the
  new messages. Migrations: the chain builds the schema the models declare, and downgrades restore the
  schema before the upgrade.

  Bounds. The loops of the code are structural recursions over the list they traverse (plan, outbox
  window, stuck runs, sources, rooms, messages), except the string scanners, whose measures are the
  lengths of the remaining text; the retries (event append, GitHub, reading and posting to a room) and
  the redirects of a fetch, which the code limits to a number that is the measure; and the endless
  loop of the event stream, which is given the list of databases its rounds see. The matcher of regular
  expressions is structural in the expression. The walk along the chain of revisions has one step
  more than there are revisions; nothing else uses fuel.

  Not modelled: the other endless loops and the startup of the worker and the scheduler, logging and
  metrics, the endpoints that only select columns or return constants (health, reports, sources, the
  status page), the wording of the bot, and the effect of a migration on the rows.
\<close>

end
